theory Spec2Isabelle
  imports Main "HOL-Library.Multiset" "HOL-Library.Sublist"
begin

section \<open>Data model of the calendar event view model\<close>

text \<open>
  The entities of \<^verbatim>\<open>CalendarEventViewModel\<close>. Dates are JavaScript \<^verbatim>\<open>Date\<close> objects and
  are represented by their \<^verbatim>\<open>getTime()\<close> value, an integer number of milliseconds.
  Field names that occur in several source types carry a prefix of the type.
\<close>

type_synonym Id = string

datatype EventType = OWN | SHARED_RO | SHARED_RW | INVITE

datatype CalendarAttendeeStatus = ADDED | NEEDS_ACTION | ACCEPTED | DECLINED | TENTATIVE

datatype ShareCapability = Read | Write | Invite

datatype AccountType = FREE | STARTER | PREMIUM | EXTERNAL

datatype EndType = Never | Count | UntilDate

datatype RepeatPeriod = DAILY | WEEKLY | MONTHLY | ANNUALLY

datatype RecipientType = RT_UNKNOWN | RT_INTERNAL | RT_EXTERNAL

record EncryptedMailAddress =
  name :: string
  address :: string

record CalendarEventAttendee =
  att_address :: EncryptedMailAddress
  att_status :: CalendarAttendeeStatus

text \<open>The persisted repeat rule: \<^verbatim>\<open>endValue\<close> and \<^verbatim>\<open>interval\<close> are number strings.\<close>

record CalendarRepeatRule =
  rr_id :: Id
  rr_endType :: EndType
  rr_endValue :: "string option"
  rr_frequency :: RepeatPeriod
  rr_interval :: string
  rr_timeZone :: string
  rr_excludedDates :: "int list"

record CalendarEvent =
  ev_id :: "(Id \<times> Id) option"
  ev_ownerGroup :: "Id option"
  ev_summary :: string
  ev_description :: string
  ev_location :: string
  ev_startTime :: int
  ev_endTime :: int
  ev_sequence :: string
  ev_uid :: "string option"
  ev_invitedConfidentially :: "bool option"
  ev_organizer :: "EncryptedMailAddress option"
  ev_repeatRule :: "CalendarRepeatRule option"
  ev_attendees :: "CalendarEventAttendee list"

record CalendarInfo =
  group :: Id
  groupRoot :: Id
  shared :: bool

record User =
  userId :: Id
  accountType :: AccountType

record Time =
  hours :: int
  minutes :: int

record AlarmInfo =
  alarmIdentifier :: string
  trigger :: string

record Mail =
  mailId :: Id

text \<open>The repeat settings of the draft (\<^verbatim>\<open>RepeatData\<close>); numbers are taken as integers.\<close>

record RepeatData =
  frequency :: RepeatPeriod
  interval :: int
  endType :: EndType
  endValue :: int
  excludedDates :: "int list"

record Recipient =
  rcp_name :: string
  rcp_address :: string
  rcp_type :: RecipientType

record Guest =
  guest_address :: EncryptedMailAddress
  guest_type :: RecipientType
  guest_status :: CalendarAttendeeStatus

text \<open>
  Modelled from the spec: \<^verbatim>\<open>SendMailModel\<close> is not part of the sources at hand. A recipient
  roster is a list of recipients with a confidentiality flag and a sender; the view model
  reads it through \<^verbatim>\<open>bccRecipients()\<close>, \<^verbatim>\<open>isConfidential()\<close>, \<^verbatim>\<open>getSender()\<close> and
  \<^verbatim>\<open>getSenderName()\<close>.
\<close>

record SendMailModel =
  bccRecipients :: "Recipient list"
  toRecipients :: "Recipient list"
  confidential :: bool
  sender :: string
  senderName :: string

datatype CalendarEventValidity =
  InvalidContainsInvalidDate | InvalidEndBeforeStart | InvalidPre1970 | Valid

datatype UpdateResponse = Yes | No | Cancel

datatype Error =
    UserError string
  | BusinessFeatureRequiredError string
  | PayloadTooLargeError
  | TooManyRequestsError
  | NotFoundError
  | ProgrammingError string
  | OtherError string

text \<open>The fields of the view model that the operations below read or write.\<close>

record ViewModel =
  summary :: string
  selectedCalendar :: "CalendarInfo option"
  startDate :: int
  endDate :: int
  startTime :: "Time option"
  endTime :: "Time option"
  allDay :: bool
  repeat :: "RepeatData option"
  calendars :: "Id \<rightharpoonup> CalendarInfo"
  organizer :: "EncryptedMailAddress option"
  possibleOrganizers :: "EncryptedMailAddress list"
  location :: string
  vm_note :: string
  existingEvent :: "CalendarEvent option"
  zone :: string
  alarms :: "AlarmInfo list"
  user :: User
  eventType :: EventType
  inviteModel :: SendMailModel
  updateModel :: SendMailModel
  cancelModel :: SendMailModel
  sendModelFactory :: SendMailModel
  ownMailAddresses :: "string list"
  guestStatuses :: "string \<rightharpoonup> CalendarAttendeeStatus"
  ownAttendee :: "EncryptedMailAddress option"
  responseTo :: "Mail option"
  processing :: bool
  hasBusinessFeature :: bool
  isForceUpdates :: bool

text \<open>
  What the view model does to the outside: calls of the notification distributor, the
  calendar store and the entity client, and the questions put to the caller, in the order
  in which they happen.
\<close>

datatype Effect =
    WaitForResolvedRecipients
  | AskForUpdates
  | AskInsecurePassword
  | SendInvite CalendarEvent SendMailModel
  | SendCancellation CalendarEvent SendMailModel
  | SendUpdate CalendarEvent SendMailModel
  | SendResponse CalendarEvent SendMailModel string "Mail option" CalendarAttendeeStatus
  | DisposeModel SendMailModel
  | CreateEvent CalendarEvent "AlarmInfo list" string Id
  | UpdateEvent CalendarEvent "AlarmInfo list" string Id CalendarEvent
  | LoadEvent "(Id \<times> Id) option"

record State =
  vm :: ViewModel
  trace :: "Effect list"

text \<open>
  What the outside answers during one run: the caller's answers to the two questions, and
  for every external call whether it fails (\<open>Some\<close> error) or completes (\<open>None\<close>);
  the clock readings used by the draft.
\<close>

record Env =
  askForUpdatesAnswer :: UpdateResponse
  askInsecurePasswordAnswer :: bool
  isNewPaidPlan :: bool
  resolveResult :: "Error option"
  sendInviteResult :: "Error option"
  sendCancellationResult :: "Error option"
  sendUpdateResult :: "Error option"
  sendResponseResult :: "Error option"
  disposeResult :: "Error option"
  createEventResult :: "Error option"
  updateEventResult :: "Error option"
  loadResult :: "Error + CalendarEvent option"
  thisYear :: int
  oneMonthFromNow :: int
  nowMillis :: int

section \<open>Collaborators outside the view model\<close>

text \<open>
  Functions the view model imports from other modules. They are parameters of the
  model: the mailbox properties as the sender-name lookup \<^verbatim>\<open>getSenderName\<close>, the address
  normalisation \<^verbatim>\<open>cleanMailAddress\<close>, the permission lookup \<^verbatim>\<open>hasCapabilityOnGroup\<close>,
  the date arithmetic of \<^verbatim>\<open>Date\<close>, \<^verbatim>\<open>DateTime\<close> and \<^verbatim>\<open>CalendarUtils\<close>
  (\<open>plusDays z d n\<close> is \<^verbatim>\<open>DateTime.fromJSDate(d, {zone: z}).plus({days: n}).toJSDate()\<close>,
  \<open>setTimeOfDay z d h m\<close> is the same with \<^verbatim>\<open>set({hour: h, minute: m})\<close>), the entity
  factories, the validity check, and the two roster queries on passwords and external
  recipients.
\<close>

record Lib =
  getSenderName :: "string \<Rightarrow> string option"
  cleanMailAddress :: "string \<Rightarrow> string"
  hasCapabilityOnGroup :: "User \<Rightarrow> Id \<Rightarrow> ShareCapability \<Rightarrow> bool"
  getFullYear :: "int \<Rightarrow> int"
  setFullYear :: "int \<Rightarrow> int \<Rightarrow> int"
  getDiffInDays :: "int \<Rightarrow> int \<Rightarrow> int"
  plusDays :: "string \<Rightarrow> int \<Rightarrow> int \<Rightarrow> int"
  setTimeOfDay :: "string \<Rightarrow> int \<Rightarrow> int \<Rightarrow> int \<Rightarrow> int"
  getAllDayDateUTCFromZone :: "int \<Rightarrow> string \<Rightarrow> int"
  getStartOfNextDayWithZone :: "int \<Rightarrow> string \<Rightarrow> int"
  getEventStart :: "CalendarEvent \<Rightarrow> string \<Rightarrow> int"
  incrementSequence :: "string \<Rightarrow> bool \<Rightarrow> string"
  generateUid :: "Id \<Rightarrow> int \<Rightarrow> string"
  numberToString :: "int \<Rightarrow> string"
  createCalendarEvent :: CalendarEvent
  createRepeatRuleWithValues :: "RepeatPeriod \<Rightarrow> int \<Rightarrow> CalendarRepeatRule"
  checkEventValidity :: "CalendarEvent \<Rightarrow> CalendarEventValidity"
  modelHasInsecurePasswords :: "SendMailModel \<Rightarrow> bool"
  modelContainsExternalRecipients :: "SendMailModel \<Rightarrow> bool"

text \<open>
  Modelled from the spec: \<^verbatim>\<open>copyMailAddress\<close> of \<^verbatim>\<open>MailUtils\<close> is not part of the sources
  at hand; the organizer "is copied unchanged from the original", so the copy holds the
  same name and address.
\<close>

definition copyMailAddress :: "EncryptedMailAddress \<Rightarrow> EncryptedMailAddress" where
  "copyMailAddress a = \<lparr>name = name a, address = address a\<rparr>"

text \<open>
  Modelled from the spec: \<^verbatim>\<open>findAttendeeInAddresses\<close> of \<^verbatim>\<open>CommonCalendarUtils\<close> is not part
  of the sources at hand. An attendee's identity key is the normalised email, so it returns
  the first attendee whose normalised address is among the normalised addresses given.
  The projection \<open>addr\<close> reads the \<^verbatim>\<open>address.address\<close> of an element.
\<close>

definition findAttendeeInAddresses ::
  "Lib \<Rightarrow> ('a \<Rightarrow> string) \<Rightarrow> 'a list \<Rightarrow> string list \<Rightarrow> 'a option" where
  "findAttendeeInAddresses lib addr attendees addresses =
     find (\<lambda>a. cleanMailAddress lib (addr a) \<in> set (map (cleanMailAddress lib) addresses)) attendees"

text \<open>
  Modelled from the spec: \<^verbatim>\<open>findRecipientWithAddress\<close> of \<^verbatim>\<open>CommonCalendarUtils\<close> is not
  part of the sources at hand; it returns the first entry with the given address, compared
  in normalised form.
\<close>

definition findRecipientWithAddress ::
  "Lib \<Rightarrow> ('a \<Rightarrow> string) \<Rightarrow> 'a list \<Rightarrow> string \<Rightarrow> 'a option" where
  "findRecipientWithAddress lib addr recipients a =
     find (\<lambda>r. cleanMailAddress lib (addr r) = cleanMailAddress lib a) recipients"

section \<open>Role classification\<close>

record InitEventTypeReturn =
  ret_eventType :: EventType
  ret_organizer :: "EncryptedMailAddress option"
  ret_possibleOrganizers :: "EncryptedMailAddress list"

definition addressToMailAddress :: "Lib \<Rightarrow> string \<Rightarrow> EncryptedMailAddress" where
  "addressToMailAddress lib a =
     \<lparr>name = (case getSenderName lib a of Some n \<Rightarrow> n | None \<Rightarrow> ''''), address = a\<rparr>"

definition ownPossibleOrganizers :: "Lib \<Rightarrow> string list \<Rightarrow> EncryptedMailAddress list" where
  "ownPossibleOrganizers lib ownAddresses = map (addressToMailAddress lib) ownAddresses"

text \<open>
  \<^verbatim>\<open>hasGuests\<close> reads the existing event of the view model: there are attendees, and they
  are not just the editor alone.
\<close>

definition hasGuests :: "Lib \<Rightarrow> string list \<Rightarrow> CalendarEvent option \<Rightarrow> bool" where
  "hasGuests lib ownAddresses existing =
     (case existing of
        None \<Rightarrow> False
      | Some e \<Rightarrow>
          length (ev_attendees e) > 0 \<and>
          \<not> (length (ev_attendees e) = 1 \<and>
             findAttendeeInAddresses lib (\<lambda>a. address (att_address a)) [hd (ev_attendees e)]
               ownAddresses \<noteq> None))"

text \<open>
  \<^verbatim>\<open>existingEvent._ownerGroup && calendars.get(existingEvent._ownerGroup)\<close>: a missing or
  empty owner group is falsy, and so is a group with no entry in the calendar map.
\<close>

definition calendarInfoForEvent ::
  "CalendarEvent \<Rightarrow> (Id \<rightharpoonup> CalendarInfo) \<Rightarrow> CalendarInfo option" where
  "calendarInfoForEvent existing cals =
     (case ev_ownerGroup existing of
        None \<Rightarrow> None
      | Some g \<Rightarrow> if g = [] then None else cals g)"

text \<open>
  \<^verbatim>\<open>initEventTypeAndOrganizers\<close>. The arguments \<open>usr\<close>, \<open>defaultSender\<close> stand for the usr
  controller (its usr and \<^verbatim>\<open>getDefaultSenderFromUser\<close>), \<open>ownAddresses\<close> for the field
  \<^verbatim>\<open>_ownMailAddresses\<close> set before the call.
\<close>

definition initEventTypeAndOrganizers ::
  "Lib \<Rightarrow> User \<Rightarrow> string \<Rightarrow> string list \<Rightarrow> CalendarEvent option \<Rightarrow>
   (Id \<rightharpoonup> CalendarInfo) \<Rightarrow> InitEventTypeReturn" where
  "initEventTypeAndOrganizers lib usr defaultSender ownAddresses existing cals =
     (let ownDefaultSender = addressToMailAddress lib defaultSender in
      case existing of
        None \<Rightarrow>
          \<lparr>ret_eventType = OWN,
           ret_organizer = Some ownDefaultSender,
           ret_possibleOrganizers = ownPossibleOrganizers lib ownAddresses\<rparr>
      | Some e \<Rightarrow>
          (let existingOrganizer = ev_organizer e in
           case calendarInfoForEvent e cals of
             Some ci \<Rightarrow>
               if shared ci then
                 \<lparr>ret_eventType =
                    (if hasCapabilityOnGroup lib usr (group ci) Write then SHARED_RW else SHARED_RO),
                  ret_organizer = map_option copyMailAddress existingOrganizer,
                  ret_possibleOrganizers =
                    (case existingOrganizer of Some org \<Rightarrow> [org] | None \<Rightarrow> [])\<rparr>
               else
                 (case existingOrganizer of
                    Some org \<Rightarrow>
                      if address org \<in> set ownAddresses \<or> length (ev_attendees e) = 0 then
                        (let actualOrganizer =
                               (if address org \<in> set ownAddresses then org else ownDefaultSender)
                         in \<lparr>ret_eventType = OWN,
                             ret_organizer = Some (copyMailAddress actualOrganizer),
                             ret_possibleOrganizers =
                               (if hasGuests lib ownAddresses existing then [actualOrganizer]
                                else ownPossibleOrganizers lib ownAddresses)\<rparr>)
                      else
                        \<lparr>ret_eventType = INVITE,
                         ret_organizer = Some org,
                         ret_possibleOrganizers = [org]\<rparr>
                  | None \<Rightarrow>
                      \<lparr>ret_eventType = OWN,
                       ret_organizer = Some (copyMailAddress ownDefaultSender),
                       ret_possibleOrganizers =
                         (if hasGuests lib ownAddresses existing then [ownDefaultSender]
                          else ownPossibleOrganizers lib ownAddresses)\<rparr>)
           | None \<Rightarrow>
               \<lparr>ret_eventType = INVITE,
                ret_organizer = map_option copyMailAddress existingOrganizer,
                ret_possibleOrganizers =
                  (case existingOrganizer of Some org \<Rightarrow> [org] | None \<Rightarrow> [])\<rparr>))"

section \<open>Change detection\<close>

text \<open>
  \<^verbatim>\<open>areExcludedDatesEqual\<close>: equal lengths, and at every index the same instant.
\<close>

definition areExcludedDatesEqual :: "int list \<Rightarrow> int list \<Rightarrow> bool" where
  "areExcludedDatesEqual e1 e2 =
     (if length e1 \<noteq> length e2 then False
      else list_all (\<lambda>i. e2 ! i = e1 ! i) [0..<length e1])"

text \<open>
  \<^verbatim>\<open>areRepeatRulesEqual\<close>. The test \<^verbatim>\<open>r1 === r2\<close> compares references: it holds when both
  rules are null; two references to one object carry equal fields, so that case is covered
  by the field comparison. \<^verbatim>\<open>r?.f\<close> of a null rule is \<^verbatim>\<open>undefined\<close>, here \<open>None\<close>.
\<close>

definition areRepeatRulesEqual ::
  "CalendarRepeatRule option \<Rightarrow> CalendarRepeatRule option \<Rightarrow> bool" where
  "areRepeatRulesEqual r1 r2 =
     ((r1 = None \<and> r2 = None) \<or>
      (map_option rr_endType r1 = map_option rr_endType r2 \<and>
       map_option rr_endValue r1 = map_option rr_endValue r2 \<and>
       map_option rr_frequency r1 = map_option rr_frequency r2 \<and>
       map_option rr_interval r1 = map_option rr_interval r2 \<and>
       map_option rr_timeZone r1 = map_option rr_timeZone r2 \<and>
       areExcludedDatesEqual
         (case r1 of Some r \<Rightarrow> rr_excludedDates r | None \<Rightarrow> [])
         (case r2 of Some r \<Rightarrow> rr_excludedDates r | None \<Rightarrow> [])))"

text \<open>
  Modelled from the spec: \<^verbatim>\<open>arrayEqualsWithPredicate\<close> of the utility package is not part
  of the sources at hand. The attendee lists are "compared as an order-insensitive
  equality": every element of the first array is matched, under the predicate, with an
  element of the second that no earlier element has taken, and none is left over.
\<close>

fun removeFirstMatch :: "('a \<Rightarrow> bool) \<Rightarrow> 'a list \<Rightarrow> 'a list option" where
  "removeFirstMatch p [] = None"
| "removeFirstMatch p (y # ys) =
     (if p y then Some ys else map_option ((#) y) (removeFirstMatch p ys))"

fun arrayEqualsWithPredicate :: "'a list \<Rightarrow> 'a list \<Rightarrow> ('a \<Rightarrow> 'a \<Rightarrow> bool) \<Rightarrow> bool" where
  "arrayEqualsWithPredicate [] a2 p = (a2 = [])"
| "arrayEqualsWithPredicate (x # a1) a2 p =
     (case removeFirstMatch (p x) a2 of
        None \<Rightarrow> False
      | Some rest \<Rightarrow> arrayEqualsWithPredicate a1 rest p)"

text \<open>
  \<^verbatim>\<open>_hasChanges\<close>, with the existing event of the view model as the first argument. The
  organizer test \<^verbatim>\<open>newEvent.organizer !== existingEvent.organizer\<close> compares references;
  it is rendered by inequality of the values, which the second conjunct (the addresses
  differ) implies in any case.
\<close>

definition hasChanges :: "Lib \<Rightarrow> CalendarEvent option \<Rightarrow> CalendarEvent \<Rightarrow> bool" where
  "hasChanges lib existing newEvent =
     (case existing of
        None \<Rightarrow> True
      | Some ex \<Rightarrow>
          ev_startTime newEvent \<noteq> ev_startTime ex \<or>
          ev_description newEvent \<noteq> ev_description ex \<or>
          ev_summary newEvent \<noteq> ev_summary ex \<or>
          ev_location newEvent \<noteq> ev_location ex \<or>
          ev_endTime newEvent \<noteq> ev_endTime ex \<or>
          ev_invitedConfidentially newEvent \<noteq> ev_invitedConfidentially ex \<or>
          ev_uid newEvent \<noteq> ev_uid ex \<or>
          \<not> areRepeatRulesEqual (ev_repeatRule newEvent) (ev_repeatRule ex) \<or>
          \<not> arrayEqualsWithPredicate (ev_attendees newEvent) (ev_attendees ex)
              (\<lambda>a1 a2. att_status a1 = att_status a2 \<and>
                 cleanMailAddress lib (address (att_address a1)) =
                 cleanMailAddress lib (address (att_address a2))) \<or>
          (ev_organizer newEvent \<noteq> ev_organizer ex \<and>
           map_option address (ev_organizer newEvent) \<noteq> map_option address (ev_organizer ex)))"

text \<open>
  The comparison as the specification words it: a repeat rule is compared by its fields,
  the exclusion list among them as an ordered list of instants; an attendee counts by its
  normalised address and its status, the name left out.
\<close>

definition ruleFields ::
  "CalendarRepeatRule \<Rightarrow> EndType \<times> string option \<times> RepeatPeriod \<times> string \<times> string \<times> int list" where
  "ruleFields r =
     (rr_endType r, rr_endValue r, rr_frequency r, rr_interval r, rr_timeZone r, rr_excludedDates r)"

definition attendeeKey :: "Lib \<Rightarrow> CalendarEventAttendee \<Rightarrow> string \<times> CalendarAttendeeStatus" where
  "attendeeKey lib a = (cleanMailAddress lib (address (att_address a)), att_status a)"

section \<open>Draft mutations\<close>

text \<open>\<^verbatim>\<open>deleteExcludedDates\<close>: empties the exclusion list of the draft's rule, if there is one.\<close>

definition deleteExcludedDates :: "ViewModel \<Rightarrow> ViewModel" where
  "deleteExcludedDates v =
     (case repeat v of
        None \<Rightarrow> v
      | Some r \<Rightarrow> v\<lparr>repeat := Some (r\<lparr>excludedDates := []\<rparr>)\<rparr>)"

text \<open>
  \<^verbatim>\<open>onRepeatPeriodSelected\<close>. With no rule on the draft, \<^verbatim>\<open>this.repeat?.frequency\<close> is
  \<^verbatim>\<open>undefined\<close>, which is strictly equal to no argument.
\<close>

definition onRepeatPeriodSelected :: "RepeatPeriod option \<Rightarrow> ViewModel \<Rightarrow> ViewModel" where
  "onRepeatPeriodSelected repeatPeriod v =
     (if (case repeat v of Some r \<Rightarrow> Some (frequency r) = repeatPeriod | None \<Rightarrow> False) then v
      else
        (case repeatPeriod of
           None \<Rightarrow> v\<lparr>repeat := None\<rparr>
         | Some p \<Rightarrow>
             (case repeat v of
                Some r \<Rightarrow> deleteExcludedDates (v\<lparr>repeat := Some (r\<lparr>frequency := p\<rparr>)\<rparr>)
              | None \<Rightarrow>
                  v\<lparr>repeat := Some \<lparr>frequency = p, interval = 1, endType = Never, endValue = 1,
                                   excludedDates = []\<rparr>\<rparr>)))"

definition onEndOccurencesSelected :: "int \<Rightarrow> ViewModel \<Rightarrow> ViewModel" where
  "onEndOccurencesSelected newEndValue v =
     (case repeat v of
        Some r \<Rightarrow>
          if endType r = Count \<and> endValue r \<noteq> newEndValue
          then deleteExcludedDates (v\<lparr>repeat := Some (r\<lparr>endValue := newEndValue\<rparr>)\<rparr>)
          else v
      | None \<Rightarrow> v)"

text \<open>The argument of \<^verbatim>\<open>onRepeatEndDateSelected\<close> is the \<^verbatim>\<open>getTime()\<close> of the date chosen.\<close>

definition onRepeatEndDateSelected :: "int \<Rightarrow> ViewModel \<Rightarrow> ViewModel" where
  "onRepeatEndDateSelected endDateTime v =
     (case repeat v of
        Some r \<Rightarrow>
          if endType r = UntilDate \<and> endValue r \<noteq> endDateTime
          then deleteExcludedDates (v\<lparr>repeat := Some (r\<lparr>endValue := endDateTime\<rparr>)\<rparr>)
          else v
      | None \<Rightarrow> v)"

definition onRepeatIntervalChanged :: "int \<Rightarrow> ViewModel \<Rightarrow> ViewModel" where
  "onRepeatIntervalChanged newInterval v =
     (case repeat v of
        Some r \<Rightarrow>
          if interval r \<noteq> newInterval
          then deleteExcludedDates (v\<lparr>repeat := Some (r\<lparr>interval := newInterval\<rparr>)\<rparr>)
          else v
      | None \<Rightarrow> v)"

text \<open>
  \<^verbatim>\<open>onRepeatEndTypeChanged\<close>: after the exclusions are deleted the end value is reset, to
  one month from now (\<open>oneMonthFromNow\<close>, read from the clock) for an end date, to 1 otherwise.
\<close>

definition onRepeatEndTypeChanged :: "Env \<Rightarrow> EndType \<Rightarrow> ViewModel \<Rightarrow> ViewModel" where
  "onRepeatEndTypeChanged env newEndType v =
     (case repeat v of
        Some r \<Rightarrow>
          if endType r \<noteq> newEndType then
            (let v1 = deleteExcludedDates (v\<lparr>repeat := Some (r\<lparr>endType := newEndType\<rparr>)\<rparr>)
             in v1\<lparr>repeat :=
                     map_option
                       (\<lambda>r1. r1\<lparr>endValue := (if newEndType = UntilDate then oneMonthFromNow env else 1)\<rparr>)
                       (repeat v1)\<rparr>)
          else v
      | None \<Rightarrow> v)"

text \<open>
  Modelled from the spec: \<^verbatim>\<open>TIMESTAMP_ZERO_YEAR\<close> of the utility package is not part of the
  sources at hand; it is the minimum supported year, the year of timestamp zero (the view
  model reports earlier events as \<^verbatim>\<open>pre1970Start_msg\<close>).
\<close>

definition TIMESTAMP_ZERO_YEAR :: int where
  "TIMESTAMP_ZERO_YEAR = 1970"

definition setStartDate :: "Lib \<Rightarrow> Env \<Rightarrow> int \<Rightarrow> ViewModel \<Rightarrow> ViewModel" where
  "setStartDate lib env date v =
     (if date = startDate v then v
      else if getFullYear lib date < TIMESTAMP_ZERO_YEAR then
        v\<lparr>startDate := setFullYear lib date (thisYear env)\<rparr>
      else
        (let diff = getDiffInDays lib (startDate v) date
         in deleteExcludedDates
              (v\<lparr>endDate := plusDays lib (zone v) (endDate v) diff, startDate := date\<rparr>)))"

definition setEndDate :: "int \<Rightarrow> ViewModel \<Rightarrow> ViewModel" where
  "setEndDate date v = v\<lparr>endDate := date\<rparr>"

section \<open>Attendees\<close>

text \<open>
  The derived attendee list \<^verbatim>\<open>attendees()\<close> of \<^verbatim>\<open>_initAttendees\<close>: the own attendee first,
  then the invite roster, then the update roster, each with its status from the ledger.
\<close>

definition makeGuestList :: "ViewModel \<Rightarrow> SendMailModel \<Rightarrow> Guest list" where
  "makeGuestList v model =
     map (\<lambda>recipient.
            \<lparr>guest_address = \<lparr>name = rcp_name recipient, address = rcp_address recipient\<rparr>,
             guest_type = rcp_type recipient,
             guest_status =
               (case guestStatuses v (rcp_address recipient) of
                  Some st \<Rightarrow> st | None \<Rightarrow> NEEDS_ACTION)\<rparr>)
         (bccRecipients model)"

definition attendees :: "ViewModel \<Rightarrow> Guest list" where
  "attendees v =
     (let guests = makeGuestList v (inviteModel v) @ makeGuestList v (updateModel v)
      in case ownAttendee v of
           Some own \<Rightarrow>
             \<lparr>guest_address = own, guest_type = RT_INTERNAL,
              guest_status =
                (case guestStatuses v (address own) of Some st \<Rightarrow> st | None \<Rightarrow> ACCEPTED)\<rparr>
             # guests
         | None \<Rightarrow> guests)"

definition findOwnAttendee :: "Lib \<Rightarrow> ViewModel \<Rightarrow> Guest option" where
  "findOwnAttendee lib v =
     findAttendeeInAddresses lib (\<lambda>g. address (guest_address g)) (attendees v) (ownMailAddresses v)"

text \<open>
  Modelled from the spec: \<^verbatim>\<open>SendMailModel.addRecipient\<close> is not part of the sources at
  hand. The roster is appended to, and the model "handles deduplication": an address
  that the roster holds already is not added again. A new entry is unresolved; the contact
  passed along serves the resolution only.
\<close>

definition addRecipient :: "Lib \<Rightarrow> string \<Rightarrow> string \<Rightarrow> SendMailModel \<Rightarrow> SendMailModel" where
  "addRecipient lib recipientName recipientAddress model =
     (if findRecipientWithAddress lib rcp_address (bccRecipients model) recipientAddress \<noteq> None
      then model
      else model\<lparr>bccRecipients := bccRecipients model @
             [\<lparr>rcp_name = recipientName, rcp_address = recipientAddress, rcp_type = RT_UNKNOWN\<rparr>]\<rparr>)"

definition canModifyOwnAttendance :: "Lib \<Rightarrow> ViewModel \<Rightarrow> bool" where
  "canModifyOwnAttendance lib v =
     (eventType v = OWN \<or> (eventType v = INVITE \<and> findOwnAttendee lib v \<noteq> None))"

definition canModifyOrganizer :: "Lib \<Rightarrow> ViewModel \<Rightarrow> bool" where
  "canModifyOrganizer lib v =
     (eventType v = OWN \<and> \<not> hasGuests lib (ownMailAddresses v) (existingEvent v))"

definition setOrganizer :: "Lib \<Rightarrow> EncryptedMailAddress \<Rightarrow> ViewModel \<Rightarrow> ViewModel" where
  "setOrganizer lib newOrganizer v =
     (if canModifyOrganizer lib v
      then v\<lparr>organizer := Some newOrganizer, ownAttendee := Some newOrganizer\<rparr>
      else v)"

definition selectGoing :: "Lib \<Rightarrow> CalendarAttendeeStatus \<Rightarrow> ViewModel \<Rightarrow> ViewModel" where
  "selectGoing lib going v =
     (if canModifyOwnAttendance lib v then
        (case ownAttendee v of
           Some own \<Rightarrow> v\<lparr>guestStatuses := (guestStatuses v)(address own \<mapsto> going)\<rparr>
         | None \<Rightarrow>
             if eventType v = OWN then
               (let newOwnAttendee =
                      \<lparr>name = senderName (inviteModel v), address = sender (inviteModel v)\<rparr>
                in v\<lparr>ownAttendee := Some newOwnAttendee,
                     guestStatuses := (guestStatuses v)(address newOwnAttendee \<mapsto> going)\<rparr>)
             else v)
      else v)"

text \<open>
  \<^verbatim>\<open>addGuest\<close>, step by step as in the source: \<open>v1\<close> after the invite roster, \<open>v2\<close> after
  the old own attendee's ledger entry is dropped, \<open>v3\<close> after the ledger entry is added,
  \<open>v4\<close> after the organizer is set.
\<close>

definition addGuest :: "Lib \<Rightarrow> string \<Rightarrow> ViewModel \<Rightarrow> ViewModel" where
  "addGuest lib mailAddress v =
     (if findAttendeeInAddresses lib (\<lambda>g. address (guest_address g)) (attendees v) [mailAddress]
           \<noteq> None
      then v
      else
        (let isOwnAttendee = (mailAddress \<in> set (ownMailAddresses v));
             v1 = (if \<not> isOwnAttendee
                   then v\<lparr>inviteModel := addRecipient lib [] mailAddress (inviteModel v)\<rparr>
                   else v);
             status = (if isOwnAttendee then ACCEPTED else ADDED);
             v2 = (if isOwnAttendee then
                     (case findOwnAttendee lib v1 of
                        Some own \<Rightarrow>
                          v1\<lparr>guestStatuses :=
                               (guestStatuses v1)(address (guest_address own) := None)\<rparr>
                      | None \<Rightarrow> v1)
                   else v1);
             v3 = (if guestStatuses v2 mailAddress = None
                   then v2\<lparr>guestStatuses := (guestStatuses v2)(mailAddress \<mapsto> status)\<rparr>
                   else v2);
             v4 = (if isOwnAttendee then
                     (case findRecipientWithAddress lib address (possibleOrganizers v3) mailAddress of
                        Some newOrganizer \<Rightarrow> setOrganizer lib newOrganizer v3
                      | None \<Rightarrow> v3)
                   else v3)
         in if length (attendees v4) = 1 \<and> findOwnAttendee lib v4 = None
            then selectGoing lib ACCEPTED v4
            else v4))"

section \<open>Promises\<close>

text \<open>
  An asynchronous computation is a function from the state before to its outcome,
  a rejection (\<open>Inl\<close>) or a value (\<open>Inr\<close>), and the state after. \<open>thenP\<close> is
  \<^verbatim>\<open>then\<close>: the continuation runs only on a value. An exception thrown in a continuation
  rejects the promise, so it is a rejection here as well. \<open>call\<close> is a call of an
  external collaborator: it is recorded in the trace and completes or fails as the
  environment says. The progress sink \<^verbatim>\<open>showProgress\<close> only observes a promise and is left
  out.
\<close>

type_synonym 'a Promise = "State \<Rightarrow> (Error + 'a) \<times> State"

definition resolve :: "'a \<Rightarrow> 'a Promise" where
  "resolve a st = (Inr a, st)"

definition reject :: "Error \<Rightarrow> 'a Promise" where
  "reject e st = (Inl e, st)"

definition thenP :: "'a Promise \<Rightarrow> ('a \<Rightarrow> 'b Promise) \<Rightarrow> 'b Promise" where
  "thenP p f st = (case p st of (Inl e, st1) \<Rightarrow> (Inl e, st1) | (Inr a, st1) \<Rightarrow> f a st1)"

definition call :: "Effect \<Rightarrow> Error option \<Rightarrow> unit Promise" where
  "call eff outcome st =
     ((case outcome of Some e \<Rightarrow> Inl e | None \<Rightarrow> Inr ()), st\<lparr>trace := trace st @ [eff]\<rparr>)"

definition ask :: "Effect \<Rightarrow> 'a \<Rightarrow> 'a Promise" where
  "ask eff answer st = (Inr answer, st\<lparr>trace := trace st @ [eff]\<rparr>)"

definition catchPayloadTooLarge :: "'a Promise \<Rightarrow> 'a Promise" where
  "catchPayloadTooLarge p st =
     (case p st of
        (Inl PayloadTooLargeError, st1) \<Rightarrow> (Inl (UserError ''requestTooLarge_msg''), st1)
      | (r, st1) \<Rightarrow> (r, st1))"

definition finallyP :: "'a Promise \<Rightarrow> (State \<Rightarrow> State) \<Rightarrow> 'a Promise" where
  "finallyP p f st = (case p st of (r, st1) \<Rightarrow> (r, f st1))"

section \<open>Materialization\<close>

definition isConfidential :: "ViewModel \<Rightarrow> bool" where
  "isConfidential v =
     (confidential (inviteModel v) \<and> confidential (updateModel v) \<and> confidential (cancelModel v))"

definition createRepeatRule ::
  "Lib \<Rightarrow> ViewModel \<Rightarrow> CalendarEvent \<Rightarrow> RepeatData \<Rightarrow> Error + CalendarRepeatRule" where
  "createRepeatRule lib v newEvent rep =
     (let interval1 = (if interval rep = 0 then 1 else interval rep);
          repeatRule = (createRepeatRuleWithValues lib (frequency rep) interval1)
                         \<lparr>rr_endType := endType rep, rr_excludedDates := excludedDates rep\<rparr>
      in if endType rep = Count then
           (if endValue rep < 1 then Inr (repeatRule\<lparr>rr_endType := Never\<rparr>)
            else Inr (repeatRule\<lparr>rr_endValue := Some (numberToString lib (endValue rep))\<rparr>))
         else if endType rep = UntilDate then
           (let repeatEndDate = getStartOfNextDayWithZone lib (endValue rep) (zone v)
            in if repeatEndDate < getEventStart lib newEvent (zone v)
               then Inl (UserError ''startAfterEnd_label'')
               else Inr (repeatRule\<lparr>rr_endValue :=
                      Some (numberToString lib
                        (if allDay v then getAllDayDateUTCFromZone lib repeatEndDate (zone v)
                         else repeatEndDate))\<rparr>))
         else Inr repeatRule)"

text \<open>
  \<^verbatim>\<open>_initializeNewEvent\<close>. The failures are in the order of the source: an invalid time of
  day, no selected calendar when an identity has to be generated, a repeat end before the
  start, and the validity check at the end.
\<close>

definition initializeNewEvent :: "Lib \<Rightarrow> Env \<Rightarrow> ViewModel \<Rightarrow> Error + CalendarEvent" where
  "initializeNewEvent lib env v =
     (let cloned = (case existingEvent v of Some e \<Rightarrow> e | None \<Rightarrow> createCalendarEvent lib);
          newEvent0 = cloned\<lparr>ev_sequence :=
                        incrementSequence lib (ev_sequence cloned) (eventType v = OWN)\<rparr>;
          dates =
            (if allDay v then
               Inr (getAllDayDateUTCFromZone lib (startDate v) (zone v),
                    getAllDayDateUTCFromZone lib
                      (getStartOfNextDayWithZone lib (endDate v) (zone v)) (zone v))
             else
               (case (startTime v, endTime v) of
                  (Some t1, Some t2) \<Rightarrow>
                    Inr (setTimeOfDay lib (zone v) (startDate v) (hours t1) (minutes t1),
                         setTimeOfDay lib (zone v) (endDate v) (hours t2) (minutes t2))
                | _ \<Rightarrow> Inl (UserError ''timeFormatInvalid_msg'')))
      in case dates of
           Inl e \<Rightarrow> Inl e
         | Inr (start, end) \<Rightarrow>
             (let newEvent1 = newEvent0\<lparr>ev_startTime := start, ev_description := vm_note v,
                    ev_summary := summary v, ev_location := location v, ev_endTime := end,
                    ev_invitedConfidentially := Some (isConfidential v)\<rparr>;
                  uid =
                    (case existingEvent v of
                       Some e \<Rightarrow>
                         (case ev_uid e of
                            Some u \<Rightarrow> if u \<noteq> [] then Inr u
                              else (case selectedCalendar v of
                                      Some c \<Rightarrow> Inr (generateUid lib (group c) (nowMillis env))
                                    | None \<Rightarrow> Inl (ProgrammingError ''assertNotNull''))
                          | None \<Rightarrow>
                              (case selectedCalendar v of
                                 Some c \<Rightarrow> Inr (generateUid lib (group c) (nowMillis env))
                               | None \<Rightarrow> Inl (ProgrammingError ''assertNotNull'')))
                     | None \<Rightarrow>
                         (case selectedCalendar v of
                            Some c \<Rightarrow> Inr (generateUid lib (group c) (nowMillis env))
                          | None \<Rightarrow> Inl (ProgrammingError ''assertNotNull'')))
              in case uid of
                   Inl e \<Rightarrow> Inl e
                 | Inr u \<Rightarrow>
                     (let newEvent2 = newEvent1\<lparr>ev_uid := Some u\<rparr>;
                          rule = (case repeat v of
                                    None \<Rightarrow> Inr None
                                  | Some rep \<Rightarrow> map_sum id Some (createRepeatRule lib v newEvent2 rep))
                      in case rule of
                           Inl e \<Rightarrow> Inl e
                         | Inr r \<Rightarrow>
                             (let newEvent3 = newEvent2\<lparr>ev_repeatRule := r,
                                    ev_attendees :=
                                      map (\<lambda>a. \<lparr>att_address = guest_address a,
                                                 att_status = guest_status a\<rparr>) (attendees v),
                                    ev_organizer := organizer v\<rparr>
                              in case checkEventValidity lib newEvent3 of
                                   InvalidContainsInvalidDate \<Rightarrow> Inl (UserError ''invalidDate_msg'')
                                 | InvalidEndBeforeStart \<Rightarrow> Inl (UserError ''startAfterEnd_label'')
                                 | InvalidPre1970 \<Rightarrow> Inl (UserError ''pre1970Start_msg'')
                                 | Valid \<Rightarrow> Inr newEvent3))))"

section \<open>Saving and sending\<close>

text \<open>
  \<^verbatim>\<open>_saveEvent\<close>: nothing is stored for an external user; otherwise the event is created, or
  updated when the existing event has an identity.
\<close>

definition saveEvent :: "Env \<Rightarrow> CalendarEvent \<Rightarrow> AlarmInfo list \<Rightarrow> unit Promise" where
  "saveEvent env newEvent newAlarms st =
     (if accountType (user (vm st)) = EXTERNAL then resolve () st
      else
        (case selectedCalendar (vm st) of
           None \<Rightarrow> reject (ProgrammingError ''assertNotNull'') st
         | Some c \<Rightarrow>
             (case existingEvent (vm st) of
                None \<Rightarrow>
                  call (CreateEvent newEvent newAlarms (zone (vm st)) (groupRoot c))
                    (createEventResult env) st
              | Some ex \<Rightarrow>
                  if ev_id ex = None then
                    call (CreateEvent newEvent newAlarms (zone (vm st)) (groupRoot c))
                      (createEventResult env) st
                  else
                    call (UpdateEvent newEvent newAlarms (zone (vm st)) (groupRoot c) ex)
                      (updateEventResult env) st)))"

definition hasUpdatableAttendees :: "ViewModel \<Rightarrow> bool" where
  "hasUpdatableAttendees v = (length (bccRecipients (updateModel v)) > 0)"

definition shouldShowSendInviteNotAvailable :: "Env \<Rightarrow> ViewModel \<Rightarrow> bool" where
  "shouldShowSendInviteNotAvailable env v =
     (if accountType (user v) = FREE then True
      else if accountType (user v) = EXTERNAL then False
      else \<not> hasBusinessFeature v \<and> \<not> isNewPaidPlan env)"

definition hasInsecurePasswords :: "Lib \<Rightarrow> ViewModel \<Rightarrow> bool" where
  "hasInsecurePasswords lib v =
     (if \<not> isConfidential v then False
      else if eventType v = INVITE then False
      else modelHasInsecurePasswords lib (inviteModel v) \<or>
           modelHasInsecurePasswords lib (updateModel v) \<or>
           modelHasInsecurePasswords lib (cancelModel v))"

definition containsExternalRecipients :: "Lib \<Rightarrow> ViewModel \<Rightarrow> bool" where
  "containsExternalRecipients lib v =
     (modelContainsExternalRecipients lib (inviteModel v) \<or>
      modelContainsExternalRecipients lib (updateModel v) \<or>
      modelContainsExternalRecipients lib (cancelModel v))"

text \<open>
  \<^verbatim>\<open>_sendInvite\<close>. After the invite is sent, the attendees that were newly added are set
  to needs-action, in the ledger and in the event object itself: the promise yields the
  event as the later steps of the chain see it.
\<close>

definition sendInvite :: "Env \<Rightarrow> CalendarEvent \<Rightarrow> CalendarEvent Promise" where
  "sendInvite env event st =
     (let newAttendees = filter (\<lambda>a. att_status a = ADDED) (ev_attendees event)
      in if length newAttendees > 0 then
           thenP (call (SendInvite event (inviteModel (vm st))) (sendInviteResult env))
             (\<lambda>_ st1.
                (Inr (event\<lparr>ev_attendees :=
                        map (\<lambda>a. if att_status a = ADDED then a\<lparr>att_status := NEEDS_ACTION\<rparr> else a)
                          (ev_attendees event)\<rparr>),
                 st1\<lparr>vm := (vm st1)\<lparr>guestStatuses :=
                        foldl (\<lambda>m a. m(address (att_address a) \<mapsto> NEEDS_ACTION))
                          (guestStatuses (vm st1)) newAttendees\<rparr>\<rparr>))
             st
         else resolve event st)"

text \<open>
  The promise \<^verbatim>\<open>p\<close> of \<^verbatim>\<open>_sendNotificationAndSave\<close>: the invite, then the cancellation, then
  the event is saved, then the update.
\<close>

definition dispatchChain ::
  "Env \<Rightarrow> UpdateResponse \<Rightarrow> CalendarEvent \<Rightarrow> AlarmInfo list \<Rightarrow> bool Promise" where
  "dispatchChain env updateResponse newEvent newAlarms =
     thenP (sendInvite env newEvent)
       (\<lambda>event.
          thenP
            (thenP
               (thenP
                  (\<lambda>st. if length (bccRecipients (cancelModel (vm st))) > 0
                        then call (SendCancellation event (cancelModel (vm st)))
                               (sendCancellationResult env) st
                        else resolve () st)
                  (\<lambda>_. saveEvent env event newAlarms))
               (\<lambda>_ st. if updateResponse = Yes
                       then call (SendUpdate event (updateModel (vm st))) (sendUpdateResult env) st
                       else resolve () st))
            (\<lambda>_. resolve True))"

definition sendNotificationAndSave ::
  "Lib \<Rightarrow> Env \<Rightarrow> CalendarEvent \<Rightarrow> AlarmInfo list \<Rightarrow> bool Promise" where
  "sendNotificationAndSave lib env newEvent newAlarms st =
     (let askForUpdatesAwait =
            (if hasUpdatableAttendees (vm st) then
               (if isForceUpdates (vm st) then resolve Yes
                else ask AskForUpdates (askForUpdatesAnswer env))
             else resolve No);
          passwordCheck =
            (\<lambda>st1. if hasInsecurePasswords lib (vm st1) \<and> containsExternalRecipients lib (vm st1)
                   then ask AskInsecurePassword (askInsecurePasswordAnswer env) st1
                   else resolve True st1)
      in thenP askForUpdatesAwait
           (\<lambda>updateResponse st1.
              if updateResponse = Cancel then resolve False st1
              else if shouldShowSendInviteNotAvailable env (vm st1) \<and>
                      (updateResponse = Yes \<or>
                       length (bccRecipients (inviteModel (vm st1))) > 0 \<or>
                       length (bccRecipients (cancelModel (vm st1))) > 0)
              then reject (BusinessFeatureRequiredError ''businessFeatureRequiredInvite_msg'') st1
              else
                thenP (\<lambda>st2. if length (bccRecipients (inviteModel (vm st2))) > 0
                             then passwordCheck st2 else resolve True st2)
                  (\<lambda>passwordCheckPassed.
                     if \<not> passwordCheckPassed then resolve False
                     else dispatchChain env updateResponse newEvent newAlarms)
                  st1)
           st)"

text \<open>
  Replaces the status of the first attendee that \<^verbatim>\<open>findAttendeeInAddresses\<close> returns:
  \<^verbatim>\<open>ownAttendee.status = ...\<close> writes into the attendee object of the existing event.
\<close>

fun setFirstStatus ::
  "(CalendarEventAttendee \<Rightarrow> bool) \<Rightarrow> CalendarAttendeeStatus \<Rightarrow> CalendarEventAttendee list \<Rightarrow>
   CalendarEventAttendee list" where
  "setFirstStatus p s [] = []"
| "setFirstStatus p s (a # as) =
     (if p a then a\<lparr>att_status := s\<rparr> # as else a # setFirstStatus p s as)"

text \<open>
  \<^verbatim>\<open>_respondToOrganizerAndSave\<close>. The existing event passed in is the one of the view model.
  \<^verbatim>\<open>assertNotNull\<close> throws when the ledger has no status for the own attendee, or the
  existing event no organizer.
\<close>

definition respondToOrganizerAndSave ::
  "Lib \<Rightarrow> Env \<Rightarrow> CalendarEvent \<Rightarrow> CalendarEvent \<Rightarrow> AlarmInfo list \<Rightarrow> bool Promise" where
  "respondToOrganizerAndSave lib env existing newEvent newAlarms st =
     (let own = findAttendeeInAddresses lib (\<lambda>a. address (att_address a)) (ev_attendees existing)
                  (ownMailAddresses (vm st));
          selectedOwnAttendeeStatus =
            (case own of
               Some a \<Rightarrow> guestStatuses (vm st) (address (att_address a))
             | None \<Rightarrow> None)
      in case own of
           Some a \<Rightarrow>
             if selectedOwnAttendeeStatus \<noteq> Some NEEDS_ACTION \<and>
                Some (att_status a) \<noteq> selectedOwnAttendeeStatus
             then
               (case selectedOwnAttendeeStatus of
                  None \<Rightarrow> reject (ProgrammingError ''assertNotNull'') st
                | Some status \<Rightarrow>
                    (let existing1 = existing\<lparr>ev_attendees :=
                             setFirstStatus
                               (\<lambda>b. cleanMailAddress lib (address (att_address b)) \<in>
                                      set (map (cleanMailAddress lib) (ownMailAddresses (vm st))))
                               status (ev_attendees existing)\<rparr>;
                         st1 = st\<lparr>vm := (vm st)\<lparr>existingEvent := Some existing1\<rparr>\<rparr>;
                         sendResponseModel = sendModelFactory (vm st1)
                     in case ev_organizer existing1 of
                          None \<Rightarrow> reject (ProgrammingError ''assertNotNull'') st1
                        | Some org \<Rightarrow>
                            (let sendResponseModel1 = sendResponseModel\<lparr>toRecipients :=
                                     toRecipients sendResponseModel @
                                       [\<lparr>rcp_name = name org, rcp_address = address org,
                                         rcp_type = RT_UNKNOWN\<rparr>]\<rparr>
                             in thenP
                                  (thenP
                                     (thenP
                                        (call (SendResponse newEvent sendResponseModel1
                                                 (address (att_address a)) (responseTo (vm st1)) status)
                                           (sendResponseResult env))
                                        (\<lambda>_. call (DisposeModel sendResponseModel1) (disposeResult env)))
                                     (\<lambda>_. saveEvent env newEvent newAlarms))
                                  (\<lambda>_. resolve True)
                                  st1)))
             else thenP (saveEvent env newEvent newAlarms) (\<lambda>_. resolve True) st
         | None \<Rightarrow> thenP (saveEvent env newEvent newAlarms) (\<lambda>_. resolve True) st)"

text \<open>
  The body of \<^verbatim>\<open>saveAndSend\<close> that runs under the guard. The view model is taken as
  initialized.
\<close>

definition saveAndSendBody :: "Lib \<Rightarrow> Env \<Rightarrow> bool Promise" where
  "saveAndSendBody lib env =
     thenP (call WaitForResolvedRecipients (resolveResult env))
       (\<lambda>_ st.
          case initializeNewEvent lib env (vm st) of
            Inl e \<Rightarrow> reject e st
          | Inr newEvent \<Rightarrow>
              (let newAlarms = alarms (vm st)
               in if eventType (vm st) = OWN \<and>
                     (isForceUpdates (vm st) \<or> hasChanges lib (existingEvent (vm st)) newEvent)
                  then sendNotificationAndSave lib env newEvent newAlarms st
                  else if eventType (vm st) = INVITE then
                    (case existingEvent (vm st) of
                       None \<Rightarrow> reject (ProgrammingError ''assertNotNull'') st
                     | Some ex \<Rightarrow> respondToOrganizerAndSave lib env ex newEvent newAlarms st)
                  else thenP (saveEvent env newEvent newAlarms) (\<lambda>_. resolve True) st))"

text \<open>
  \<^verbatim>\<open>saveAndSend\<close>. A call runs in one piece as far as the \<^verbatim>\<open>return\<close>: the flag is tested, and
  either the settled promise of \<^verbatim>\<open>false\<close> is returned, or the flag is set and the promise
  chain is returned, the body with its \<^verbatim>\<open>catch\<close> and its \<^verbatim>\<open>finally\<close>. The callbacks of the
  chain run later, and other calls may begin before they have run. \<open>saveAndSendEnter\<close> is
  that first piece: the promise returned and the state in which the call leaves the view
  model. \<open>saveAndSend\<close> is a call whose promise runs with nothing in between.
\<close>

definition saveAndSendEnter :: "Lib \<Rightarrow> Env \<Rightarrow> State \<Rightarrow> bool Promise \<times> State" where
  "saveAndSendEnter lib env st =
     (if processing (vm st) then (resolve False, st)
      else
        (finallyP
           (catchPayloadTooLarge (thenP (resolve ()) (\<lambda>_. saveAndSendBody lib env)))
           (\<lambda>st1. st1\<lparr>vm := (vm st1)\<lparr>processing := False\<rparr>\<rparr>),
         st\<lparr>vm := (vm st)\<lparr>processing := True\<rparr>\<rparr>))"

definition saveAndSend :: "Lib \<Rightarrow> Env \<Rightarrow> bool Promise" where
  "saveAndSend lib env st = (case saveAndSendEnter lib env st of (p, st1) \<Rightarrow> p st1)"

text \<open>
  Two calls of \<^verbatim>\<open>saveAndSend\<close> made one after the other before any promise has run, as
  when the save button is hit twice: both calls are entered, then the promise of the first
  runs, then the promise of the second. The result holds the outcome of the first call,
  the outcome of the second, and the state at the end.
\<close>

definition twoCalls ::
  "Lib \<Rightarrow> Env \<Rightarrow> Env \<Rightarrow> State \<Rightarrow> (Error + bool) \<times> (Error + bool) \<times> State" where
  "twoCalls lib env1 env2 st =
     (case saveAndSendEnter lib env1 st of
        (p1, st1) \<Rightarrow>
          (case saveAndSendEnter lib env2 st1 of
             (p2, st2) \<Rightarrow>
               (case p1 st2 of
                  (r1, st3) \<Rightarrow> (case p2 st3 of (r2, st4) \<Rightarrow> (r1, r2, st4)))))"

section \<open>Excluding an occurrence\<close>

text \<open>\<^verbatim>\<open>Array.prototype.findIndex\<close>; \<open>None\<close> stands for the index -1.\<close>

fun findIndex :: "('a \<Rightarrow> bool) \<Rightarrow> 'a list \<Rightarrow> nat option" where
  "findIndex p [] = None"
| "findIndex p (x # xs) = (if p x then Some 0 else map_option Suc (findIndex p xs))"

text \<open>
  The insertion of \<^verbatim>\<open>excludeThisOccurrence\<close>: \<^verbatim>\<open>push\<close> when no exclusion is at or after the
  time to insert, \<^verbatim>\<open>splice(insertionIndex, 0, \<dots>)\<close> otherwise.
\<close>

definition insertExclusion :: "int \<Rightarrow> int list \<Rightarrow> int list" where
  "insertExclusion timeToInsert dates =
     (case findIndex (\<lambda>d. d \<ge> timeToInsert) dates of
        None \<Rightarrow> dates @ [timeToInsert]
      | Some insertionIndex \<Rightarrow>
          take insertionIndex dates @ [timeToInsert] @ drop insertionIndex dates)"

text \<open>
  \<^verbatim>\<open>excludeThisOccurrence\<close>. The root event is loaded when the existing event has a repeat
  rule; the changes are made on a deep copy of it.
\<close>

definition excludeThisOccurrence :: "Env \<Rightarrow> unit Promise" where
  "excludeThisOccurrence env st =
     (case existingEvent (vm st) of
        None \<Rightarrow> resolve () st
      | Some ex \<Rightarrow>
          (case selectedCalendar (vm st) of
             None \<Rightarrow> resolve () st
           | Some _ \<Rightarrow>
               thenP
                 (\<lambda>st1. if ev_repeatRule ex \<noteq> None then
                           (case loadResult env of
                              Inl e \<Rightarrow> (Inl e, st1\<lparr>trace := trace st1 @ [LoadEvent (ev_id ex)]\<rparr>)
                            | Inr loaded \<Rightarrow>
                                (Inr loaded, st1\<lparr>trace := trace st1 @ [LoadEvent (ev_id ex)]\<rparr>))
                         else resolve (Some ex) st1)
                 (\<lambda>originalEvent st1.
                    case originalEvent of
                      None \<Rightarrow> resolve () st1
                    | Some orig \<Rightarrow>
                        (case ev_repeatRule orig of
                           None \<Rightarrow> resolve () st1
                         | Some rule \<Rightarrow>
                             (let event = orig\<lparr>ev_repeatRule :=
                                     Some (rule\<lparr>rr_excludedDates :=
                                       insertExclusion (ev_startTime ex) (rr_excludedDates rule)\<rparr>)\<rparr>
                              in case ev_ownerGroup ex of
                                   None \<Rightarrow>
                                     reject (ProgrammingError
                                       ''tried to add exclusion on event without ownerGroup'') st1
                                 | Some g \<Rightarrow>
                                     (case calendars (vm st1) g of
                                        None \<Rightarrow> resolve () st1
                                      | Some calendarForEvent \<Rightarrow>
                                          call (UpdateEvent event (alarms (vm st1)) (zone (vm st1))
                                                  (groupRoot calendarForEvent) ex)
                                            (updateEventResult env) st1))))
                 st))"

section \<open>Sample inputs\<close>

text \<open>
  A stand-in for the library functions, with a simplified calendar in UTC (days of 86400000
  milliseconds, years of equal length), for evaluating the model on concrete inputs.
\<close>

definition sampleLib :: Lib where
  "sampleLib =
     \<lparr>getSenderName = (\<lambda>a. if a = ''me@tutanota.com'' then Some ''Me'' else None),
      cleanMailAddress = (\<lambda>a. a),
      hasCapabilityOnGroup = (\<lambda>u g c. g = ''rwGroup''),
      getFullYear = (\<lambda>d. 1970 + d div 31556952000),
      setFullYear = (\<lambda>d y. d mod 31556952000 + (y - 1970) * 31556952000),
      getDiffInDays = (\<lambda>a b. (b - a) div 86400000),
      plusDays = (\<lambda>z d n. d + n * 86400000),
      setTimeOfDay = (\<lambda>z d h m. d - d mod 86400000 + h * 3600000 + m * 60000),
      getAllDayDateUTCFromZone = (\<lambda>d z. d - d mod 86400000),
      getStartOfNextDayWithZone = (\<lambda>d z. d - d mod 86400000 + 86400000),
      getEventStart = (\<lambda>e z. ev_startTime e),
      incrementSequence = (\<lambda>q forced. q @ ''+''),
      generateUid = (\<lambda>g t. g),
      numberToString = (\<lambda>n. if n = 1 then ''1'' else ''n''),
      createCalendarEvent =
        \<lparr>ev_id = None, ev_ownerGroup = None, ev_summary = [], ev_description = [],
         ev_location = [], ev_startTime = 0, ev_endTime = 0, ev_sequence = ''0'', ev_uid = None,
         ev_invitedConfidentially = None, ev_organizer = None, ev_repeatRule = None,
         ev_attendees = []\<rparr>,
      createRepeatRuleWithValues =
        (\<lambda>f i. \<lparr>rr_id = [], rr_endType = Never, rr_endValue = None, rr_frequency = f,
                 rr_interval = (if i = 1 then ''1'' else ''n''), rr_timeZone = ''UTC'',
                 rr_excludedDates = []\<rparr>),
      checkEventValidity =
        (\<lambda>e. if ev_endTime e \<le> ev_startTime e then InvalidEndBeforeStart
             else if ev_startTime e < 0 then InvalidPre1970 else Valid),
      modelHasInsecurePasswords = (\<lambda>m. False),
      modelContainsExternalRecipients = (\<lambda>m. True)\<rparr>"

definition sampleUser :: User where
  "sampleUser = \<lparr>userId = ''user'', accountType = PREMIUM\<rparr>"

definition otherAddress :: EncryptedMailAddress where
  "otherAddress = \<lparr>name = ''Other'', address = ''other@x.com''\<rparr>"

definition guestAddress :: EncryptedMailAddress where
  "guestAddress = \<lparr>name = ''Guest'', address = ''guest@x.com''\<rparr>"

definition sampleEvent :: CalendarEvent where
  "sampleEvent =
     \<lparr>ev_id = Some (''listId'', ''eventId''), ev_ownerGroup = Some ''rwGroup'',
      ev_summary = ''s'', ev_description = ''d'', ev_location = ''l'',
      ev_startTime = 1000, ev_endTime = 2000, ev_sequence = ''1'', ev_uid = Some ''MyUid'',
      ev_invitedConfidentially = Some True, ev_organizer = Some otherAddress,
      ev_repeatRule = None,
      ev_attendees =
        [\<lparr>att_address = otherAddress, att_status = ACCEPTED\<rparr>,
         \<lparr>att_address = guestAddress, att_status = NEEDS_ACTION\<rparr>]\<rparr>"

definition sampleCalendars :: "Id \<rightharpoonup> CalendarInfo" where
  "sampleCalendars =
     [''rwGroup'' \<mapsto> \<lparr>group = ''rwGroup'', groupRoot = ''rwRoot'', shared = True\<rparr>,
      ''ownGroup'' \<mapsto> \<lparr>group = ''ownGroup'', groupRoot = ''ownRoot'', shared = False\<rparr>]"

definition meAddress :: EncryptedMailAddress where
  "meAddress = \<lparr>name = ''Me'', address = ''me@tutanota.com''\<rparr>"

definition sampleModel :: SendMailModel where
  "sampleModel =
     \<lparr>bccRecipients = [], toRecipients = [], confidential = False,
      sender = ''me@tutanota.com'', senderName = ''Me''\<rparr>"

text \<open>The draft of a new event in the user's own calendar.\<close>

definition sampleVm :: ViewModel where
  "sampleVm =
     \<lparr>summary = ''s'',
      selectedCalendar = Some \<lparr>group = ''ownGroup'', groupRoot = ''ownRoot'', shared = False\<rparr>,
      startDate = 1641600000000, endDate = 1641686400000,
      startTime = Some \<lparr>hours = 10, minutes = 0\<rparr>, endTime = Some \<lparr>hours = 11, minutes = 0\<rparr>,
      allDay = False, repeat = None, calendars = sampleCalendars,
      organizer = Some meAddress, possibleOrganizers = [meAddress],
      location = [], vm_note = [], existingEvent = None, zone = ''UTC'', alarms = [],
      user = sampleUser, eventType = OWN,
      inviteModel = sampleModel, updateModel = sampleModel, cancelModel = sampleModel,
      sendModelFactory = sampleModel,
      ownMailAddresses = [''me@tutanota.com''], guestStatuses = Map.empty,
      ownAttendee = None, responseTo = None, processing = False,
      hasBusinessFeature = True, isForceUpdates = False\<rparr>"

definition sampleRepeat :: RepeatData where
  "sampleRepeat =
     \<lparr>frequency = DAILY, interval = 1, endType = Never, endValue = 1,
      excludedDates = [1641772800000]\<rparr>"

definition sampleEnv :: Env where
  "sampleEnv =
     \<lparr>askForUpdatesAnswer = Yes, askInsecurePasswordAnswer = True, isNewPaidPlan = False,
      resolveResult = None, sendInviteResult = None, sendCancellationResult = None,
      sendUpdateResult = None, sendResponseResult = None, disposeResult = None,
      createEventResult = None, updateEventResult = None, loadResult = Inr None,
      thisYear = 2023, oneMonthFromNow = 1644278400000, nowMillis = 1641600000000\<rparr>"

text \<open>A daily series with one exclusion, and a later instance of it.\<close>

definition sampleRule :: CalendarRepeatRule where
  "sampleRule = \<lparr>rr_id = ''rule'', rr_endType = Never, rr_endValue = None, rr_frequency = DAILY,
     rr_interval = ''1'', rr_timeZone = ''UTC'', rr_excludedDates = [1678579200000]\<rparr>"

definition sampleSeries :: CalendarEvent where
  "sampleSeries = sampleEvent\<lparr>ev_ownerGroup := Some ''ownGroup'', ev_startTime := 1678492800000,
     ev_endTime := 1678496400000, ev_repeatRule := Some sampleRule\<rparr>"

definition sampleInstance :: CalendarEvent where
  "sampleInstance = sampleSeries\<lparr>ev_startTime := 1678665600000, ev_endTime := 1678669200000\<rparr>"

section \<open>State relations kept by a promise\<close>

text \<open>
  \<open>keeps R p\<close>: whatever the outcome of \<open>p\<close>, the state after it is related by \<open>R\<close> to
  the state before.
\<close>

definition keeps :: "(State \<Rightarrow> State \<Rightarrow> bool) \<Rightarrow> 'a Promise \<Rightarrow> bool" where
  "keeps R p = (\<forall>st. R st (snd (p st)))"

definition isPersistence :: "Effect \<Rightarrow> bool" where
  "isPersistence eff =
     (case eff of CreateEvent _ _ _ _ \<Rightarrow> True | UpdateEvent _ _ _ _ _ \<Rightarrow> True | _ \<Rightarrow> False)"

text \<open>
  The relation between the states before and after a step of saving and sending: the
  single-flight flag and the user are the same, the trace has only grown, and for an
  external user no call of the calendar store has been added to it.
\<close>

definition sameGuardNoStore :: "State \<Rightarrow> State \<Rightarrow> bool" where
  "sameGuardNoStore st st1 =
     (processing (vm st1) = processing (vm st) \<and>
      user (vm st1) = user (vm st) \<and>
      prefix (trace st) (trace st1) \<and>
      (accountType (user (vm st)) = EXTERNAL \<longrightarrow>
         filter isPersistence (trace st1) = filter isPersistence (trace st)))"

text \<open>
  The call of the calendar store that \<^verbatim>\<open>_saveEvent\<close> makes for a view model: none for an
  external user (and none when no calendar is selected, where it throws), else the creation
  of the event, or its update when the existing event has an identity.
\<close>

definition saveCall :: "ViewModel \<Rightarrow> CalendarEvent \<Rightarrow> AlarmInfo list \<Rightarrow> Effect list" where
  "saveCall v newEvent newAlarms =
     (if accountType (user v) = EXTERNAL then []
      else
        (case selectedCalendar v of
           None \<Rightarrow> []
         | Some c \<Rightarrow>
             (case existingEvent v of
                None \<Rightarrow> [CreateEvent newEvent newAlarms (zone v) (groupRoot c)]
              | Some ex \<Rightarrow>
                  if ev_id ex = None then [CreateEvent newEvent newAlarms (zone v) (groupRoot c)]
                  else [UpdateEvent newEvent newAlarms (zone v) (groupRoot c) ex])))"

text \<open>
  An invitation received from another user, not yet stored in a calendar, and the view
  model opened on it by an external user who has chosen to accept.
\<close>

definition inviteEvent :: CalendarEvent where
  "inviteEvent =
     sampleEvent\<lparr>ev_id := None, ev_ownerGroup := None,
       ev_attendees :=
         [\<lparr>att_address = otherAddress, att_status = ACCEPTED\<rparr>,
          \<lparr>att_address = meAddress, att_status = NEEDS_ACTION\<rparr>]\<rparr>"

definition inviteVm :: ViewModel where
  "inviteVm =
     sampleVm\<lparr>existingEvent := Some inviteEvent, eventType := INVITE,
       organizer := Some otherAddress, possibleOrganizers := [otherAddress],
       user := \<lparr>userId = ''external'', accountType = EXTERNAL\<rparr>,
       updateModel := sampleModel\<lparr>bccRecipients :=
         [\<lparr>rcp_name = ''Other'', rcp_address = ''other@x.com'', rcp_type = RT_UNKNOWN\<rparr>]\<rparr>,
       ownAttendee := Some meAddress,
       guestStatuses := [''other@x.com'' \<mapsto> ACCEPTED, ''me@tutanota.com'' \<mapsto> ACCEPTED]\<rparr>"

text \<open>The outcome of the save step, as the environment lets the calendar store answer.\<close>

definition saveOutcome :: "Env \<Rightarrow> ViewModel \<Rightarrow> Error + unit" where
  "saveOutcome env v =
     (if accountType (user v) = EXTERNAL then Inr ()
      else case selectedCalendar v of
             None \<Rightarrow> Inl (ProgrammingError ''assertNotNull'')
           | Some c \<Rightarrow>
               (case (if (case existingEvent v of None \<Rightarrow> True | Some ex \<Rightarrow> ev_id ex = None)
                      then createEventResult env else updateEventResult env) of
                  Some err \<Rightarrow> Inl err | None \<Rightarrow> Inr ()))"

text \<open>
  The one-off roster of a response: the roster of the factory, addressed to the organizer.
\<close>

definition responseRoster :: "ViewModel \<Rightarrow> EncryptedMailAddress \<Rightarrow> SendMailModel" where
  "responseRoster v org =
     (sendModelFactory v)\<lparr>toRecipients := toRecipients (sendModelFactory v) @
        [\<lparr>rcp_name = name org, rcp_address = address org, rcp_type = RT_UNKNOWN\<rparr>]\<rparr>"

definition isResponse :: "Effect \<Rightarrow> bool" where
  "isResponse eff = (case eff of SendResponse _ _ _ _ _ \<Rightarrow> True | _ \<Rightarrow> False)"

text \<open>
  The view model after \<^verbatim>\<open>_respondToOrganizerAndSave\<close> has written the desired status into
  the editor's attendee of the existing event.
\<close>

definition withOwnStatus ::
  "Lib \<Rightarrow> CalendarEvent \<Rightarrow> CalendarAttendeeStatus \<Rightarrow> ViewModel \<Rightarrow> ViewModel" where
  "withOwnStatus lib ex status v =
     v\<lparr>existingEvent := Some (ex\<lparr>ev_attendees :=
         setFirstStatus
           (\<lambda>b. cleanMailAddress lib (address (att_address b)) \<in>
                  set (map (cleanMailAddress lib) (ownMailAddresses v)))
           status (ev_attendees ex)\<rparr>)\<rparr>"

section \<open>The order of dispatch as the specification words it\<close>

text \<open>The event after the invite has been sent: who was newly added now needs to act.\<close>

definition flipAdded :: "CalendarEvent \<Rightarrow> CalendarEvent" where
  "flipAdded event =
     event\<lparr>ev_attendees :=
       map (\<lambda>a. if att_status a = ADDED then a\<lparr>att_status := NEEDS_ACTION\<rparr> else a)
         (ev_attendees event)\<rparr>"

text \<open>
  Invite, cancel, persist, update: the invite when an attendee of the event is newly added,
  the cancellation when the cancel roster is not empty, the save, and the update when the
  answer was yes.
\<close>

definition dispatchOrder ::
  "UpdateResponse \<Rightarrow> CalendarEvent \<Rightarrow> AlarmInfo list \<Rightarrow> ViewModel \<Rightarrow> Effect list" where
  "dispatchOrder u newEvent newAlarms v =
     (if \<exists>a \<in> set (ev_attendees newEvent). att_status a = ADDED
      then [SendInvite newEvent (inviteModel v)] else []) @
     (if bccRecipients (cancelModel v) \<noteq> []
      then [SendCancellation (flipAdded newEvent) (cancelModel v)] else []) @
     saveCall v (flipAdded newEvent) newAlarms @
     (if u = Yes then [SendUpdate (flipAdded newEvent) (updateModel v)] else [])"

text \<open>
  The answer on which \<^verbatim>\<open>_sendNotificationAndSave\<close> goes on: yes without asking when updates
  are forced, the caller's answer otherwise, and no when nobody is on the update roster.
\<close>

definition updateDecision :: "Env \<Rightarrow> ViewModel \<Rightarrow> UpdateResponse" where
  "updateDecision env v =
     (if hasUpdatableAttendees v then
        (if isForceUpdates v then Yes else askForUpdatesAnswer env)
      else No)"

text \<open>
  The draft of the new event after \<^verbatim>\<open>addGuest("x@ex.com")\<close>, and the event materialized
  from it.
\<close>

definition guestVm :: ViewModel where
  "guestVm = addGuest sampleLib ''x@ex.com'' sampleVm"

definition guestEvent :: CalendarEvent where
  "guestEvent =
     \<lparr>ev_id = None, ev_ownerGroup = None, ev_summary = ''s'', ev_description = [],
      ev_location = [], ev_startTime = 1641636000000, ev_endTime = 1641726000000,
      ev_sequence = ''0+'', ev_uid = Some ''ownGroup'', ev_invitedConfidentially = Some False,
      ev_organizer = Some meAddress, ev_repeatRule = None,
      ev_attendees =
        [\<lparr>att_address = meAddress, att_status = ACCEPTED\<rparr>,
         \<lparr>att_address = \<lparr>name = [], address = ''x@ex.com''\<rparr>, att_status = ADDED\<rparr>]\<rparr>"

definition isUpdate :: "Effect \<Rightarrow> bool" where
  "isUpdate eff = (case eff of SendUpdate _ _ \<Rightarrow> True | _ \<Rightarrow> False)"

text \<open>
  The new event with one guest after the editor has declined; and an event of a calendar
  shared with write permission, without attendees, moved to the editor's own calendar.
\<close>

definition declinedVm :: ViewModel where
  "declinedVm = selectGoing sampleLib DECLINED guestVm"

definition sharedEvent :: CalendarEvent where
  "sharedEvent = sampleEvent\<lparr>ev_organizer := None, ev_attendees := []\<rparr>"

definition sharedVm :: ViewModel where
  "sharedVm =
     sampleVm\<lparr>existingEvent := Some sharedEvent, eventType := SHARED_RW,
       organizer := None, possibleOrganizers := []\<rparr>"

text \<open>The attendee that a recipient of the invite roster shows up as.\<close>

definition newGuest :: "string \<Rightarrow> Guest" where
  "newGuest a =
     \<lparr>guest_address = \<lparr>name = [], address = a\<rparr>, guest_type = RT_UNKNOWN, guest_status = ADDED\<rparr>"

definition selfGuest :: "ViewModel \<Rightarrow> Guest" where
  "selfGuest v =
     \<lparr>guest_address = \<lparr>name = senderName (inviteModel v), address = sender (inviteModel v)\<rparr>,
      guest_type = RT_INTERNAL, guest_status = ACCEPTED\<rparr>"

text \<open>
  A second attempt after a failed one: the first \<^verbatim>\<open>saveAndSend\<close> on the draft with the guest
  x sends the invite and then fails to store the event; the user adds the guest y and saves
  again.
\<close>

definition failEnv :: Env where
  "failEnv = sampleEnv\<lparr>createEventResult := Some (OtherError ''offline'')\<rparr>"

definition retryVm :: ViewModel where
  "retryVm =
     addGuest sampleLib ''y@ex.com''
       (vm (snd (saveAndSend sampleLib failEnv \<lparr>vm = guestVm, trace = []\<rparr>)))"

definition retryEvent :: CalendarEvent where
  "retryEvent =
     guestEvent\<lparr>ev_attendees :=
       [\<lparr>att_address = meAddress, att_status = ACCEPTED\<rparr>,
        \<lparr>att_address = \<lparr>name = [], address = ''x@ex.com''\<rparr>, att_status = NEEDS_ACTION\<rparr>,
        \<lparr>att_address = \<lparr>name = [], address = ''y@ex.com''\<rparr>, att_status = ADDED\<rparr>]\<rparr>"

definition retryLedger :: "string \<rightharpoonup> CalendarAttendeeStatus" where
  "retryLedger =
     [''me@tutanota.com'' \<mapsto> ACCEPTED, ''x@ex.com'' \<mapsto> NEEDS_ACTION, ''y@ex.com'' \<mapsto> ADDED]"

definition isInvite :: "Effect \<Rightarrow> bool" where
  "isInvite eff = (case eff of SendInvite _ _ \<Rightarrow> True | _ \<Rightarrow> False)"

text \<open>
  What a run of \<^verbatim>\<open>saveAndSend\<close> has to pass besides the calendar store. \<open>userGoesOn\<close>: in
  \<^verbatim>\<open>_sendNotificationAndSave\<close> the user neither cancels nor refuses to send with insecure
  passwords. \<open>canRespond\<close>: in \<^verbatim>\<open>_respondToOrganizerAndSave\<close> no \<^verbatim>\<open>assertNotNull\<close> throws:
  there is an existing event, and when the editor is among its attendees the ledger has a
  status for the editor, and the event has an organizer when a response is due.
  \<open>responseDue\<close> is the test under which the response is sent. \<open>othersPass\<close> puts them
  together for the materialized event, path by path: on the path of the notifications the
  user goes on, the business feature is not missing, and the invite, the cancellation and
  the update complete where they are sent; on the path of the response it can be given and
  completes, with the disposal of its roster, where it is due; the path that only saves
  asks for nothing.
\<close>

definition userGoesOn :: "Lib \<Rightarrow> Env \<Rightarrow> ViewModel \<Rightarrow> bool" where
  "userGoesOn lib env v =
     (updateDecision env v \<noteq> Cancel \<and>
      (askInsecurePasswordAnswer env \<or>
       \<not> (bccRecipients (inviteModel v) \<noteq> [] \<and> hasInsecurePasswords lib v \<and>
          containsExternalRecipients lib v)))"

definition canRespond :: "Lib \<Rightarrow> ViewModel \<Rightarrow> bool" where
  "canRespond lib v =
     (case existingEvent v of
        None \<Rightarrow> False
      | Some ex \<Rightarrow>
          (case findAttendeeInAddresses lib (\<lambda>a. address (att_address a)) (ev_attendees ex)
                  (ownMailAddresses v) of
             None \<Rightarrow> True
           | Some a \<Rightarrow>
               (case guestStatuses v (address (att_address a)) of
                  None \<Rightarrow> False
                | Some s \<Rightarrow> s = NEEDS_ACTION \<or> s = att_status a \<or> ev_organizer ex \<noteq> None)))"

definition responseDue :: "Lib \<Rightarrow> ViewModel \<Rightarrow> bool" where
  "responseDue lib v =
     (case existingEvent v of
        None \<Rightarrow> False
      | Some ex \<Rightarrow>
          (case findAttendeeInAddresses lib (\<lambda>a. address (att_address a)) (ev_attendees ex)
                  (ownMailAddresses v) of
             None \<Rightarrow> False
           | Some a \<Rightarrow>
               guestStatuses v (address (att_address a)) \<noteq> Some NEEDS_ACTION \<and>
               guestStatuses v (address (att_address a)) \<noteq> Some (att_status a)))"

definition othersPass :: "Lib \<Rightarrow> Env \<Rightarrow> ViewModel \<Rightarrow> CalendarEvent \<Rightarrow> bool" where
  "othersPass lib env v event =
     (if eventType v = OWN \<and> (isForceUpdates v \<or> hasChanges lib (existingEvent v) event) then
        userGoesOn lib env v \<and>
        \<not> (shouldShowSendInviteNotAvailable env v \<and>
           (updateDecision env v = Yes \<or> bccRecipients (inviteModel v) \<noteq> [] \<or>
            bccRecipients (cancelModel v) \<noteq> [])) \<and>
        ((\<exists>a \<in> set (ev_attendees event). att_status a = ADDED) \<longrightarrow> sendInviteResult env = None) \<and>
        (bccRecipients (cancelModel v) \<noteq> [] \<longrightarrow> sendCancellationResult env = None) \<and>
        (updateDecision env v = Yes \<longrightarrow> sendUpdateResult env = None)
      else if eventType v = INVITE then
        canRespond lib v \<and>
        (responseDue lib v \<longrightarrow> sendResponseResult env = None \<and> disposeResult env = None)
      else True)"

text \<open>The event materialized from the view model of the invitation.\<close>

definition respondEvent :: CalendarEvent where
  "respondEvent =
     \<lparr>ev_id = None, ev_ownerGroup = None, ev_summary = ''s'', ev_description = [],
      ev_location = [], ev_startTime = 1641636000000, ev_endTime = 1641726000000,
      ev_sequence = ''1+'', ev_uid = Some ''MyUid'', ev_invitedConfidentially = Some False,
      ev_organizer = Some otherAddress, ev_repeatRule = None,
      ev_attendees =
        [\<lparr>att_address = meAddress, att_status = ACCEPTED\<rparr>,
         \<lparr>att_address = otherAddress, att_status = ACCEPTED\<rparr>]\<rparr>"

text \<open>
  The invitation opened by a user of the service who has chosen to accept, and an
  environment in which the response to the organizer cannot be sent.
\<close>

definition memberVm :: ViewModel where
  "memberVm = inviteVm\<lparr>user := sampleUser\<rparr>"

definition offlineEnv :: Env where
  "offlineEnv = sampleEnv\<lparr>sendResponseResult := Some (OtherError ''offline'')\<rparr>"

definition acceptedInvite :: CalendarEvent where
  "acceptedInvite =
     inviteEvent\<lparr>ev_attendees :=
       [\<lparr>att_address = otherAddress, att_status = ACCEPTED\<rparr>,
        \<lparr>att_address = meAddress, att_status = ACCEPTED\<rparr>]\<rparr>"

text \<open>
  A library whose \<^verbatim>\<open>cleanMailAddress\<close> puts the letters A to Z in lower case, as the
  normalisation of mail addresses does, for inputs that differ from an own address in the
  case of a letter only.
\<close>

definition toLowerCase :: "string \<Rightarrow> string" where
  "toLowerCase =
     map (\<lambda>c. if 65 \<le> (of_char c :: nat) \<and> (of_char c :: nat) \<le> 90
              then (case c of Char b0 b1 b2 b3 b4 b5 b6 b7 \<Rightarrow> Char b0 b1 b2 b3 b4 True b6 b7)
              else c)"

definition caseLib :: Lib where
  "caseLib = sampleLib\<lparr>cleanMailAddress := toLowerCase\<rparr>"

section \<open>Auxiliary lemmas\<close>

lemma saveAndSend_eq:
  "saveAndSend lib env st =
     (if processing (vm st) then resolve False st
      else
        finallyP
          (catchPayloadTooLarge (thenP (resolve ()) (\<lambda>_. saveAndSendBody lib env)))
          (\<lambda>st1. st1\<lparr>vm := (vm st1)\<lparr>processing := False\<rparr>\<rparr>)
          (st\<lparr>vm := (vm st)\<lparr>processing := True\<rparr>\<rparr>))"
  by (simp add: saveAndSend_def saveAndSendEnter_def)

lemma copyMailAddress_id: "copyMailAddress a = a"
  by (simp add: copyMailAddress_def)

lemma areExcludedDatesEqual_iff: "areExcludedDatesEqual e1 e2 \<longleftrightarrow> e1 = e2"
proof -
  have "e1 = e2 \<longleftrightarrow> length e1 = length e2 \<and> (\<forall>i<length e1. e1 ! i = e2 ! i)"
    by (rule list_eq_iff_nth_eq)
  then show ?thesis
    by (auto simp: areExcludedDatesEqual_def list_all_iff)
qed

lemma areRepeatRulesEqual_iff:
  "areRepeatRulesEqual r1 r2 \<longleftrightarrow> map_option ruleFields r1 = map_option ruleFields r2"
  by (cases r1; cases r2)
     (auto simp: areRepeatRulesEqual_def areExcludedDatesEqual_iff ruleFields_def)

lemma removeFirstMatch_None:
  "removeFirstMatch (\<lambda>y. c = k y) ys = None \<longleftrightarrow> c \<notin> k ` set ys"
  by (induction ys) auto

lemma removeFirstMatch_Some:
  "removeFirstMatch (\<lambda>y. c = k y) ys = Some r \<Longrightarrow>
     mset (map k ys) = add_mset c (mset (map k r))"
  by (induction ys arbitrary: r) (auto split: if_splits)

lemma arrayEqualsWithPredicate_mset:
  "arrayEqualsWithPredicate a1 a2 (\<lambda>x y. k x = k y) \<longleftrightarrow> mset (map k a1) = mset (map k a2)"
proof (induction a1 arbitrary: a2)
  case Nil
  then show ?case by auto
next
  case (Cons x a1)
  show ?case
  proof (cases "removeFirstMatch (\<lambda>y. k x = k y) a2")
    case None
    then have "k x \<notin> k ` set a2"
      by (simp add: removeFirstMatch_None)
    then have "k x \<notin># mset (map k a2)"
      by simp
    moreover have "k x \<in># mset (map k (x # a1))"
      by simp
    ultimately have "mset (map k (x # a1)) \<noteq> mset (map k a2)"
      by metis
    with None show ?thesis by simp
  next
    case (Some r)
    from removeFirstMatch_Some [OF Some]
    have "mset (map k a2) = add_mset (k x) (mset (map k r))" .
    with Some Cons.IH [of r] show ?thesis by simp
  qed
qed

lemma attendee_predicate_key:
  "(\<lambda>a1 a2. att_status a1 = att_status a2 \<and>
      cleanMailAddress lib (address (att_address a1)) =
      cleanMailAddress lib (address (att_address a2))) =
   (\<lambda>a1 a2. attendeeKey lib a1 = attendeeKey lib a2)"
  by (auto simp: attendeeKey_def fun_eq_iff)

lemma insertExclusion_Nil: "insertExclusion t [] = [t]"
  by (simp add: insertExclusion_def)

lemma insertExclusion_Cons:
  "insertExclusion t (x # xs) = (if t \<le> x then t # x # xs else x # insertExclusion t xs)"
  by (simp add: insertExclusion_def split: option.split)

lemma insertExclusion_takeWhile:
  "insertExclusion t xs = takeWhile (\<lambda>d. d < t) xs @ [t] @ dropWhile (\<lambda>d. d < t) xs"
  by (induction xs) (auto simp: insertExclusion_Nil insertExclusion_Cons)

lemma set_insertExclusion: "set (insertExclusion t xs) = insert t (set xs)"
  by (induction xs) (auto simp: insertExclusion_Nil insertExclusion_Cons)

lemma sorted_insertExclusion: "sorted xs \<Longrightarrow> sorted (insertExclusion t xs)"
  by (induction xs) (auto simp: insertExclusion_Nil insertExclusion_Cons set_insertExclusion)

lemma keeps_resolve: "reflp R \<Longrightarrow> keeps R (resolve a)"
  by (simp add: keeps_def resolve_def reflp_def)

lemma keeps_reject: "reflp R \<Longrightarrow> keeps R (reject e)"
  by (simp add: keeps_def reject_def reflp_def)

lemma keeps_thenP:
  assumes "transp R" and "keeps R p" and "\<And>a. keeps R (f a)"
  shows "keeps R (thenP p f)"
proof -
  have "R st (snd (thenP p f st))" for st
  proof (cases "p st")
    case (Pair r st1)
    have a: "R st st1" using assms(2) Pair by (auto simp: keeps_def dest: spec [of _ st])
    show ?thesis
    proof (cases r)
      case (Inl e)
      with Pair a show ?thesis by (simp add: thenP_def)
    next
      case (Inr x)
      have "R st1 (snd (f x st1))" using assms(3) by (simp add: keeps_def)
      with a have "R st (snd (f x st1))" using assms(1) by (blast dest: transpD)
      with Pair Inr show ?thesis by (simp add: thenP_def)
    qed
  qed
  then show ?thesis by (simp add: keeps_def)
qed

lemma keeps_cond:
  "keeps R p \<Longrightarrow> keeps R q \<Longrightarrow> keeps R (\<lambda>st. if c st then p st else q st)"
  by (simp add: keeps_def)

lemma keepsD: "keeps R p \<Longrightarrow> R st (snd (p st))"
  by (simp add: keeps_def)

lemma reflp_sameGuardNoStore: "reflp sameGuardNoStore"
  by (simp add: reflp_def sameGuardNoStore_def)

lemma transp_sameGuardNoStore: "transp sameGuardNoStore"
  by (auto simp: transp_def sameGuardNoStore_def)

lemmas keeps_thenP_guard = keeps_thenP [OF transp_sameGuardNoStore]
lemmas keeps_resolve_guard = keeps_resolve [OF reflp_sameGuardNoStore]
lemmas keeps_reject_guard = keeps_reject [OF reflp_sameGuardNoStore]

lemma guard_call:
  "(\<And>st. \<not> isPersistence (eff st)) \<Longrightarrow> keeps sameGuardNoStore (\<lambda>st. call (eff st) outcome st)"
  by (simp add: keeps_def call_def sameGuardNoStore_def)

lemma guard_ask: "\<not> isPersistence eff \<Longrightarrow> keeps sameGuardNoStore (ask eff answer)"
  by (simp add: keeps_def ask_def sameGuardNoStore_def)

lemma guard_saveEvent: "keeps sameGuardNoStore (saveEvent env e al)"
  by (simp add: keeps_def saveEvent_def call_def resolve_def reject_def sameGuardNoStore_def
      split: option.split)

lemma guard_sendInvite: "keeps sameGuardNoStore (sendInvite env e)"
  by (simp add: keeps_def sendInvite_def thenP_def call_def resolve_def sameGuardNoStore_def
      isPersistence_def Let_def split: option.split)

lemma guard_dispatchChain: "keeps sameGuardNoStore (dispatchChain env u e al)"
  unfolding dispatchChain_def
  apply (rule keeps_thenP_guard [OF guard_sendInvite])
  apply (rule keeps_thenP_guard)
   apply (rule keeps_thenP_guard)
    apply (rule keeps_thenP_guard)
     apply (rule keeps_cond [OF guard_call keeps_resolve_guard])
     apply (simp add: isPersistence_def)
    apply (rule guard_saveEvent)
   apply (rule keeps_cond [OF guard_call keeps_resolve_guard])
   apply (simp add: isPersistence_def)
  apply (rule keeps_resolve_guard)
  done

lemma guard_sendNotificationAndSave:
  "keeps sameGuardNoStore (sendNotificationAndSave lib env e al)"
proof -
  have ask1: "keeps sameGuardNoStore
      (if hasUpdatableAttendees (vm st) then
         (if isForceUpdates (vm st) then resolve Yes
          else ask AskForUpdates (askForUpdatesAnswer env))
       else resolve No)" for st
    by (simp add: keeps_resolve_guard guard_ask isPersistence_def)
  have pw: "keeps sameGuardNoStore
      (\<lambda>st1. if hasInsecurePasswords lib (vm st1) \<and> containsExternalRecipients lib (vm st1)
             then ask AskInsecurePassword (askInsecurePasswordAnswer env) st1
             else resolve True st1)"
    by (rule keeps_cond) (simp_all add: keeps_resolve_guard guard_ask isPersistence_def)
  have rest: "keeps sameGuardNoStore
      (\<lambda>st1. if u = Cancel then resolve False st1
         else if shouldShowSendInviteNotAvailable env (vm st1) \<and>
                 (u = Yes \<or> length (bccRecipients (inviteModel (vm st1))) > 0 \<or>
                  length (bccRecipients (cancelModel (vm st1))) > 0)
         then reject (BusinessFeatureRequiredError ''businessFeatureRequiredInvite_msg'') st1
         else
           thenP (\<lambda>st2. if length (bccRecipients (inviteModel (vm st2))) > 0
                   then (\<lambda>st1. if hasInsecurePasswords lib (vm st1) \<and>
                                  containsExternalRecipients lib (vm st1)
                               then ask AskInsecurePassword (askInsecurePasswordAnswer env) st1
                               else resolve True st1) st2
                   else resolve True st2)
             (\<lambda>passwordCheckPassed.
                if \<not> passwordCheckPassed then resolve False
                else dispatchChain env u e al)
             st1)" for u
    apply (rule keeps_cond [OF keeps_resolve_guard])
    apply (rule keeps_cond [OF keeps_reject_guard])
    apply (rule keeps_thenP_guard)
     apply (rule keeps_cond [OF pw keeps_resolve_guard])
    apply (simp add: keeps_resolve_guard guard_dispatchChain)
    done
  have "sameGuardNoStore st (snd (sendNotificationAndSave lib env e al st))" for st
    unfolding sendNotificationAndSave_def Let_def
    by (rule keepsD [OF keeps_thenP_guard [OF ask1 rest]])
  then show ?thesis by (simp add: keeps_def)
qed

lemma guard_respondToOrganizerAndSave:
  "keeps sameGuardNoStore (respondToOrganizerAndSave lib env ex e al)"
proof -
  have save: "keeps sameGuardNoStore (thenP (saveEvent env e al) (\<lambda>_. resolve True))"
    by (rule keeps_thenP_guard [OF guard_saveEvent keeps_resolve_guard])
  have send: "keeps sameGuardNoStore
      (thenP (thenP (thenP (call (SendResponse e m a r s) (sendResponseResult env))
                 (\<lambda>_. call (DisposeModel m) (disposeResult env)))
               (\<lambda>_. saveEvent env e al))
         (\<lambda>_. resolve True))" for m a r s
    apply (rule keeps_thenP_guard)
     apply (rule keeps_thenP_guard)
      apply (rule keeps_thenP_guard)
       apply (rule guard_call [of "\<lambda>_. SendResponse e m a r s", simplified isPersistence_def, simplified])
      apply (rule guard_call [of "\<lambda>_. DisposeModel m", simplified isPersistence_def, simplified])
     apply (rule guard_saveEvent)
    apply (rule keeps_resolve_guard)
    done
  have upd: "sameGuardNoStore st (st\<lparr>vm := (vm st)\<lparr>existingEvent := x\<rparr>\<rparr>)" for st x
    by (simp add: sameGuardNoStore_def)
  have "sameGuardNoStore st (snd (respondToOrganizerAndSave lib env ex e al st))" for st
  proof (cases "findAttendeeInAddresses lib (\<lambda>a. address (att_address a)) (ev_attendees ex)
                  (ownMailAddresses (vm st))")
    case None
    then show ?thesis
      by (simp add: respondToOrganizerAndSave_def keepsD [OF save])
  next
    case own: (Some a)
    show ?thesis
    proof (cases "guestStatuses (vm st) (address (att_address a))")
      case None
      with own show ?thesis
        by (simp add: respondToOrganizerAndSave_def reject_def reflpD [OF reflp_sameGuardNoStore])
    next
      case sel: (Some s)
      show ?thesis
      proof (cases "s \<noteq> NEEDS_ACTION \<and> att_status a \<noteq> s")
        case False
        with own sel show ?thesis
          by (auto simp: respondToOrganizerAndSave_def keepsD [OF save])
      next
        case True
        show ?thesis
        proof (cases "ev_organizer ex")
          case None
          with own sel True show ?thesis
            by (simp add: respondToOrganizerAndSave_def reject_def upd)
        next
          case (Some org)
          with own sel True show ?thesis
            by (simp add: respondToOrganizerAndSave_def Let_def
                transpD [OF transp_sameGuardNoStore upd keepsD [OF send]])
        qed
      qed
    qed
  qed
  then show ?thesis by (simp add: keeps_def)
qed

lemma guard_materialized:
  "sameGuardNoStore st
      (snd (case initializeNewEvent lib env (vm st) of
              Inl e \<Rightarrow> reject e st
            | Inr newEvent \<Rightarrow>
                (let newAlarms = alarms (vm st)
                 in if eventType (vm st) = OWN \<and>
                       (isForceUpdates (vm st) \<or> hasChanges lib (existingEvent (vm st)) newEvent)
                    then sendNotificationAndSave lib env newEvent newAlarms st
                    else if eventType (vm st) = INVITE then
                      (case existingEvent (vm st) of
                         None \<Rightarrow> reject (ProgrammingError ''assertNotNull'') st
                       | Some ex \<Rightarrow> respondToOrganizerAndSave lib env ex newEvent newAlarms st)
                    else thenP (saveEvent env newEvent newAlarms) (\<lambda>_. resolve True) st)))"
proof -
  have save: "keeps sameGuardNoStore (thenP (saveEvent env e al) (\<lambda>_. resolve True))" for e al
    by (rule keeps_thenP_guard [OF guard_saveEvent keeps_resolve_guard])
  show ?thesis
    by (simp add: Let_def reject_def reflpD [OF reflp_sameGuardNoStore] keepsD [OF save]
        keepsD [OF guard_sendNotificationAndSave] keepsD [OF guard_respondToOrganizerAndSave]
        split: sum.split option.split)
qed

lemma guard_saveAndSendBody: "keeps sameGuardNoStore (saveAndSendBody lib env)"
  unfolding saveAndSendBody_def
  apply (rule keeps_thenP_guard)
   apply (rule guard_call [of "\<lambda>_. WaitForResolvedRecipients", simplified isPersistence_def, simplified])
  apply (simp add: keeps_def guard_materialized)
  done


lemma snd_catchPayloadTooLarge: "snd (catchPayloadTooLarge p st) = snd (p st)"
  by (simp add: catchPayloadTooLarge_def split: prod.split sum.split Error.split)

lemma snd_saveAndSend:
  "\<not> processing (vm st) \<Longrightarrow>
     snd (saveAndSend lib env st) =
       (snd (saveAndSendBody lib env (st\<lparr>vm := (vm st)\<lparr>processing := True\<rparr>\<rparr>)))
         \<lparr>vm := (vm (snd (saveAndSendBody lib env (st\<lparr>vm := (vm st)\<lparr>processing := True\<rparr>\<rparr>))))
                 \<lparr>processing := False\<rparr>\<rparr>"
proof -
  assume "\<not> processing (vm st)"
  then have "snd (saveAndSend lib env st) =
      (\<lambda>st1. st1\<lparr>vm := (vm st1)\<lparr>processing := False\<rparr>\<rparr>)
        (snd (catchPayloadTooLarge (thenP (resolve ()) (\<lambda>_. saveAndSendBody lib env))
           (st\<lparr>vm := (vm st)\<lparr>processing := True\<rparr>\<rparr>)))"
    by (simp add: saveAndSend_eq finallyP_def split: prod.split)
  also have "thenP (resolve ()) (\<lambda>_. saveAndSendBody lib env) = saveAndSendBody lib env"
    by (simp add: thenP_def resolve_def fun_eq_iff)
  finally show ?thesis
    by (simp add: snd_catchPayloadTooLarge)
qed

lemma saveEvent_eq:
  "saveEvent env e al st =
     ((if accountType (user (vm st)) = EXTERNAL then Inr ()
       else case selectedCalendar (vm st) of
              None \<Rightarrow> Inl (ProgrammingError ''assertNotNull'')
            | Some c \<Rightarrow>
                (case (if (case existingEvent (vm st) of None \<Rightarrow> True | Some ex \<Rightarrow> ev_id ex = None)
                       then createEventResult env else updateEventResult env) of
                   Some err \<Rightarrow> Inl err | None \<Rightarrow> Inr ())),
      st\<lparr>trace := trace st @ saveCall (vm st) e al\<rparr>)"
  by (simp add: saveEvent_def saveCall_def call_def resolve_def reject_def
      split: option.split)

lemma saveCall_isPersistence: "list_all isPersistence (saveCall v e al)"
  by (simp add: saveCall_def isPersistence_def split: option.split)

lemma saveEvent_outcome:
  "saveEvent env e al st =
     (saveOutcome env (vm st), st\<lparr>trace := trace st @ saveCall (vm st) e al\<rparr>)"
  by (simp add: saveEvent_eq saveOutcome_def)

lemma snd_thenP_resolve: "snd (thenP p (\<lambda>_. resolve b) st) = snd (p st)"
  by (simp add: thenP_def resolve_def split: prod.split sum.split)

lemma saveCall_no_response: "filter isResponse (saveCall v e al) = []"
  by (simp add: saveCall_def isResponse_def split: option.split)

lemma flipAdded_none:
  "filter (\<lambda>a. att_status a = ADDED) (ev_attendees e) = [] \<Longrightarrow> flipAdded e = e"
proof -
  assume "filter (\<lambda>a. att_status a = ADDED) (ev_attendees e) = []"
  then have "\<forall>a \<in> set (ev_attendees e). att_status a \<noteq> ADDED"
    by (simp add: filter_empty_conv)
  then have "map (\<lambda>a. if att_status a = ADDED then a\<lparr>att_status := NEEDS_ACTION\<rparr> else a)
      (ev_attendees e) = ev_attendees e"
    by (simp add: map_idI)
  then show ?thesis by (simp add: flipAdded_def)
qed

lemma saveCall_guestStatuses [simp]: "saveCall (v\<lparr>guestStatuses := g\<rparr>) e al = saveCall v e al"
  by (simp add: saveCall_def split: option.split)

lemma saveOutcome_guestStatuses [simp]: "saveOutcome env (v\<lparr>guestStatuses := g\<rparr>) = saveOutcome env v"
  by (simp add: saveOutcome_def split: option.split)

lemma sendInvite_run:
  "sendInvite env e st =
     (if filter (\<lambda>a. att_status a = ADDED) (ev_attendees e) = [] then (Inr e, st)
      else case sendInviteResult env of
             Some err \<Rightarrow> (Inl err, st\<lparr>trace := trace st @ [SendInvite e (inviteModel (vm st))]\<rparr>)
           | None \<Rightarrow>
               (Inr (flipAdded e),
                st\<lparr>trace := trace st @ [SendInvite e (inviteModel (vm st))],
                   vm := (vm st)\<lparr>guestStatuses :=
                     foldl (\<lambda>m a. m(address (att_address a) \<mapsto> NEEDS_ACTION)) (guestStatuses (vm st))
                       (filter (\<lambda>a. att_status a = ADDED) (ev_attendees e))\<rparr>\<rparr>))"
  by (simp add: sendInvite_def thenP_def call_def resolve_def flipAdded_def Let_def
      split: option.split)

lemma foldl_upd_ledger:
  "foldl (\<lambda>m a. m(k a \<mapsto> s)) m0 xs x = (if x \<in> k ` set xs then Some s else m0 x)"
  by (induction xs arbitrary: m0) auto

text \<open>What follows the invite in the chain, on the event \<open>e\<close> that the invite step yields.\<close>

lemma afterInvite_run:
  "thenP
     (thenP
        (thenP
           (\<lambda>st. if length (bccRecipients (cancelModel (vm st))) > 0
                 then call (SendCancellation e (cancelModel (vm st))) (sendCancellationResult env) st
                 else resolve () st)
           (\<lambda>_. saveEvent env e al))
        (\<lambda>_ st. if u = Yes
                then call (SendUpdate e (updateModel (vm st))) (sendUpdateResult env) st
                else resolve () st))
     (\<lambda>_. resolve True) st =
   (let cancel = (if bccRecipients (cancelModel (vm st)) \<noteq> []
                  then [SendCancellation e (cancelModel (vm st))] else []);
        update = (if u = Yes then [SendUpdate e (updateModel (vm st))] else [])
    in if bccRecipients (cancelModel (vm st)) \<noteq> [] \<and> sendCancellationResult env \<noteq> None
       then (Inl (the (sendCancellationResult env)), st\<lparr>trace := trace st @ cancel\<rparr>)
       else case saveOutcome env (vm st) of
              Inl err \<Rightarrow> (Inl err, st\<lparr>trace := trace st @ cancel @ saveCall (vm st) e al\<rparr>)
            | Inr _ \<Rightarrow>
                if u = Yes \<and> sendUpdateResult env \<noteq> None
                then (Inl (the (sendUpdateResult env)),
                      st\<lparr>trace := trace st @ cancel @ saveCall (vm st) e al @ update\<rparr>)
                else (Inr True, st\<lparr>trace := trace st @ cancel @ saveCall (vm st) e al @ update\<rparr>))"
  by (cases "sendCancellationResult env"; cases "sendUpdateResult env";
      cases "saveOutcome env (vm st)")
    (simp_all add: thenP_def call_def resolve_def saveEvent_outcome Let_def)

lemma thenP_Inr: "p st = (Inr a, st1) \<Longrightarrow> thenP p f st = f a st1"
  by (simp add: thenP_def)

lemma thenP_Inl: "p st = (Inl e, st1) \<Longrightarrow> thenP p f st = (Inl e, st1)"
  by (simp add: thenP_def)

lemma dispatchChain_no_invite:
  assumes "filter (\<lambda>a. att_status a = ADDED) (ev_attendees e) = []"
  shows "dispatchChain env u e al st =
     (let cancel = (if bccRecipients (cancelModel (vm st)) \<noteq> []
                    then [SendCancellation e (cancelModel (vm st))] else []);
          update = (if u = Yes then [SendUpdate e (updateModel (vm st))] else [])
      in if bccRecipients (cancelModel (vm st)) \<noteq> [] \<and> sendCancellationResult env \<noteq> None
         then (Inl (the (sendCancellationResult env)), st\<lparr>trace := trace st @ cancel\<rparr>)
         else case saveOutcome env (vm st) of
                Inl err \<Rightarrow> (Inl err, st\<lparr>trace := trace st @ cancel @ saveCall (vm st) e al\<rparr>)
              | Inr _ \<Rightarrow>
                  if u = Yes \<and> sendUpdateResult env \<noteq> None
                  then (Inl (the (sendUpdateResult env)),
                        st\<lparr>trace := trace st @ cancel @ saveCall (vm st) e al @ update\<rparr>)
                  else (Inr True, st\<lparr>trace := trace st @ cancel @ saveCall (vm st) e al @ update\<rparr>))"
proof -
  have s: "sendInvite env e st = (Inr e, st)"
    using assms by (simp add: sendInvite_run)
  show ?thesis
    unfolding dispatchChain_def by (simp only: thenP_Inr [of "sendInvite env e" st, OF s] afterInvite_run)
qed

lemma dispatchChain_invite_fails:
  assumes "filter (\<lambda>a. att_status a = ADDED) (ev_attendees e) \<noteq> []"
    and "sendInviteResult env = Some err"
  shows "dispatchChain env u e al st =
     (Inl err, st\<lparr>trace := trace st @ [SendInvite e (inviteModel (vm st))]\<rparr>)"
proof -
  have s: "sendInvite env e st =
      (Inl err, st\<lparr>trace := trace st @ [SendInvite e (inviteModel (vm st))]\<rparr>)"
    using assms by (simp add: sendInvite_run)
  show ?thesis
    unfolding dispatchChain_def by (simp only: thenP_Inl [of "sendInvite env e" st, OF s])
qed

lemma dispatchChain_invite_sent:
  assumes "filter (\<lambda>a. att_status a = ADDED) (ev_attendees e) \<noteq> []"
    and "sendInviteResult env = None"
  shows "dispatchChain env u e al st =
     (let v1 = (vm st)\<lparr>guestStatuses :=
                 foldl (\<lambda>m a. m(address (att_address a) \<mapsto> NEEDS_ACTION)) (guestStatuses (vm st))
                   (filter (\<lambda>a. att_status a = ADDED) (ev_attendees e))\<rparr>;
          invite = [SendInvite e (inviteModel (vm st))];
          cancel = (if bccRecipients (cancelModel (vm st)) \<noteq> []
                    then [SendCancellation (flipAdded e) (cancelModel (vm st))] else []);
          save = saveCall (vm st) (flipAdded e) al;
          update = (if u = Yes then [SendUpdate (flipAdded e) (updateModel (vm st))] else [])
      in if bccRecipients (cancelModel (vm st)) \<noteq> [] \<and> sendCancellationResult env \<noteq> None
         then (Inl (the (sendCancellationResult env)),
               \<lparr>vm = v1, trace = trace st @ invite @ cancel\<rparr>)
         else case saveOutcome env (vm st) of
                Inl err \<Rightarrow> (Inl err, \<lparr>vm = v1, trace = trace st @ invite @ cancel @ save\<rparr>)
              | Inr _ \<Rightarrow>
                  if u = Yes \<and> sendUpdateResult env \<noteq> None
                  then (Inl (the (sendUpdateResult env)),
                        \<lparr>vm = v1, trace = trace st @ invite @ cancel @ save @ update\<rparr>)
                  else (Inr True, \<lparr>vm = v1, trace = trace st @ invite @ cancel @ save @ update\<rparr>))"
proof -
  have s: "sendInvite env e st =
      (Inr (flipAdded e),
       st\<lparr>trace := trace st @ [SendInvite e (inviteModel (vm st))],
          vm := (vm st)\<lparr>guestStatuses :=
            foldl (\<lambda>m a. m(address (att_address a) \<mapsto> NEEDS_ACTION)) (guestStatuses (vm st))
              (filter (\<lambda>a. att_status a = ADDED) (ev_attendees e))\<rparr>\<rparr>)"
    using assms by (simp add: sendInvite_run)
  show ?thesis
    unfolding dispatchChain_def
    apply (simp only: thenP_Inr [of "sendInvite env e" st, OF s] afterInvite_run)
    apply (auto simp: Let_def split: sum.split)
    done
qed


lemma dispatchChain_trace:
  "prefix (trace st) (trace (snd (dispatchChain env u e al st)))
   \<and> prefix (trace (snd (dispatchChain env u e al st))) (trace st @ dispatchOrder u e al (vm st))
   \<and> (fst (dispatchChain env u e al st) = Inr True \<longrightarrow>
        trace (snd (dispatchChain env u e al st)) = trace st @ dispatchOrder u e al (vm st))"
proof (cases "filter (\<lambda>a. att_status a = ADDED) (ev_attendees e) = []")
  case True
  then have none: "\<not> (\<exists>a \<in> set (ev_attendees e). att_status a = ADDED)"
    by (simp add: filter_empty_conv)
  show ?thesis
    unfolding dispatchChain_no_invite [OF True] dispatchOrder_def flipAdded_none [OF True]
    using none
    by (cases "saveOutcome env (vm st)") (auto simp: Let_def)
next
  case False
  then have some: "\<exists>a \<in> set (ev_attendees e). att_status a = ADDED"
    by (simp add: filter_empty_conv)
  show ?thesis
  proof (cases "sendInviteResult env")
    case None
    show ?thesis
      unfolding dispatchChain_invite_sent [OF False None] dispatchOrder_def
      using some
      by (cases "saveOutcome env (vm st)") (auto simp: Let_def)
  next
    case (Some err)
    show ?thesis
      unfolding dispatchChain_invite_fails [OF False Some] dispatchOrder_def
      using some by auto
  qed
qed

lemma dispatchChain_ledger:
  "(sendInviteResult env = None \<longrightarrow>
      (\<forall>k. guestStatuses (vm (snd (dispatchChain env u e al st))) k =
         (if k \<in> (\<lambda>a. address (att_address a)) ` {a \<in> set (ev_attendees e). att_status a = ADDED}
          then Some NEEDS_ACTION else guestStatuses (vm st) k)))
   \<and> (sendInviteResult env \<noteq> None \<longrightarrow>
        guestStatuses (vm (snd (dispatchChain env u e al st))) = guestStatuses (vm st))"
proof (cases "filter (\<lambda>a. att_status a = ADDED) (ev_attendees e) = []")
  case True
  then have none: "{a \<in> set (ev_attendees e). att_status a = ADDED} = {}"
    by (auto simp: filter_empty_conv)
  show ?thesis
    unfolding dispatchChain_no_invite [OF True] none
    by (cases "saveOutcome env (vm st)") (auto simp: Let_def)
next
  case False
  show ?thesis
  proof (cases "sendInviteResult env")
    case None
    show ?thesis
      unfolding dispatchChain_invite_sent [OF False None]
      using None
      by (cases "saveOutcome env (vm st)") (auto simp: Let_def foldl_upd_ledger)
  next
    case (Some err)
    show ?thesis
      unfolding dispatchChain_invite_fails [OF False Some]
      using Some by simp
  qed
qed

lemma dispatchChain_success:
  assumes "sendInviteResult env = None" and "sendCancellationResult env = None"
    and "saveOutcome env (vm st) = Inr ()" and "sendUpdateResult env = None"
  shows "fst (dispatchChain env u e al st) = Inr True"
proof (cases "filter (\<lambda>a. att_status a = ADDED) (ev_attendees e) = []")
  case True
  show ?thesis
    unfolding dispatchChain_no_invite [OF True] using assms by (simp add: Let_def)
next
  case False
  show ?thesis
    unfolding dispatchChain_invite_sent [OF False assms(1)] using assms by (simp add: Let_def)
qed

lemma guestVm_eq:
  "guestVm =
     sampleVm\<lparr>inviteModel := sampleModel\<lparr>bccRecipients :=
                 [\<lparr>rcp_name = [], rcp_address = ''x@ex.com'', rcp_type = RT_UNKNOWN\<rparr>]\<rparr>,
       guestStatuses := [''x@ex.com'' \<mapsto> ADDED, ''me@tutanota.com'' \<mapsto> ACCEPTED],
       ownAttendee := Some meAddress\<rparr>"
  by (simp add: guestVm_def addGuest_def sampleVm_def sampleLib_def sampleModel_def attendees_def
      makeGuestList_def findAttendeeInAddresses_def findRecipientWithAddress_def addRecipient_def
      findOwnAttendee_def selectGoing_def canModifyOwnAttendance_def meAddress_def Let_def)

lemma sendNotificationAndSave_run:
  "sendNotificationAndSave lib env e al st =
     (let asks1 = (if hasUpdatableAttendees (vm st) \<and> \<not> isForceUpdates (vm st)
                   then [AskForUpdates] else []);
          u = updateDecision env (vm st);
          needPassword = (bccRecipients (inviteModel (vm st)) \<noteq> [] \<and>
                          hasInsecurePasswords lib (vm st) \<and> containsExternalRecipients lib (vm st));
          asks2 = (if needPassword then [AskInsecurePassword] else [])
      in if u = Cancel then (Inr False, st\<lparr>trace := trace st @ asks1\<rparr>)
         else if shouldShowSendInviteNotAvailable env (vm st) \<and>
                 (u = Yes \<or> bccRecipients (inviteModel (vm st)) \<noteq> [] \<or>
                  bccRecipients (cancelModel (vm st)) \<noteq> [])
         then (Inl (BusinessFeatureRequiredError ''businessFeatureRequiredInvite_msg''),
               st\<lparr>trace := trace st @ asks1\<rparr>)
         else if needPassword \<and> \<not> askInsecurePasswordAnswer env
         then (Inr False, st\<lparr>trace := trace st @ asks1 @ asks2\<rparr>)
         else dispatchChain env u e al (st\<lparr>trace := trace st @ asks1 @ asks2\<rparr>))"
  by (auto simp: sendNotificationAndSave_def thenP_def ask_def resolve_def reject_def Let_def
      updateDecision_def)

lemma isUpdate_dispatchOrder:
  "eff \<in> set (dispatchOrder u e al v) \<Longrightarrow> isUpdate eff \<Longrightarrow> u = Yes"
  by (auto simp: dispatchOrder_def isUpdate_def saveCall_def split: if_splits option.splits)

lemma updates_only_when_agreed:
  assumes "eff \<in> set (drop (length (trace st))
             (trace (snd (sendNotificationAndSave lib env e al st))))"
    and "isUpdate eff"
  shows "hasUpdatableAttendees (vm st) \<and>
         (isForceUpdates (vm st) \<or> askForUpdatesAnswer env = Yes)"
proof -
  let ?asks1 = "if hasUpdatableAttendees (vm st) \<and> \<not> isForceUpdates (vm st)
                then [AskForUpdates] else []"
  let ?asks2 = "if bccRecipients (inviteModel (vm st)) \<noteq> [] \<and>
                   hasInsecurePasswords lib (vm st) \<and> containsExternalRecipients lib (vm st)
                then [AskInsecurePassword] else []"
  let ?u = "updateDecision env (vm st)"
  let ?st2 = "st\<lparr>trace := trace st @ ?asks1 @ ?asks2\<rparr>"
  have asks: "\<not> isUpdate x" if "x \<in> set (?asks1 @ ?asks2)" for x
    using that by (auto simp: isUpdate_def split: if_splits)
  have yes: "?u = Yes \<Longrightarrow> hasUpdatableAttendees (vm st) \<and>
         (isForceUpdates (vm st) \<or> askForUpdatesAnswer env = Yes)"
    by (auto simp: updateDecision_def split: if_splits)
  let ?run = "sendNotificationAndSave lib env e al st"
  have cases3: "trace (snd ?run) = trace st @ ?asks1 \<or>
      trace (snd ?run) = trace st @ ?asks1 @ ?asks2 \<or>
      snd ?run = snd (dispatchChain env ?u e al ?st2)"
  proof (cases "?u = Cancel")
    case True
    then show ?thesis by (simp add: sendNotificationAndSave_run Let_def)
  next
    case notCancel: False
    show ?thesis
    proof (cases "shouldShowSendInviteNotAvailable env (vm st) \<and>
                 (?u = Yes \<or> bccRecipients (inviteModel (vm st)) \<noteq> [] \<or>
                  bccRecipients (cancelModel (vm st)) \<noteq> [])")
      case True
      with notCancel show ?thesis by (simp add: sendNotificationAndSave_run Let_def)
    next
      case allowed: False
      show ?thesis
      proof (cases "(bccRecipients (inviteModel (vm st)) \<noteq> [] \<and>
                     hasInsecurePasswords lib (vm st) \<and> containsExternalRecipients lib (vm st)) \<and>
                    \<not> askInsecurePasswordAnswer env")
        case True
        with notCancel allowed show ?thesis
          by (simp add: sendNotificationAndSave_run Let_def)
      next
        case False
        with notCancel allowed
        have "?run = dispatchChain env ?u e al ?st2"
          by (simp only: sendNotificationAndSave_run Let_def if_False)
        then show ?thesis by simp
      qed
    qed
  qed
  then consider (short) "trace (snd ?run) = trace st @ ?asks1"
    | (pw) "trace (snd ?run) = trace st @ ?asks1 @ ?asks2"
    | (dispatch) "snd ?run = snd (dispatchChain env ?u e al ?st2)"
    by blast
  then show ?thesis
  proof cases
    case short
    with assms asks show ?thesis by auto
  next
    case pw
    with assms asks show ?thesis by auto
  next
    case dispatch
    from dispatchChain_trace [of ?st2 env ?u e al]
    have p1: "prefix (trace ?st2) (trace (snd (dispatchChain env ?u e al ?st2)))"
      and p2: "prefix (trace (snd (dispatchChain env ?u e al ?st2)))
                 (trace ?st2 @ dispatchOrder ?u e al (vm ?st2))"
      by blast+
    from p1 obtain zs where zs: "trace (snd (dispatchChain env ?u e al ?st2)) = trace ?st2 @ zs"
      by (auto simp: prefix_def)
    with p2 have "prefix zs (dispatchOrder ?u e al (vm ?st2))"
      by simp
    then have sub: "set zs \<subseteq> set (dispatchOrder ?u e al (vm ?st2))"
      by (rule set_mono_prefix)
    from assms(1) dispatch zs have "eff \<in> set (?asks1 @ ?asks2) \<union> set zs"
      by simp
    with asks assms(2) sub have "eff \<in> set (dispatchOrder ?u e al (vm ?st2))"
      by blast
    then have "?u = Yes"
      using assms(2) by (rule isUpdate_dispatchOrder)
    with yes show ?thesis by blast
  qed
qed

lemma selectGoing_inviteModel [simp]: "inviteModel (selectGoing lib s v) = inviteModel v"
  by (simp add: selectGoing_def split: option.split)

lemma selectGoing_organizer [simp]: "organizer (selectGoing lib s v) = organizer v"
  by (simp add: selectGoing_def split: option.split)

lemma setOrganizer_inviteModel [simp]: "inviteModel (setOrganizer lib org v) = inviteModel v"
  by (simp add: setOrganizer_def)

lemma setOrganizer_guestStatuses [simp]: "guestStatuses (setOrganizer lib org v) = guestStatuses v"
  by (simp add: setOrganizer_def)

lemma selectGoing_ledger_accepted:
  "guestStatuses v a = Some ACCEPTED \<Longrightarrow> guestStatuses (selectGoing lib ACCEPTED v) a = Some ACCEPTED"
  by (auto simp: selectGoing_def Let_def split: option.split)

lemma canModifyOrganizer_cong:
  "eventType v1 = eventType v \<Longrightarrow> ownMailAddresses v1 = ownMailAddresses v \<Longrightarrow>
   existingEvent v1 = existingEvent v \<Longrightarrow> canModifyOrganizer lib v1 = canModifyOrganizer lib v"
  by (simp add: canModifyOrganizer_def)

lemma attendees_own_member:
  "ownAttendee v = Some own \<Longrightarrow> \<exists>g \<in> set (attendees v). guest_address g = own"
  by (simp add: attendees_def Let_def)

lemma attendees_invite_member:
  "r \<in> set (bccRecipients (inviteModel v)) \<Longrightarrow>
     \<exists>g \<in> set (attendees v). address (guest_address g) = rcp_address r"
proof -
  assume r: "r \<in> set (bccRecipients (inviteModel v))"
  let ?g = "\<lparr>guest_address = \<lparr>name = rcp_name r, address = rcp_address r\<rparr>,
             guest_type = rcp_type r,
             guest_status = (case guestStatuses v (rcp_address r) of
                               Some st \<Rightarrow> st | None \<Rightarrow> NEEDS_ACTION)\<rparr>"
  from r have "?g \<in> set (makeGuestList v (inviteModel v))"
    by (simp add: makeGuestList_def image_iff) blast
  then have "?g \<in> set (attendees v)"
    by (simp add: attendees_def Let_def split: option.split)
  moreover have "address (guest_address ?g) = rcp_address r"
    by simp
  ultimately show ?thesis by blast
qed

lemma notAttendee_iff:
  "findAttendeeInAddresses lib (\<lambda>g. address (guest_address g)) (attendees v) [a] = None \<longleftrightarrow>
     (\<forall>g \<in> set (attendees v). cleanMailAddress lib (address (guest_address g)) \<noteq> cleanMailAddress lib a)"
  by (auto simp: findAttendeeInAddresses_def find_None_iff)

lemma notAttendee_invite:
  assumes "findAttendeeInAddresses lib (\<lambda>g. address (guest_address g)) (attendees v) [a] = None"
  shows "findRecipientWithAddress lib rcp_address (bccRecipients (inviteModel v)) a = None"
proof -
  have "cleanMailAddress lib (rcp_address r) \<noteq> cleanMailAddress lib a"
    if "r \<in> set (bccRecipients (inviteModel v))" for r
    using assms attendees_invite_member [OF that] by (auto simp: notAttendee_iff)
  then show ?thesis
    by (simp add: findRecipientWithAddress_def find_None_iff)
qed

lemma notAttendee_own:
  assumes "findAttendeeInAddresses lib (\<lambda>g. address (guest_address g)) (attendees v) [a] = None"
    and "ownAttendee v = Some own"
  shows "address own \<noteq> a"
  using assms attendees_own_member [OF assms(2)] by (auto simp: notAttendee_iff)

lemma addGuest_own_inviteModel:
  "a \<in> set (ownMailAddresses v) \<Longrightarrow> inviteModel (addGuest lib a v) = inviteModel v"
  by (simp add: addGuest_def Let_def split: option.split)

lemma addGuest_foreign_eq:
  assumes "findAttendeeInAddresses lib (\<lambda>g. address (guest_address g)) (attendees v) [a] = None"
    and "a \<notin> set (ownMailAddresses v)" and "guestStatuses v a = None"
  shows "addGuest lib a v =
     (let v3 = v\<lparr>inviteModel := (inviteModel v)\<lparr>bccRecipients := bccRecipients (inviteModel v) @
                     [\<lparr>rcp_name = [], rcp_address = a, rcp_type = RT_UNKNOWN\<rparr>]\<rparr>,
                 guestStatuses := (guestStatuses v)(a \<mapsto> ADDED)\<rparr>
      in if length (attendees v3) = 1 \<and> findOwnAttendee lib v3 = None
         then selectGoing lib ACCEPTED v3 else v3)"
  using assms
  by (simp add: addGuest_def Let_def addRecipient_def notAttendee_invite [OF assms(1)])

lemma addGuest_own_eq:
  assumes "findAttendeeInAddresses lib (\<lambda>g. address (guest_address g)) (attendees v) [a] = None"
    and "a \<in> set (ownMailAddresses v)" and "guestStatuses v a = None"
  shows "addGuest lib a v =
     (let v2 = (case findOwnAttendee lib v of
                  Some own \<Rightarrow> v\<lparr>guestStatuses :=
                                 (guestStatuses v)(address (guest_address own) := None)\<rparr>
                | None \<Rightarrow> v);
          v3 = v2\<lparr>guestStatuses := (guestStatuses v2)(a \<mapsto> ACCEPTED)\<rparr>;
          v4 = (case findRecipientWithAddress lib address (possibleOrganizers v3) a of
                  Some newOrganizer \<Rightarrow> setOrganizer lib newOrganizer v3
                | None \<Rightarrow> v3)
      in if length (attendees v4) = 1 \<and> findOwnAttendee lib v4 = None
         then selectGoing lib ACCEPTED v4 else v4)"
proof -
  have "guestStatuses
      (case findOwnAttendee lib v of
         Some own \<Rightarrow> v\<lparr>guestStatuses := (guestStatuses v)(address (guest_address own) := None)\<rparr>
       | None \<Rightarrow> v) a = None"
    using assms(3) by (simp split: option.split)
  then show ?thesis
    using assms(1,2) by (simp add: addGuest_def Let_def)
qed

lemma addGuest_own_props:
  assumes notAtt: "findAttendeeInAddresses lib (\<lambda>g. address (guest_address g)) (attendees v) [a] = None"
    and own: "a \<in> set (ownMailAddresses v)" and noLedger: "guestStatuses v a = None"
  shows "guestStatuses (addGuest lib a v) a = Some ACCEPTED"
    and "findRecipientWithAddress lib address (possibleOrganizers v) a = None \<Longrightarrow>
           organizer (addGuest lib a v) = organizer v"
    and "findRecipientWithAddress lib address (possibleOrganizers v) a = Some org \<Longrightarrow>
           \<not> canModifyOrganizer lib v \<Longrightarrow> organizer (addGuest lib a v) = organizer v"
    and "findRecipientWithAddress lib address (possibleOrganizers v) a = Some org \<Longrightarrow>
           canModifyOrganizer lib v \<Longrightarrow>
           organizer (addGuest lib a v) = Some org \<and> ownAttendee (addGuest lib a v) = Some org"
proof -
  let ?v2 = "case findOwnAttendee lib v of
               Some own \<Rightarrow> v\<lparr>guestStatuses :=
                              (guestStatuses v)(address (guest_address own) := None)\<rparr>
             | None \<Rightarrow> v"
  let ?v3 = "?v2\<lparr>guestStatuses := (guestStatuses ?v2)(a \<mapsto> ACCEPTED)\<rparr>"
  let ?v4 = "case findRecipientWithAddress lib address (possibleOrganizers ?v3) a of
               Some newOrganizer \<Rightarrow> setOrganizer lib newOrganizer ?v3
             | None \<Rightarrow> ?v3"
  have eq: "addGuest lib a v =
      (if length (attendees ?v4) = 1 \<and> findOwnAttendee lib ?v4 = None
       then selectGoing lib ACCEPTED ?v4 else ?v4)"
    using addGuest_own_eq [OF notAtt own noLedger] by (simp add: Let_def)
  have v3_fields: "possibleOrganizers ?v3 = possibleOrganizers v" "organizer ?v3 = organizer v"
    "eventType ?v3 = eventType v" "ownMailAddresses ?v3 = ownMailAddresses v"
    "existingEvent ?v3 = existingEvent v"
    by (simp_all split: option.split)
  have can: "canModifyOrganizer lib ?v3 = canModifyOrganizer lib v"
    by (rule canModifyOrganizer_cong) (simp_all add: v3_fields)
  have l4: "guestStatuses ?v4 a = Some ACCEPTED"
    by (simp split: option.split)
  show "guestStatuses (addGuest lib a v) a = Some ACCEPTED"
    unfolding eq using l4 by (simp add: selectGoing_ledger_accepted)
  show "organizer (addGuest lib a v) = organizer v"
    if "findRecipientWithAddress lib address (possibleOrganizers v) a = None"
    unfolding eq using that by (simp add: v3_fields)
  show "organizer (addGuest lib a v) = organizer v"
    if "findRecipientWithAddress lib address (possibleOrganizers v) a = Some org"
      "\<not> canModifyOrganizer lib v"
    unfolding eq using that can by (simp add: v3_fields setOrganizer_def)
  show "organizer (addGuest lib a v) = Some org \<and> ownAttendee (addGuest lib a v) = Some org"
    if found: "findRecipientWithAddress lib address (possibleOrganizers v) a = Some org"
      and "canModifyOrganizer lib v"
  proof -
    have v4: "?v4 = ?v3\<lparr>organizer := Some org, ownAttendee := Some org\<rparr>"
      using that can by (simp add: v3_fields setOrganizer_def)
    from found have "cleanMailAddress lib (address org) = cleanMailAddress lib a"
      by (auto simp: findRecipientWithAddress_def find_Some_iff)
    with own have "cleanMailAddress lib (address org) \<in>
        set (map (cleanMailAddress lib) (ownMailAddresses v))"
      by auto
    then have "findOwnAttendee lib (?v3\<lparr>organizer := Some org, ownAttendee := Some org\<rparr>) \<noteq> None"
      by (simp add: findOwnAttendee_def findAttendeeInAddresses_def attendees_def Let_def v3_fields
          split: option.split)
    then have "\<not> (length (attendees ?v4) = 1 \<and> findOwnAttendee lib ?v4 = None)"
      unfolding v4 by blast
    then have "addGuest lib a v = ?v4"
      unfolding eq by (rule if_not_P)
    then have "addGuest lib a v = ?v3\<lparr>organizer := Some org, ownAttendee := Some org\<rparr>"
      unfolding v4 .
    then show ?thesis
      by simp
  qed
qed

lemma attendees_Nil:
  "attendees v = [] \<Longrightarrow>
     ownAttendee v = None \<and> bccRecipients (inviteModel v) = [] \<and> bccRecipients (updateModel v) = []"
  by (cases "ownAttendee v") (simp_all add: attendees_def makeGuestList_def Let_def)

lemma addGuest_foreign_props:
  assumes notAtt: "findAttendeeInAddresses lib (\<lambda>g. address (guest_address g)) (attendees v) [a] = None"
    and foreign: "a \<notin> set (ownMailAddresses v)" and noLedger: "guestStatuses v a = None"
    and sender: "sender (inviteModel v) \<in> set (ownMailAddresses v)"
  shows "bccRecipients (inviteModel (addGuest lib a v)) =
           bccRecipients (inviteModel v) @ [\<lparr>rcp_name = [], rcp_address = a, rcp_type = RT_UNKNOWN\<rparr>]"
    and "guestStatuses (addGuest lib a v) a = Some ADDED"
    and "attendees v = [] \<Longrightarrow>
           cleanMailAddress lib a \<notin> cleanMailAddress lib ` set (ownMailAddresses v) \<Longrightarrow>
           attendees (addGuest lib a v) =
             (if eventType v = OWN then [selfGuest v, newGuest a] else [newGuest a])"
proof -
  let ?v3 = "v\<lparr>inviteModel := (inviteModel v)\<lparr>bccRecipients := bccRecipients (inviteModel v) @
                     [\<lparr>rcp_name = [], rcp_address = a, rcp_type = RT_UNKNOWN\<rparr>]\<rparr>,
                 guestStatuses := (guestStatuses v)(a \<mapsto> ADDED)\<rparr>"
  have eq: "addGuest lib a v =
      (if length (attendees ?v3) = 1 \<and> findOwnAttendee lib ?v3 = None
       then selectGoing lib ACCEPTED ?v3 else ?v3)"
    using addGuest_foreign_eq [OF notAtt foreign noLedger] by (simp add: Let_def)
  from sender foreign have sa: "sender (inviteModel v) \<noteq> a"
    by auto
  show "bccRecipients (inviteModel (addGuest lib a v)) =
           bccRecipients (inviteModel v) @ [\<lparr>rcp_name = [], rcp_address = a, rcp_type = RT_UNKNOWN\<rparr>]"
    unfolding eq by simp
  have keep: "guestStatuses (selectGoing lib ACCEPTED ?v3) a = Some ADDED"
  proof (cases "ownAttendee v")
    case None
    with sa show ?thesis
      by (simp add: selectGoing_def Let_def)
  next
    case (Some own)
    from notAttendee_own [OF notAtt Some] have "address own \<noteq> a" .
    with Some show ?thesis
      by (simp add: selectGoing_def Let_def)
  qed
  show "guestStatuses (addGuest lib a v) a = Some ADDED"
    unfolding eq using keep by simp
  show "attendees (addGuest lib a v) =
          (if eventType v = OWN then [selfGuest v, newGuest a] else [newGuest a])"
    if empty: "attendees v = []"
      and clean: "cleanMailAddress lib a \<notin> cleanMailAddress lib ` set (ownMailAddresses v)"
  proof -
    from attendees_Nil [OF empty]
    have none: "ownAttendee v = None" "bccRecipients (inviteModel v) = []"
      "bccRecipients (updateModel v) = []"
      by simp_all
    have att3: "attendees ?v3 = [newGuest a]"
      by (simp add: attendees_def makeGuestList_def Let_def none newGuest_def)
    have noOwn: "findOwnAttendee lib ?v3 = None"
      using clean by (simp add: findOwnAttendee_def att3 findAttendeeInAddresses_def newGuest_def)
    have eq2: "addGuest lib a v = selectGoing lib ACCEPTED ?v3"
      unfolding eq using att3 noOwn by simp
    show ?thesis
    proof (cases "eventType v = OWN")
      case True
      then have "selectGoing lib ACCEPTED ?v3 =
          ?v3\<lparr>ownAttendee := Some \<lparr>name = senderName (inviteModel ?v3),
                                        address = sender (inviteModel ?v3)\<rparr>,
              guestStatuses := (guestStatuses ?v3)(sender (inviteModel ?v3) \<mapsto> ACCEPTED)\<rparr>"
        by (simp add: selectGoing_def canModifyOwnAttendance_def none Let_def)
      then show ?thesis
        unfolding eq2 using True sa
        by (simp add: attendees_def makeGuestList_def Let_def none newGuest_def selfGuest_def)
    next
      case False
      then have "selectGoing lib ACCEPTED ?v3 = ?v3"
        using noOwn by (simp add: selectGoing_def canModifyOwnAttendance_def)
      then show ?thesis
        unfolding eq2 using False att3 by simp
    qed
  qed
qed

lemma invite_in_dispatchOrder:
  "SendInvite e m \<in> set (dispatchOrder u newEvent newAlarms v) \<Longrightarrow>
     e = newEvent \<and> m = inviteModel v \<and> (\<exists>a \<in> set (ev_attendees newEvent). att_status a = ADDED)"
  by (auto simp: dispatchOrder_def saveCall_def split: if_splits option.splits)

lemma failed_first_attempt:
  "saveAndSend sampleLib failEnv \<lparr>vm = guestVm, trace = []\<rparr> =
      (Inl (OtherError ''offline''),
       \<lparr>vm = guestVm\<lparr>guestStatuses := (guestStatuses guestVm)(''x@ex.com'' \<mapsto> NEEDS_ACTION)\<rparr>,
        trace = [WaitForResolvedRecipients, SendInvite guestEvent (inviteModel guestVm),
                 CreateEvent (flipAdded guestEvent) [] ''UTC'' ''ownRoot'']\<rparr>)"
  by (simp add: saveAndSend_eq saveAndSendBody_def finallyP_def catchPayloadTooLarge_def thenP_def
      resolve_def call_def failEnv_def sampleEnv_def guestVm_eq sampleVm_def initializeNewEvent_def
      sampleLib_def hasChanges_def sendNotificationAndSave_def hasUpdatableAttendees_def
      sampleModel_def shouldShowSendInviteNotAvailable_def sampleUser_def dispatchChain_def
      sendInvite_def attendees_def makeGuestList_def saveEvent_def isConfidential_def
      guestEvent_def flipAdded_def meAddress_def hasInsecurePasswords_def
      containsExternalRecipients_def Let_def)

lemma retryVm_eq:
  "retryVm =
     sampleVm\<lparr>inviteModel := sampleModel\<lparr>bccRecipients :=
                 [\<lparr>rcp_name = [], rcp_address = ''x@ex.com'', rcp_type = RT_UNKNOWN\<rparr>,
                  \<lparr>rcp_name = [], rcp_address = ''y@ex.com'', rcp_type = RT_UNKNOWN\<rparr>]\<rparr>,
       guestStatuses := retryLedger,
       ownAttendee := Some meAddress\<rparr>"
proof -
  let ?v1 = "guestVm\<lparr>guestStatuses := (guestStatuses guestVm)(''x@ex.com'' \<mapsto> NEEDS_ACTION)\<rparr>"
  have v1: "?v1 =
      sampleVm\<lparr>inviteModel := sampleModel\<lparr>bccRecipients :=
                 [\<lparr>rcp_name = [], rcp_address = ''x@ex.com'', rcp_type = RT_UNKNOWN\<rparr>]\<rparr>,
        guestStatuses := [''me@tutanota.com'' \<mapsto> ACCEPTED, ''x@ex.com'' \<mapsto> NEEDS_ACTION],
        ownAttendee := Some meAddress\<rparr>"
    by (simp add: guestVm_eq fun_eq_iff)
  have att: "attendees ?v1 =
       [\<lparr>guest_address = meAddress, guest_type = RT_INTERNAL, guest_status = ACCEPTED\<rparr>,
        \<lparr>guest_address = \<lparr>name = [], address = ''x@ex.com''\<rparr>, guest_type = RT_UNKNOWN,
         guest_status = NEEDS_ACTION\<rparr>]"
    unfolding v1
    by (simp add: attendees_def makeGuestList_def sampleVm_def sampleModel_def meAddress_def Let_def)
  have notAtt: "findAttendeeInAddresses sampleLib (\<lambda>g. address (guest_address g)) (attendees ?v1)
      [''y@ex.com''] = None"
    unfolding att by (simp add: findAttendeeInAddresses_def sampleLib_def meAddress_def)
  have foreign: "''y@ex.com'' \<notin> set (ownMailAddresses ?v1)"
    unfolding v1 by (simp add: sampleVm_def)
  have noLedger: "guestStatuses ?v1 ''y@ex.com'' = None"
    unfolding v1 by simp
  let ?v3 = "?v1\<lparr>inviteModel := (inviteModel ?v1)\<lparr>bccRecipients := bccRecipients (inviteModel ?v1) @
                     [\<lparr>rcp_name = [], rcp_address = ''y@ex.com'', rcp_type = RT_UNKNOWN\<rparr>]\<rparr>,
                 guestStatuses := (guestStatuses ?v1)(''y@ex.com'' \<mapsto> ADDED)\<rparr>"
  have len: "length (attendees ?v3) = 3"
    unfolding v1
    by (simp add: attendees_def makeGuestList_def sampleVm_def sampleModel_def Let_def)
  have "retryVm = addGuest sampleLib ''y@ex.com'' ?v1"
    by (simp add: retryVm_def failed_first_attempt)
  also have "\<dots> = ?v3"
    using addGuest_foreign_eq [OF notAtt foreign noLedger] len by (simp add: Let_def)
  also have "\<dots> = sampleVm\<lparr>inviteModel := sampleModel\<lparr>bccRecipients :=
                 [\<lparr>rcp_name = [], rcp_address = ''x@ex.com'', rcp_type = RT_UNKNOWN\<rparr>,
                  \<lparr>rcp_name = [], rcp_address = ''y@ex.com'', rcp_type = RT_UNKNOWN\<rparr>]\<rparr>,
       guestStatuses := retryLedger,
       ownAttendee := Some meAddress\<rparr>"
    unfolding v1 by (simp add: retryLedger_def fun_eq_iff sampleModel_def)
  finally show ?thesis .
qed

lemma retryLedger_lookup:
  "retryLedger ''me@tutanota.com'' = Some ACCEPTED"
  "retryLedger ''x@ex.com'' = Some NEEDS_ACTION"
  "retryLedger ''y@ex.com'' = Some ADDED"
  by (simp_all add: retryLedger_def)

lemma second_attempt:
  "trace (snd (saveAndSend sampleLib sampleEnv \<lparr>vm = retryVm, trace = []\<rparr>)) =
     [WaitForResolvedRecipients, SendInvite retryEvent (inviteModel retryVm),
      CreateEvent (flipAdded retryEvent) [] ''UTC'' ''ownRoot'']"
  by (simp add: saveAndSend_eq saveAndSendBody_def finallyP_def catchPayloadTooLarge_def thenP_def
      resolve_def call_def sampleEnv_def retryVm_eq retryLedger_lookup sampleVm_def
      initializeNewEvent_def sampleLib_def hasChanges_def sendNotificationAndSave_def
      hasUpdatableAttendees_def sampleModel_def shouldShowSendInviteNotAvailable_def sampleUser_def
      dispatchChain_def sendInvite_def attendees_def makeGuestList_def saveEvent_def
      isConfidential_def retryEvent_def guestEvent_def flipAdded_def meAddress_def
      hasInsecurePasswords_def containsExternalRecipients_def Let_def)

lemma saveAndSendEnter_clear:
  "\<not> processing (vm st) \<Longrightarrow>
     snd (saveAndSendEnter lib env st) = st\<lparr>vm := (vm st)\<lparr>processing := True\<rparr>\<rparr>"
  by (simp add: saveAndSendEnter_def)

lemma saveAndSendBody_flag:
  "processing (vm (snd (saveAndSendBody lib env st))) = processing (vm st)"
  using keepsD [OF guard_saveAndSendBody, of st lib env] by (simp add: sameGuardNoStore_def)

lemma saveAndSendBody_begins:
  "\<exists>t. trace (snd (saveAndSendBody lib env st)) = trace st @ WaitForResolvedRecipients # t"
proof (cases "resolveResult env")
  case (Some e)
  then show ?thesis
    by (simp add: saveAndSendBody_def thenP_def call_def)
next
  case None
  let ?st1 = "st\<lparr>trace := trace st @ [WaitForResolvedRecipients]\<rparr>"
  have "prefix (trace ?st1) (trace (snd (saveAndSendBody lib env st)))"
    using guard_materialized [of ?st1 lib env] None
    by (simp add: saveAndSendBody_def thenP_def call_def sameGuardNoStore_def)
  then show ?thesis
    by (auto simp: prefix_def)
qed

lemma saveAndSend_begins:
  "\<not> processing (vm st) \<Longrightarrow>
     \<exists>t. trace (snd (saveAndSend lib env st)) = trace st @ WaitForResolvedRecipients # t"
  using saveAndSendBody_begins [of lib env "st\<lparr>vm := (vm st)\<lparr>processing := True\<rparr>\<rparr>"]
  by (simp add: snd_saveAndSend)

lemma saveAndSend_guarded:
  "\<not> processing (vm st) \<Longrightarrow>
     saveAndSend lib env st =
       (fst (catchPayloadTooLarge (saveAndSendBody lib env) (snd (saveAndSendEnter lib env st))),
        (snd (saveAndSendBody lib env (snd (saveAndSendEnter lib env st))))
          \<lparr>vm := (vm (snd (saveAndSendBody lib env (snd (saveAndSendEnter lib env st)))))
                  \<lparr>processing := False\<rparr>\<rparr>)"
proof -
  assume np: "\<not> processing (vm st)"
  have body: "thenP (resolve ()) (\<lambda>_. saveAndSendBody lib env) = saveAndSendBody lib env"
    by (simp add: thenP_def resolve_def fun_eq_iff)
  show ?thesis
    using np
    by (simp add: saveAndSend_eq saveAndSendEnter_def body finallyP_def case_prod_beta
        snd_catchPayloadTooLarge)
qed

lemma twoCalls_run:
  "\<not> processing (vm st) \<Longrightarrow>
     twoCalls lib env env2 st =
       (fst (saveAndSend lib env st), Inr False, snd (saveAndSend lib env st))"
  by (simp add: twoCalls_def saveAndSend_def saveAndSendEnter_def resolve_def split: prod.split)

lemma inviteVm_materialized:
  "initializeNewEvent sampleLib env (inviteVm\<lparr>user := u\<rparr>) = Inr respondEvent"
  by (simp add: initializeNewEvent_def inviteVm_def sampleVm_def sampleLib_def inviteEvent_def
      sampleEvent_def attendees_def makeGuestList_def isConfidential_def sampleModel_def
      respondEvent_def meAddress_def otherAddress_def Let_def)

lemma initializeNewEvent_processing [simp]:
  "initializeNewEvent lib env (v\<lparr>processing := b\<rparr>) = initializeNewEvent lib env v"
  by (simp add: initializeNewEvent_def createRepeatRule_def attendees_def makeGuestList_def
      isConfidential_def cong: option.case_cong sum.case_cong if_cong)

lemma userGoesOn_processing [simp]:
  "userGoesOn lib env (v\<lparr>processing := b\<rparr>) = userGoesOn lib env v"
  by (simp add: userGoesOn_def updateDecision_def hasUpdatableAttendees_def hasInsecurePasswords_def
      containsExternalRecipients_def isConfidential_def)

lemma canRespond_processing [simp]:
  "canRespond lib (v\<lparr>processing := b\<rparr>) = canRespond lib v"
  by (simp add: canRespond_def split: option.split)



lemma saveOutcome_withOwnStatus [simp]:
  "existingEvent v = Some ex \<Longrightarrow> saveOutcome env (withOwnStatus lib ex s v) = saveOutcome env v"
  by (auto simp: saveOutcome_def withOwnStatus_def)




lemma shouldShowSendInviteNotAvailable_processing [simp]:
  "shouldShowSendInviteNotAvailable env (v\<lparr>processing := b\<rparr>) =
     shouldShowSendInviteNotAvailable env v"
  by (simp add: shouldShowSendInviteNotAvailable_def)

lemma updateDecision_processing [simp]:
  "updateDecision env (v\<lparr>processing := b\<rparr>) = updateDecision env v"
  by (simp add: updateDecision_def hasUpdatableAttendees_def)

lemma responseDue_processing [simp]:
  "responseDue lib (v\<lparr>processing := b\<rparr>) = responseDue lib v"
  by (simp add: responseDue_def split: option.split)

lemma othersPass_processing [simp]:
  "othersPass lib env (v\<lparr>processing := b\<rparr>) event = othersPass lib env v event"
  by (auto simp: othersPass_def)

lemma saveOutcome_processing [simp]:
  "saveOutcome env (v\<lparr>processing := b\<rparr>) = saveOutcome env v"
  by (simp add: saveOutcome_def)


text \<open>
  One call of \<^verbatim>\<open>_respondToOrganizerAndSave\<close>, with the editor among the attendees of the
  existing event and a desired status for the editor in the ledger: when the desired status
  equals the status on the existing event, or is needs-action, no response is sent and the
  event is saved; otherwise, the existing event having an organizer, one response is sent
  with the desired status and a roster addressed to the organizer, then the roster is
  disposed, then the event is saved.
\<close>

lemma respondToOrganizerAndSave_trace:
  assumes own: "findAttendeeInAddresses lib (\<lambda>a. address (att_address a)) (ev_attendees ex)
                  (ownMailAddresses (vm st)) = Some a"
    and sel: "guestStatuses (vm st) (address (att_address a)) = Some desired"
  shows "(desired = att_status a \<or> desired = NEEDS_ACTION \<longrightarrow>
            trace (snd (respondToOrganizerAndSave lib env ex newEvent newAlarms st)) =
              trace st @ saveCall (vm st) newEvent newAlarms
          \<and> filter isResponse (saveCall (vm st) newEvent newAlarms) = [])
       \<and> (desired \<noteq> att_status a \<and> desired \<noteq> NEEDS_ACTION \<and> ev_organizer ex = Some org \<longrightarrow>
            trace (snd (respondToOrganizerAndSave lib env ex newEvent newAlarms st)) =
              trace st @
              SendResponse newEvent (responseRoster (vm st) org) (address (att_address a))
                (responseTo (vm st)) desired #
              (case sendResponseResult env of
                 Some e \<Rightarrow> []
               | None \<Rightarrow>
                   DisposeModel (responseRoster (vm st) org) #
                   (case disposeResult env of
                      Some e \<Rightarrow> []
                    | None \<Rightarrow> saveCall (withOwnStatus lib ex desired (vm st)) newEvent newAlarms))
          \<and> length (filter isResponse
               (drop (length (trace st))
                  (trace (snd (respondToOrganizerAndSave lib env ex newEvent newAlarms st))))) = 1)"
proof -
  let ?run = "respondToOrganizerAndSave lib env ex newEvent newAlarms st"
  have same: "trace (snd ?run) = trace st @ saveCall (vm st) newEvent newAlarms"
    if "desired = att_status a \<or> desired = NEEDS_ACTION"
  proof -
    have "?run = thenP (saveEvent env newEvent newAlarms) (\<lambda>_. resolve True) st"
      using own sel that by (auto simp: respondToOrganizerAndSave_def)
    then show ?thesis
      by (simp add: snd_thenP_resolve saveEvent_outcome)
  qed
  have send: "trace (snd ?run) =
              trace st @
              SendResponse newEvent (responseRoster (vm st) org) (address (att_address a))
                (responseTo (vm st)) desired #
              (case sendResponseResult env of
                 Some e \<Rightarrow> []
               | None \<Rightarrow>
                   DisposeModel (responseRoster (vm st) org) #
                   (case disposeResult env of
                      Some e \<Rightarrow> []
                    | None \<Rightarrow> saveCall (withOwnStatus lib ex desired (vm st)) newEvent newAlarms))"
    if "desired \<noteq> att_status a" "desired \<noteq> NEEDS_ACTION" "ev_organizer ex = Some org"
  proof -
    let ?st1 = "st\<lparr>vm := withOwnStatus lib ex desired (vm st)\<rparr>"
    let ?m = "responseRoster (vm st) org"
    have run: "?run =
        thenP (thenP (thenP
            (call (SendResponse newEvent ?m (address (att_address a)) (responseTo (vm st)) desired)
               (sendResponseResult env))
            (\<lambda>_. call (DisposeModel ?m) (disposeResult env)))
            (\<lambda>_. saveEvent env newEvent newAlarms))
          (\<lambda>_. resolve True) ?st1"
      using own sel that
      by (auto simp: respondToOrganizerAndSave_def Let_def responseRoster_def withOwnStatus_def)
    show ?thesis
      unfolding run snd_thenP_resolve
      by (cases "sendResponseResult env"; cases "disposeResult env")
        (simp_all add: thenP_def call_def saveEvent_outcome)
  qed
  have one: "length (filter isResponse (drop (length (trace st)) (trace (snd ?run)))) = 1"
    if "desired \<noteq> att_status a" "desired \<noteq> NEEDS_ACTION" "ev_organizer ex = Some org"
    unfolding send [OF that]
    by (simp add: saveCall_no_response isResponse_def split: option.split)
  from saveCall_no_response same send one show ?thesis by blast
qed

lemma failed_response:
  "saveAndSend sampleLib offlineEnv \<lparr>vm = memberVm, trace = []\<rparr> =
     (Inl (OtherError ''offline''),
      \<lparr>vm = memberVm\<lparr>existingEvent := Some acceptedInvite\<rparr>,
       trace = [WaitForResolvedRecipients,
                SendResponse respondEvent (responseRoster memberVm otherAddress)
                  ''me@tutanota.com'' None ACCEPTED]\<rparr>)"
proof -
  have init: "initializeNewEvent sampleLib offlineEnv memberVm = Inr respondEvent"
    using inviteVm_materialized [of offlineEnv sampleUser] by (simp add: memberVm_def)
  have facts: "resolveResult offlineEnv = None" "\<not> processing memberVm"
    "eventType memberVm = INVITE" "existingEvent memberVm = Some inviteEvent"
    "alarms memberVm = []"
    by (simp_all add: offlineEnv_def sampleEnv_def memberVm_def inviteVm_def sampleVm_def)
  have respond: "respondToOrganizerAndSave sampleLib offlineEnv inviteEvent respondEvent []
      \<lparr>vm = memberVm\<lparr>processing := True\<rparr>, trace = [WaitForResolvedRecipients]\<rparr> =
     (Inl (OtherError ''offline''),
      \<lparr>vm = memberVm\<lparr>processing := True, existingEvent := Some acceptedInvite\<rparr>,
       trace = [WaitForResolvedRecipients,
                SendResponse respondEvent (responseRoster memberVm otherAddress)
                  ''me@tutanota.com'' None ACCEPTED]\<rparr>)"
    by (simp add: offlineEnv_def sampleEnv_def memberVm_def inviteVm_def sampleVm_def
        respondToOrganizerAndSave_def findAttendeeInAddresses_def sampleLib_def inviteEvent_def
        sampleEvent_def meAddress_def otherAddress_def thenP_def call_def responseRoster_def
        acceptedInvite_def sampleModel_def Let_def)
  show ?thesis
    by (simp add: saveAndSend_eq saveAndSendBody_def finallyP_def catchPayloadTooLarge_def
        thenP_def resolve_def call_def initializeNewEvent_processing init facts respond)
qed

lemma retried_response:
  "saveAndSend sampleLib sampleEnv
     \<lparr>vm = memberVm\<lparr>existingEvent := Some acceptedInvite\<rparr>,
      trace = [WaitForResolvedRecipients,
               SendResponse respondEvent (responseRoster memberVm otherAddress)
                 ''me@tutanota.com'' None ACCEPTED]\<rparr> =
     (Inr True,
      \<lparr>vm = memberVm\<lparr>existingEvent := Some acceptedInvite\<rparr>,
       trace = [WaitForResolvedRecipients,
                SendResponse respondEvent (responseRoster memberVm otherAddress)
                  ''me@tutanota.com'' None ACCEPTED,
                WaitForResolvedRecipients,
                CreateEvent respondEvent [] ''UTC'' ''ownRoot'']\<rparr>)"
proof -
  let ?v = "memberVm\<lparr>existingEvent := Some acceptedInvite\<rparr>"
  have init: "initializeNewEvent sampleLib sampleEnv ?v = Inr respondEvent"
    by (simp add: initializeNewEvent_def memberVm_def inviteVm_def sampleVm_def sampleLib_def
        inviteEvent_def sampleEvent_def attendees_def makeGuestList_def isConfidential_def
        sampleModel_def respondEvent_def acceptedInvite_def meAddress_def otherAddress_def Let_def)
  have facts: "resolveResult sampleEnv = None" "\<not> processing memberVm"
    "eventType memberVm = INVITE" "alarms memberVm = []"
    by (simp_all add: sampleEnv_def memberVm_def inviteVm_def sampleVm_def)
  have respond: "respondToOrganizerAndSave sampleLib sampleEnv acceptedInvite respondEvent []
      \<lparr>vm = ?v\<lparr>processing := True\<rparr>, trace = t\<rparr> =
     (Inr True,
      \<lparr>vm = ?v\<lparr>processing := True\<rparr>,
       trace = t @ [CreateEvent respondEvent [] ''UTC'' ''ownRoot'']\<rparr>)" for t
    by (simp add: sampleEnv_def memberVm_def inviteVm_def sampleVm_def sampleUser_def
        respondToOrganizerAndSave_def findAttendeeInAddresses_def sampleLib_def inviteEvent_def
        sampleEvent_def meAddress_def otherAddress_def thenP_def call_def resolve_def
        saveEvent_def acceptedInvite_def Let_def)
  show ?thesis
    by (simp add: saveAndSend_eq saveAndSendBody_def finallyP_def catchPayloadTooLarge_def
        thenP_def resolve_def call_def initializeNewEvent_processing init [simplified] facts
        respond [simplified] Let_def)
qed

lemma addGuest_foreign_roster:
  assumes "findAttendeeInAddresses lib (\<lambda>g. address (guest_address g)) (attendees v) [a] = None"
    and "a \<notin> set (ownMailAddresses v)" and "guestStatuses v a = None"
  shows "bccRecipients (inviteModel (addGuest lib a v)) =
           bccRecipients (inviteModel v) @ [\<lparr>rcp_name = [], rcp_address = a, rcp_type = RT_UNKNOWN\<rparr>]"
  unfolding addGuest_foreign_eq [OF assms] by (simp add: Let_def)

lemma addGuest_other_spelling:
  "addGuest caseLib ''Me@tutanota.com'' sampleVm =
     sampleVm\<lparr>inviteModel := sampleModel\<lparr>bccRecipients :=
                 [\<lparr>rcp_name = [], rcp_address = ''Me@tutanota.com'', rcp_type = RT_UNKNOWN\<rparr>]\<rparr>,
        guestStatuses := [''Me@tutanota.com'' \<mapsto> ADDED]\<rparr>"
  by (simp add: addGuest_def sampleVm_def caseLib_def sampleLib_def sampleModel_def attendees_def
      makeGuestList_def findAttendeeInAddresses_def findRecipientWithAddress_def addRecipient_def
      findOwnAttendee_def selectGoing_def canModifyOwnAttendance_def toLowerCase_def Let_def)

section \<open>Theorems\<close>

text \<open>
  C1. Role classification is a function of its inputs. With no original event the result
  is OwnEvent, the organizer is the user's default sending address and the possible
  organizers are all of the user's own addresses. With an original event whose owning
  calendar is visible and shared the result is SharedReadWrite exactly when the editor
  holds write capability on the calendar's group and SharedReadOnly otherwise; the
  organizer is the original's organizer, unchanged, and the possible organizers are that
  singleton, or empty when the original has no organizer.
\<close>

theorem C1_role_classification:
  "initEventTypeAndOrganizers lib usr defaultSender own None cals =
     \<lparr>ret_eventType = OWN,
      ret_organizer = Some (addressToMailAddress lib defaultSender),
      ret_possibleOrganizers = map (addressToMailAddress lib) own\<rparr>
   \<and> (calendarInfoForEvent e cals = Some ci \<and> shared ci \<longrightarrow>
        initEventTypeAndOrganizers lib usr defaultSender own (Some e) cals =
          \<lparr>ret_eventType =
             (if hasCapabilityOnGroup lib usr (group ci) Write then SHARED_RW else SHARED_RO),
           ret_organizer = ev_organizer e,
           ret_possibleOrganizers = (case ev_organizer e of Some org \<Rightarrow> [org] | None \<Rightarrow> [])\<rparr>)"
  by (cases "ev_organizer e")
     (simp_all add: initEventTypeAndOrganizers_def ownPossibleOrganizers_def copyMailAddress_id)

theorem C1_role_classification_witness:
  "calendarInfoForEvent sampleEvent sampleCalendars =
     Some \<lparr>group = ''rwGroup'', groupRoot = ''rwRoot'', shared = True\<rparr>
   \<and> initEventTypeAndOrganizers sampleLib sampleUser ''me@tutanota.com'' [''me@tutanota.com'']
        (Some sampleEvent) sampleCalendars =
       \<lparr>ret_eventType = SHARED_RW, ret_organizer = Some otherAddress,
        ret_possibleOrganizers = [otherAddress]\<rparr>
   \<and> initEventTypeAndOrganizers sampleLib sampleUser ''me@tutanota.com'' [''me@tutanota.com'']
        None sampleCalendars =
       \<lparr>ret_eventType = OWN,
        ret_organizer = Some \<lparr>name = ''Me'', address = ''me@tutanota.com''\<rparr>,
        ret_possibleOrganizers = [\<lparr>name = ''Me'', address = ''me@tutanota.com''\<rparr>]\<rparr>"
  using C1_role_classification [of sampleLib sampleUser "''me@tutanota.com''" "[''me@tutanota.com'']"
      sampleCalendars sampleEvent "\<lparr>group = ''rwGroup'', groupRoot = ''rwRoot'', shared = True\<rparr>"]
  by (simp add: calendarInfoForEvent_def sampleEvent_def sampleCalendars_def sampleLib_def
      addressToMailAddress_def)

text \<open>
  C2. For an original event and a freshly materialized candidate, the change detector
  answers true if and only if one of these differs: start instant, end instant,
  description, summary, location, confidentiality flag, UID, organizer address (names
  ignored), the repeat rule compared field by field with the exclusion list as an ordered
  list of instants, or the attendees compared without regard to order by address and
  status (names ignored). A candidate that differs from the original in the sequence
  counter only is reported as unchanged.
\<close>

theorem C2_hasChanges_iff:
  "(hasChanges lib (Some original) candidate \<longleftrightarrow>
      ev_startTime candidate \<noteq> ev_startTime original \<or>
      ev_endTime candidate \<noteq> ev_endTime original \<or>
      ev_description candidate \<noteq> ev_description original \<or>
      ev_summary candidate \<noteq> ev_summary original \<or>
      ev_location candidate \<noteq> ev_location original \<or>
      ev_invitedConfidentially candidate \<noteq> ev_invitedConfidentially original \<or>
      ev_uid candidate \<noteq> ev_uid original \<or>
      map_option address (ev_organizer candidate) \<noteq> map_option address (ev_organizer original) \<or>
      map_option ruleFields (ev_repeatRule candidate) \<noteq>
        map_option ruleFields (ev_repeatRule original) \<or>
      mset (map (attendeeKey lib) (ev_attendees candidate)) \<noteq>
        mset (map (attendeeKey lib) (ev_attendees original)))
   \<and> \<not> hasChanges lib (Some original) (original\<lparr>ev_sequence := s\<rparr>)"
proof -
  have org: "(ev_organizer candidate \<noteq> ev_organizer original \<and>
       map_option address (ev_organizer candidate) \<noteq> map_option address (ev_organizer original))
     \<longleftrightarrow> map_option address (ev_organizer candidate) \<noteq> map_option address (ev_organizer original)"
    by auto
  have att: "arrayEqualsWithPredicate xs ys
       (\<lambda>a1 a2. att_status a1 = att_status a2 \<and>
          cleanMailAddress lib (address (att_address a1)) =
          cleanMailAddress lib (address (att_address a2)))
     \<longleftrightarrow> mset (map (attendeeKey lib) xs) = mset (map (attendeeKey lib) ys)" for xs ys
    unfolding attendee_predicate_key by (rule arrayEqualsWithPredicate_mset)
  have first: "hasChanges lib (Some original) candidate \<longleftrightarrow>
      ev_startTime candidate \<noteq> ev_startTime original \<or>
      ev_endTime candidate \<noteq> ev_endTime original \<or>
      ev_description candidate \<noteq> ev_description original \<or>
      ev_summary candidate \<noteq> ev_summary original \<or>
      ev_location candidate \<noteq> ev_location original \<or>
      ev_invitedConfidentially candidate \<noteq> ev_invitedConfidentially original \<or>
      ev_uid candidate \<noteq> ev_uid original \<or>
      map_option address (ev_organizer candidate) \<noteq> map_option address (ev_organizer original) \<or>
      map_option ruleFields (ev_repeatRule candidate) \<noteq>
        map_option ruleFields (ev_repeatRule original) \<or>
      mset (map (attendeeKey lib) (ev_attendees candidate)) \<noteq>
        mset (map (attendeeKey lib) (ev_attendees original))"
    unfolding hasChanges_def option.case org att areRepeatRulesEqual_iff by blast
  have second: "\<not> hasChanges lib (Some original) (original\<lparr>ev_sequence := s\<rparr>)"
    unfolding hasChanges_def option.case att areRepeatRulesEqual_iff by simp
  from first second show ?thesis by blast
qed

theorem C2_hasChanges_iff_witness:
  "hasChanges sampleLib (Some sampleEvent) (sampleEvent\<lparr>ev_summary := ''t''\<rparr>)
   \<and> \<not> hasChanges sampleLib (Some sampleEvent) (sampleEvent\<lparr>ev_sequence := ''7''\<rparr>)"
  using C2_hasChanges_iff [of sampleLib sampleEvent "sampleEvent\<lparr>ev_summary := ''t''\<rparr>" "''7''"]
  by (simp add: sampleEvent_def)

text \<open>
  C3 as stated does not hold: on a rule that does not end after a count, the setter of the
  number of occurrences called with a new value changes nothing, and the exclusions stay.
\<close>

theorem C3_counterexample:
  "endValue sampleRepeat \<noteq> 5 \<and> excludedDates sampleRepeat \<noteq> [] \<and>
   map_option excludedDates (repeat (onEndOccurencesSelected 5 (sampleVm\<lparr>repeat := Some sampleRepeat\<rparr>)))
     = Some [1641772800000]"
  by (simp add: onEndOccurencesSelected_def sampleRepeat_def)

text \<open>
  C3, amended. On a draft whose rule has exclusions: selecting another frequency, another
  interval or another end type empties the exclusion list (selecting no frequency removes
  the rule); the number of occurrences empties it when the rule ends after a count, the end
  date when the rule ends on a date, and otherwise these two setters change nothing. Every
  setter called with the current value leaves the draft as it is.
\<close>

theorem C3_recurrence_setters:
  assumes "repeat v = Some r" and "excludedDates r \<noteq> []"
  shows "(p \<noteq> frequency r \<longrightarrow>
            repeat (onRepeatPeriodSelected (Some p) v) = Some (r\<lparr>frequency := p, excludedDates := []\<rparr>))
       \<and> repeat (onRepeatPeriodSelected None v) = None
       \<and> (i \<noteq> interval r \<longrightarrow>
            repeat (onRepeatIntervalChanged i v) = Some (r\<lparr>interval := i, excludedDates := []\<rparr>))
       \<and> (t \<noteq> endType r \<longrightarrow>
            repeat (onRepeatEndTypeChanged env t v) =
              Some (r\<lparr>endType := t, excludedDates := [],
                      endValue := (if t = UntilDate then oneMonthFromNow env else 1)\<rparr>))
       \<and> (endType r = Count \<and> n \<noteq> endValue r \<longrightarrow>
            repeat (onEndOccurencesSelected n v) = Some (r\<lparr>endValue := n, excludedDates := []\<rparr>))
       \<and> (endType r = UntilDate \<and> d \<noteq> endValue r \<longrightarrow>
            repeat (onRepeatEndDateSelected d v) = Some (r\<lparr>endValue := d, excludedDates := []\<rparr>))
       \<and> (endType r \<noteq> Count \<longrightarrow> onEndOccurencesSelected n v = v)
       \<and> (endType r \<noteq> UntilDate \<longrightarrow> onRepeatEndDateSelected d v = v)
       \<and> onRepeatPeriodSelected (Some (frequency r)) v = v
       \<and> onRepeatIntervalChanged (interval r) v = v
       \<and> onRepeatEndTypeChanged env (endType r) v = v
       \<and> onEndOccurencesSelected (endValue r) v = v
       \<and> onRepeatEndDateSelected (endValue r) v = v"
  using assms(1)
  by (simp add: onRepeatPeriodSelected_def onRepeatIntervalChanged_def onRepeatEndTypeChanged_def
      onEndOccurencesSelected_def onRepeatEndDateSelected_def deleteExcludedDates_def)

theorem C3_recurrence_setters_witness:
  "repeat (sampleVm\<lparr>repeat := Some sampleRepeat\<rparr>) = Some sampleRepeat
   \<and> excludedDates sampleRepeat \<noteq> []
   \<and> map_option excludedDates
        (repeat (onRepeatIntervalChanged 2 (sampleVm\<lparr>repeat := Some sampleRepeat\<rparr>))) = Some []
   \<and> onRepeatIntervalChanged 1 (sampleVm\<lparr>repeat := Some sampleRepeat\<rparr>) =
        sampleVm\<lparr>repeat := Some sampleRepeat\<rparr>"
  using C3_recurrence_setters [of "sampleVm\<lparr>repeat := Some sampleRepeat\<rparr>" sampleRepeat
      WEEKLY 2 Count sampleEnv 5 7]
  by (simp add: sampleRepeat_def)

text \<open>
  C4. For a new start date that differs from the current one: from the minimum supported
  year on, the start date is taken over, the end date is moved by the number of days between
  the old and the new start date, and the exclusions are emptied; where moving a date by
  days is compatible with the day difference, the duration in days is preserved. A start
  date before the minimum supported year is instead set to the current year, and nothing
  else of the draft changes.
\<close>

theorem C4_setStartDate:
  assumes "date \<noteq> startDate v"
  shows "(TIMESTAMP_ZERO_YEAR \<le> getFullYear lib date \<longrightarrow>
            startDate (setStartDate lib env date v) = date
          \<and> endDate (setStartDate lib env date v) =
              plusDays lib (zone v) (endDate v) (getDiffInDays lib (startDate v) date)
          \<and> repeat (setStartDate lib env date v) =
              map_option (\<lambda>r. r\<lparr>excludedDates := []\<rparr>) (repeat v)
          \<and> ((\<forall>a b n. getDiffInDays lib (plusDays lib (zone v) a n) (plusDays lib (zone v) b n) =
                        getDiffInDays lib a b)
              \<and> plusDays lib (zone v) (startDate v) (getDiffInDays lib (startDate v) date) = date
              \<longrightarrow> getDiffInDays lib (startDate (setStartDate lib env date v))
                    (endDate (setStartDate lib env date v)) =
                  getDiffInDays lib (startDate v) (endDate v)))
       \<and> (getFullYear lib date < TIMESTAMP_ZERO_YEAR \<longrightarrow>
            setStartDate lib env date v = v\<lparr>startDate := setFullYear lib date (thisYear env)\<rparr>)"
proof -
  let ?v' = "setStartDate lib env date v"
  let ?diff = "getDiffInDays lib (startDate v) date"
  have early: "getFullYear lib date < TIMESTAMP_ZERO_YEAR \<Longrightarrow>
      ?v' = v\<lparr>startDate := setFullYear lib date (thisYear env)\<rparr>"
    using assms by (simp add: setStartDate_def)
  have late: "?v' = deleteExcludedDates (v\<lparr>endDate := plusDays lib (zone v) (endDate v) ?diff,
      startDate := date\<rparr>)" if "TIMESTAMP_ZERO_YEAR \<le> getFullYear lib date"
    using assms that by (simp add: setStartDate_def Let_def)
  have s: "startDate ?v' = date" if "TIMESTAMP_ZERO_YEAR \<le> getFullYear lib date"
    unfolding late [OF that] by (simp add: deleteExcludedDates_def split: option.split)
  have e: "endDate ?v' = plusDays lib (zone v) (endDate v) ?diff"
    if "TIMESTAMP_ZERO_YEAR \<le> getFullYear lib date"
    unfolding late [OF that] by (simp add: deleteExcludedDates_def split: option.split)
  have r: "repeat ?v' = map_option (\<lambda>r. r\<lparr>excludedDates := []\<rparr>) (repeat v)"
    if "TIMESTAMP_ZERO_YEAR \<le> getFullYear lib date"
    unfolding late [OF that] by (simp add: deleteExcludedDates_def split: option.split)
  have d: "getDiffInDays lib (startDate ?v') (endDate ?v') = getDiffInDays lib (startDate v) (endDate v)"
    if "TIMESTAMP_ZERO_YEAR \<le> getFullYear lib date"
      and law: "\<forall>a b n. getDiffInDays lib (plusDays lib (zone v) a n) (plusDays lib (zone v) b n) =
                        getDiffInDays lib a b"
      and mv: "plusDays lib (zone v) (startDate v) ?diff = date"
  proof -
    have "getDiffInDays lib (startDate ?v') (endDate ?v') =
          getDiffInDays lib (plusDays lib (zone v) (startDate v) ?diff)
            (plusDays lib (zone v) (endDate v) ?diff)"
      using s [OF that(1)] e [OF that(1)] mv by simp
    also have "\<dots> = getDiffInDays lib (startDate v) (endDate v)"
      using law by blast
    finally show ?thesis .
  qed
  from early s e r d show ?thesis by blast
qed

theorem C4_setStartDate_witness:
  "1641772800000 \<noteq> startDate (sampleVm\<lparr>repeat := Some sampleRepeat\<rparr>)
   \<and> TIMESTAMP_ZERO_YEAR \<le> getFullYear sampleLib 1641772800000
   \<and> endDate (setStartDate sampleLib sampleEnv 1641772800000 (sampleVm\<lparr>repeat := Some sampleRepeat\<rparr>))
       = 1641859200000
   \<and> repeat (setStartDate sampleLib sampleEnv 1641772800000 (sampleVm\<lparr>repeat := Some sampleRepeat\<rparr>))
       = Some (sampleRepeat\<lparr>excludedDates := []\<rparr>)
   \<and> getDiffInDays sampleLib
        (startDate (setStartDate sampleLib sampleEnv 1641772800000 (sampleVm\<lparr>repeat := Some sampleRepeat\<rparr>)))
        (endDate (setStartDate sampleLib sampleEnv 1641772800000 (sampleVm\<lparr>repeat := Some sampleRepeat\<rparr>)))
       = 1
   \<and> getFullYear sampleLib (- 86400000) < TIMESTAMP_ZERO_YEAR
   \<and> startDate (setStartDate sampleLib sampleEnv (- 86400000) (sampleVm\<lparr>repeat := Some sampleRepeat\<rparr>))
       = setFullYear sampleLib (- 86400000) 2023"
  using C4_setStartDate [of 1641772800000 "sampleVm\<lparr>repeat := Some sampleRepeat\<rparr>" sampleLib sampleEnv]
    C4_setStartDate [of "- 86400000" "sampleVm\<lparr>repeat := Some sampleRepeat\<rparr>" sampleLib sampleEnv]
  by (simp add: sampleVm_def sampleLib_def sampleEnv_def TIMESTAMP_ZERO_YEAR_def)

text \<open>
  C8. For a recurring series whose root event has an ascending exclusion list,
  \<^verbatim>\<open>excludeThisOccurrence\<close> loads the root and hands to the calendar store a copy of it in
  which the start instant of the clicked instance stands immediately before the first
  exclusion that is not smaller (at the end when there is none); that list is ascending
  again, and the draft of the clicked instance is the same as before.
\<close>

theorem C8_excludeThisOccurrence:
  assumes "existingEvent (vm st) = Some ex"
    and "selectedCalendar (vm st) = Some c"
    and "ev_repeatRule ex \<noteq> None"
    and "loadResult env = Inr (Some root)"
    and "ev_repeatRule root = Some rule"
    and "sorted (rr_excludedDates rule)"
    and "ev_ownerGroup ex = Some g"
    and "calendars (vm st) g = Some cal"
  shows "excludeThisOccurrence env st =
           ((case updateEventResult env of Some e \<Rightarrow> Inl e | None \<Rightarrow> Inr ()),
            st\<lparr>trace := trace st @
               [LoadEvent (ev_id ex),
                UpdateEvent
                  (root\<lparr>ev_repeatRule := Some (rule\<lparr>rr_excludedDates :=
                      takeWhile (\<lambda>d. d < ev_startTime ex) (rr_excludedDates rule) @
                      [ev_startTime ex] @
                      dropWhile (\<lambda>d. d < ev_startTime ex) (rr_excludedDates rule)\<rparr>)\<rparr>)
                  (alarms (vm st)) (zone (vm st)) (groupRoot cal) ex]\<rparr>)
       \<and> sorted (takeWhile (\<lambda>d. d < ev_startTime ex) (rr_excludedDates rule) @
                      [ev_startTime ex] @
                      dropWhile (\<lambda>d. d < ev_startTime ex) (rr_excludedDates rule))
       \<and> vm (snd (excludeThisOccurrence env st)) = vm st"
proof -
  let ?ins = "takeWhile (\<lambda>d. d < ev_startTime ex) (rr_excludedDates rule) @
                      [ev_startTime ex] @
                      dropWhile (\<lambda>d. d < ev_startTime ex) (rr_excludedDates rule)"
  have ins: "insertExclusion (ev_startTime ex) (rr_excludedDates rule) = ?ins"
    by (rule insertExclusion_takeWhile)
  have run: "excludeThisOccurrence env st =
           ((case updateEventResult env of Some e \<Rightarrow> Inl e | None \<Rightarrow> Inr ()),
            st\<lparr>trace := trace st @
               [LoadEvent (ev_id ex),
                UpdateEvent (root\<lparr>ev_repeatRule := Some (rule\<lparr>rr_excludedDates := ?ins\<rparr>)\<rparr>)
                  (alarms (vm st)) (zone (vm st)) (groupRoot cal) ex]\<rparr>)"
    using assms(1-5,7,8) unfolding ins [symmetric]
    by (simp add: excludeThisOccurrence_def thenP_def call_def resolve_def)
  have srt: "sorted ?ins"
    using sorted_insertExclusion [OF assms(6), of "ev_startTime ex"] unfolding ins .
  have same: "vm (snd (excludeThisOccurrence env st)) = vm st"
    unfolding run by simp
  from run srt same show ?thesis by blast
qed

theorem C8_excludeThisOccurrence_witness:
  "map (\<lambda>eff. case eff of UpdateEvent e _ _ _ _ \<Rightarrow> map_option rr_excludedDates (ev_repeatRule e)
          | _ \<Rightarrow> None)
     (trace (snd (excludeThisOccurrence (sampleEnv\<lparr>loadResult := Inr (Some sampleSeries)\<rparr>)
        \<lparr>vm = sampleVm\<lparr>existingEvent := Some sampleInstance\<rparr>, trace = []\<rparr>)))
   = [None, Some [1678579200000, 1678665600000]]"
  using C8_excludeThisOccurrence [of "\<lparr>vm = sampleVm\<lparr>existingEvent := Some sampleInstance\<rparr>, trace = []\<rparr>"
      sampleInstance "\<lparr>group = ''ownGroup'', groupRoot = ''ownRoot'', shared = False\<rparr>"
      "sampleEnv\<lparr>loadResult := Inr (Some sampleSeries)\<rparr>" sampleSeries sampleRule
      "''ownGroup''" "\<lparr>group = ''ownGroup'', groupRoot = ''ownRoot'', shared = False\<rparr>"]
  by (simp add: sampleVm_def sampleInstance_def sampleSeries_def sampleRule_def sampleEvent_def
      sampleCalendars_def sampleEnv_def)

text \<open>
  C7. A call of \<^verbatim>\<open>saveAndSend\<close> that begins while the flag is set returns the settled
  promise of false and does nothing: the state and the trace of external calls are as they
  were. A call that begins with the flag clear sets it as it is entered, and its run is the
  body begun in that state, with the flag cleared at the end. However far the body of the
  first call has got (the outcomes of its external calls decide at which call it stops),
  the flag is set in the state it has reached, so a second call that begins there answers
  false and leaves that state as it is. Two calls entered one after the other before any
  promise has run come to the run of the first alone, the second answering false. And
  whatever the answers of the caller and the outcomes of the external calls, the first
  call ends with the flag clear, and the call after it proceeds: it waits for the
  recipients to be resolved.
\<close>

theorem C7_single_flight:
  "(processing (vm st) \<longrightarrow>
      saveAndSendEnter lib env st = (resolve False, st) \<and> saveAndSend lib env st = (Inr False, st))
   \<and> (\<not> processing (vm st) \<longrightarrow>
        processing (vm (snd (saveAndSendEnter lib env st)))
        \<and> saveAndSend lib env st =
            (fst (catchPayloadTooLarge (saveAndSendBody lib env) (snd (saveAndSendEnter lib env st))),
             (snd (saveAndSendBody lib env (snd (saveAndSendEnter lib env st))))
               \<lparr>vm := (vm (snd (saveAndSendBody lib env (snd (saveAndSendEnter lib env st)))))
                       \<lparr>processing := False\<rparr>\<rparr>)
        \<and> (\<forall>env1. processing
              (vm (snd (saveAndSendBody lib env1 (snd (saveAndSendEnter lib env st))))))
        \<and> (\<forall>env1 env2.
              saveAndSend lib env2 (snd (saveAndSendBody lib env1 (snd (saveAndSendEnter lib env st)))) =
                (Inr False, snd (saveAndSendBody lib env1 (snd (saveAndSendEnter lib env st)))))
        \<and> (\<forall>env2. twoCalls lib env env2 st =
              (fst (saveAndSend lib env st), Inr False, snd (saveAndSend lib env st)))
        \<and> \<not> processing (vm (snd (saveAndSend lib env st)))
        \<and> (\<forall>env2. \<exists>t. trace (snd (saveAndSend lib env2 (snd (saveAndSend lib env st)))) =
              trace (snd (saveAndSend lib env st)) @ WaitForResolvedRecipients # t))"
proof -
  have a: "saveAndSendEnter lib env st = (resolve False, st) \<and>
      saveAndSend lib env st = (Inr False, st)" if "processing (vm st)" for env st
    using that by (simp add: saveAndSendEnter_def saveAndSend_def resolve_def)
  have b: "processing (vm (snd (saveAndSendEnter lib env st)))" if "\<not> processing (vm st)"
    using that by (simp add: saveAndSendEnter_clear)
  have c: "processing (vm (snd (saveAndSendBody lib env1 (snd (saveAndSendEnter lib env st)))))"
    if "\<not> processing (vm st)" for env1
    using b [OF that] by (simp add: saveAndSendBody_flag)
  have d: "saveAndSend lib env2 (snd (saveAndSendBody lib env1 (snd (saveAndSendEnter lib env st)))) =
      (Inr False, snd (saveAndSendBody lib env1 (snd (saveAndSendEnter lib env st))))"
    if "\<not> processing (vm st)" for env1 env2
    using a [OF c [OF that]] by blast
  have e: "\<not> processing (vm (snd (saveAndSend lib env st)))" if "\<not> processing (vm st)"
    using that by (simp add: snd_saveAndSend)
  have f: "\<exists>t. trace (snd (saveAndSend lib env2 (snd (saveAndSend lib env st)))) =
      trace (snd (saveAndSend lib env st)) @ WaitForResolvedRecipients # t"
    if "\<not> processing (vm st)" for env2
    by (rule saveAndSend_begins [OF e [OF that]])
  from a [of st env] b c d e f saveAndSend_guarded [of st lib env] twoCalls_run [of st lib env]
  show ?thesis by blast
qed

theorem C7_single_flight_witness:
  "processing (vm \<lparr>vm = sampleVm\<lparr>processing := True\<rparr>, trace = []\<rparr>)
   \<and> saveAndSend sampleLib sampleEnv \<lparr>vm = sampleVm\<lparr>processing := True\<rparr>, trace = []\<rparr> =
       (Inr False, \<lparr>vm = sampleVm\<lparr>processing := True\<rparr>, trace = []\<rparr>)
   \<and> \<not> processing (vm \<lparr>vm = guestVm, trace = []\<rparr>)
   \<and> processing (vm (snd (saveAndSendEnter sampleLib failEnv \<lparr>vm = guestVm, trace = []\<rparr>)))
   \<and> twoCalls sampleLib failEnv sampleEnv \<lparr>vm = guestVm, trace = []\<rparr> =
       (Inl (OtherError ''offline''), Inr False,
        \<lparr>vm = guestVm\<lparr>guestStatuses := (guestStatuses guestVm)(''x@ex.com'' \<mapsto> NEEDS_ACTION)\<rparr>,
         trace = [WaitForResolvedRecipients, SendInvite guestEvent (inviteModel guestVm),
                  CreateEvent (flipAdded guestEvent) [] ''UTC'' ''ownRoot'']\<rparr>)
   \<and> \<not> processing (vm (snd (saveAndSend sampleLib failEnv \<lparr>vm = guestVm, trace = []\<rparr>)))"
proof -
  have set: "processing (vm \<lparr>vm = sampleVm\<lparr>processing := True\<rparr>, trace = []\<rparr>)"
    by simp
  have clear: "\<not> processing (vm \<lparr>vm = guestVm, trace = []\<rparr>)"
    by (simp add: guestVm_eq sampleVm_def)
  show ?thesis
    using C7_single_flight [of "\<lparr>vm = sampleVm\<lparr>processing := True\<rparr>, trace = []\<rparr>" sampleLib sampleEnv]
      C7_single_flight [of "\<lparr>vm = guestVm, trace = []\<rparr>" sampleLib failEnv] set clear
    by (simp add: failed_first_attempt)
qed



text \<open>
  C9 does not hold of the code. \<^verbatim>\<open>_respondToOrganizerAndSave\<close> writes the desired status
  into the attendee of the existing event of the view model before the response is sent,
  although it looks the editor up there to have the event "before our modifications". An
  invited user whose status on the original event is needs-action chooses to accept; the
  response cannot be sent and \<^verbatim>\<open>saveAndSend\<close> fails; the user saves again. The existing event
  now says accepted, as the ledger does, so no response is sent, and the event is stored
  with the editor as accepted. The only call of \<^verbatim>\<open>sendResponse\<close> is the one that failed.
\<close>

theorem C9_retry_sends_no_response:
  "existingEvent memberVm = Some inviteEvent
   \<and> ev_attendees inviteEvent =
       [\<lparr>att_address = otherAddress, att_status = ACCEPTED\<rparr>,
        \<lparr>att_address = meAddress, att_status = NEEDS_ACTION\<rparr>]
   \<and> ownMailAddresses memberVm = [address meAddress]
   \<and> guestStatuses memberVm (address meAddress) = Some ACCEPTED
   \<and> saveAndSend sampleLib offlineEnv \<lparr>vm = memberVm, trace = []\<rparr> =
       (Inl (OtherError ''offline''),
        \<lparr>vm = memberVm\<lparr>existingEvent := Some acceptedInvite\<rparr>,
         trace = [WaitForResolvedRecipients,
                  SendResponse respondEvent (responseRoster memberVm otherAddress)
                    ''me@tutanota.com'' None ACCEPTED]\<rparr>)
   \<and> ev_attendees acceptedInvite =
       [\<lparr>att_address = otherAddress, att_status = ACCEPTED\<rparr>,
        \<lparr>att_address = meAddress, att_status = ACCEPTED\<rparr>]
   \<and> saveAndSend sampleLib sampleEnv
         (snd (saveAndSend sampleLib offlineEnv \<lparr>vm = memberVm, trace = []\<rparr>)) =
       (Inr True,
        \<lparr>vm = memberVm\<lparr>existingEvent := Some acceptedInvite\<rparr>,
         trace = [WaitForResolvedRecipients,
                  SendResponse respondEvent (responseRoster memberVm otherAddress)
                    ''me@tutanota.com'' None ACCEPTED,
                  WaitForResolvedRecipients,
                  CreateEvent respondEvent [] ''UTC'' ''ownRoot'']\<rparr>)
   \<and> ev_attendees respondEvent =
       [\<lparr>att_address = meAddress, att_status = ACCEPTED\<rparr>,
        \<lparr>att_address = otherAddress, att_status = ACCEPTED\<rparr>]"
proof -
  have a: "existingEvent memberVm = Some inviteEvent"
    "ownMailAddresses memberVm = [address meAddress]"
    "guestStatuses memberVm (address meAddress) = Some ACCEPTED"
    by (simp_all add: memberVm_def inviteVm_def sampleVm_def meAddress_def)
  have b: "ev_attendees inviteEvent =
       [\<lparr>att_address = otherAddress, att_status = ACCEPTED\<rparr>,
        \<lparr>att_address = meAddress, att_status = NEEDS_ACTION\<rparr>]"
    "ev_attendees respondEvent =
       [\<lparr>att_address = meAddress, att_status = ACCEPTED\<rparr>,
        \<lparr>att_address = otherAddress, att_status = ACCEPTED\<rparr>]"
    "ev_attendees acceptedInvite =
       [\<lparr>att_address = otherAddress, att_status = ACCEPTED\<rparr>,
        \<lparr>att_address = meAddress, att_status = ACCEPTED\<rparr>]"
    by (simp_all add: inviteEvent_def respondEvent_def acceptedInvite_def)
  from a b show ?thesis
    by (simp add: failed_response retried_response)
qed

text \<open>
  C6 as stated does not hold: the invite goes to the whole invite roster. After an attempt
  that sent the invite to x and then failed to store the event, a second attempt with a
  further guest y sends the invite to x as well, whose status is needs-action by then.
\<close>

theorem C6_counterexample:
  "fst (saveAndSend sampleLib failEnv \<lparr>vm = guestVm, trace = []\<rparr>) = Inl (OtherError ''offline'')
   \<and> filter isInvite (trace (snd (saveAndSend sampleLib sampleEnv \<lparr>vm = retryVm, trace = []\<rparr>))) =
       [SendInvite retryEvent (inviteModel retryVm)]
   \<and> map rcp_address (bccRecipients (inviteModel retryVm)) = [''x@ex.com'', ''y@ex.com'']
   \<and> map (attendeeKey sampleLib) (ev_attendees retryEvent) =
       [(''me@tutanota.com'', ACCEPTED), (''x@ex.com'', NEEDS_ACTION), (''y@ex.com'', ADDED)]"
proof -
  have a: "fst (saveAndSend sampleLib failEnv \<lparr>vm = guestVm, trace = []\<rparr>) =
      Inl (OtherError ''offline'')"
    by (simp add: failed_first_attempt)
  have b: "filter isInvite
      (trace (snd (saveAndSend sampleLib sampleEnv \<lparr>vm = retryVm, trace = []\<rparr>))) =
       [SendInvite retryEvent (inviteModel retryVm)]"
    by (simp add: second_attempt isInvite_def)
  have c: "map rcp_address (bccRecipients (inviteModel retryVm)) = [''x@ex.com'', ''y@ex.com'']"
    by (simp add: retryVm_eq)
  have d: "map (attendeeKey sampleLib) (ev_attendees retryEvent) =
       [(''me@tutanota.com'', ACCEPTED), (''x@ex.com'', NEEDS_ACTION), (''y@ex.com'', ADDED)]"
    by (simp add: retryEvent_def attendeeKey_def sampleLib_def meAddress_def)
  from a b c d show ?thesis by simp
qed

text \<open>
  C6, amended. The dispatch of \<^verbatim>\<open>_sendNotificationAndSave\<close> adds to the trace a beginning
  of the sequence invite, cancel, persist, update, and the whole sequence when it ends well;
  it ends well when every call completes. The invite is in the sequence when an attendee of
  the event is newly added, and it is sent with the invite roster as it stands; the
  cancellation is in it when the cancel roster is not empty, the update when the answer was
  yes. Once the invite is sent the newly added attendees need to act in the ledger, and
  without it the ledger is as before. An update is sent only when there is somebody to
  update and updates were forced or agreed to.
\<close>

theorem C6_dispatch_order:
  "prefix (trace st) (trace (snd (dispatchChain env u newEvent newAlarms st)))
   \<and> prefix (trace (snd (dispatchChain env u newEvent newAlarms st)))
        (trace st @ dispatchOrder u newEvent newAlarms (vm st))
   \<and> (fst (dispatchChain env u newEvent newAlarms st) = Inr True \<longrightarrow>
        trace (snd (dispatchChain env u newEvent newAlarms st)) =
          trace st @ dispatchOrder u newEvent newAlarms (vm st))
   \<and> (sendInviteResult env = None \<and> sendCancellationResult env = None \<and>
        saveOutcome env (vm st) = Inr () \<and> sendUpdateResult env = None \<longrightarrow>
        fst (dispatchChain env u newEvent newAlarms st) = Inr True)
   \<and> (\<forall>e m. SendInvite e m \<in> set (dispatchOrder u newEvent newAlarms (vm st)) \<longrightarrow>
        e = newEvent \<and> m = inviteModel (vm st) \<and>
        (\<exists>a \<in> set (ev_attendees newEvent). att_status a = ADDED))
   \<and> (sendInviteResult env = None \<longrightarrow>
        (\<forall>k. guestStatuses (vm (snd (dispatchChain env u newEvent newAlarms st))) k =
           (if k \<in> (\<lambda>a. address (att_address a)) `
                     {a \<in> set (ev_attendees newEvent). att_status a = ADDED}
            then Some NEEDS_ACTION else guestStatuses (vm st) k)))
   \<and> (sendInviteResult env \<noteq> None \<longrightarrow>
        guestStatuses (vm (snd (dispatchChain env u newEvent newAlarms st))) = guestStatuses (vm st))
   \<and> (\<forall>eff \<in> set (drop (length (trace st))
                      (trace (snd (sendNotificationAndSave lib env newEvent newAlarms st)))).
        isUpdate eff \<longrightarrow>
        hasUpdatableAttendees (vm st) \<and>
        (isForceUpdates (vm st) \<or> askForUpdatesAnswer env = Yes))"
  using dispatchChain_trace [of st env u newEvent newAlarms]
    dispatchChain_ledger [of env u newEvent newAlarms st]
    dispatchChain_success [of env st u newEvent newAlarms]
    invite_in_dispatchOrder [of _ _ u newEvent newAlarms "vm st"]
    updates_only_when_agreed [of _ st lib env newEvent newAlarms]
  by blast

theorem C6_dispatch_order_witness:
  "fst (dispatchChain sampleEnv No guestEvent [] \<lparr>vm = guestVm, trace = []\<rparr>) = Inr True
   \<and> trace (snd (dispatchChain sampleEnv No guestEvent [] \<lparr>vm = guestVm, trace = []\<rparr>)) =
       [SendInvite guestEvent (inviteModel guestVm),
        CreateEvent (flipAdded guestEvent) [] ''UTC'' ''ownRoot'']
   \<and> guestStatuses (vm (snd (dispatchChain sampleEnv No guestEvent [] \<lparr>vm = guestVm, trace = []\<rparr>)))
         ''x@ex.com'' = Some NEEDS_ACTION
   \<and> map att_status (ev_attendees (flipAdded guestEvent)) = [ACCEPTED, NEEDS_ACTION]"
proof -
  have env: "sendInviteResult sampleEnv = None" "sendCancellationResult sampleEnv = None"
    "sendUpdateResult sampleEnv = None"
    by (simp_all add: sampleEnv_def)
  have save: "saveOutcome sampleEnv (vm \<lparr>vm = guestVm, trace = []\<rparr>) = Inr ()"
    by (simp add: saveOutcome_def guestVm_eq sampleVm_def sampleUser_def sampleEnv_def)
  have order: "dispatchOrder No guestEvent [] (vm \<lparr>vm = guestVm, trace = []\<rparr>) =
      [SendInvite guestEvent (inviteModel guestVm),
       CreateEvent (flipAdded guestEvent) [] ''UTC'' ''ownRoot'']"
    by (simp add: dispatchOrder_def saveCall_def guestVm_eq sampleVm_def sampleUser_def
        sampleModel_def guestEvent_def)
  have added: "''x@ex.com'' \<in> (\<lambda>a. address (att_address a)) `
      {a \<in> set (ev_attendees guestEvent). att_status a = ADDED}"
    by (auto simp: guestEvent_def image_iff)
  have flip: "map att_status (ev_attendees (flipAdded guestEvent)) = [ACCEPTED, NEEDS_ACTION]"
    by (simp add: flipAdded_def guestEvent_def)
  show ?thesis
    using C6_dispatch_order [of "\<lparr>vm = guestVm, trace = []\<rparr>" sampleEnv No guestEvent "[]" sampleLib]
      env save order added flip
    by simp
qed

text \<open>
  C5 as stated does not hold. An own address that is an attendee already keeps the status
  it has: after the editor has declined, adding the editor's address again leaves the
  ledger at declined. The editor joins a first guest only on an own event: on an event
  of a shared calendar that was moved to the editor's calendar, the first guest stays the
  only attendee. And an own address is known by its spelling only: with a capital letter
  it is put on the invite roster as a guest, added-pending.
\<close>

theorem C5_counterexample:
  "''me@tutanota.com'' \<in> set (ownMailAddresses declinedVm)
   \<and> guestStatuses (addGuest sampleLib ''me@tutanota.com'' declinedVm) ''me@tutanota.com''
       = Some DECLINED
   \<and> ''x@ex.com'' \<notin> set (ownMailAddresses sharedVm)
   \<and> attendees sharedVm = []
   \<and> attendees (addGuest sampleLib ''x@ex.com'' sharedVm) = [newGuest ''x@ex.com'']
   \<and> ownAttendee (addGuest sampleLib ''x@ex.com'' sharedVm) = None
   \<and> map (cleanMailAddress caseLib) (ownMailAddresses sampleVm) =
       [cleanMailAddress caseLib ''Me@tutanota.com'']
   \<and> map rcp_address (bccRecipients (inviteModel (addGuest caseLib ''Me@tutanota.com'' sampleVm))) =
       [''Me@tutanota.com'']
   \<and> guestStatuses (addGuest caseLib ''Me@tutanota.com'' sampleVm) ''Me@tutanota.com'' = Some ADDED"
proof -
  have declined: "declinedVm =
      guestVm\<lparr>guestStatuses := [''x@ex.com'' \<mapsto> ADDED, ''me@tutanota.com'' \<mapsto> DECLINED]\<rparr>"
    by (simp add: declinedVm_def selectGoing_def canModifyOwnAttendance_def guestVm_eq sampleVm_def
        meAddress_def)
  have again: "addGuest sampleLib ''me@tutanota.com'' declinedVm = declinedVm"
    by (simp add: addGuest_def declined guestVm_eq sampleVm_def sampleLib_def sampleModel_def
        attendees_def makeGuestList_def findAttendeeInAddresses_def meAddress_def Let_def)
  have a: "''me@tutanota.com'' \<in> set (ownMailAddresses declinedVm)"
    by (simp add: declined guestVm_eq sampleVm_def)
  have b: "guestStatuses declinedVm ''me@tutanota.com'' = Some DECLINED"
    by (simp add: declined)
  have c: "''x@ex.com'' \<notin> set (ownMailAddresses sharedVm)" "attendees sharedVm = []"
    by (simp_all add: sharedVm_def sampleVm_def attendees_def makeGuestList_def sampleModel_def
        Let_def)
  have d: "addGuest sampleLib ''x@ex.com'' sharedVm =
      sharedVm\<lparr>inviteModel := sampleModel\<lparr>bccRecipients :=
                 [\<lparr>rcp_name = [], rcp_address = ''x@ex.com'', rcp_type = RT_UNKNOWN\<rparr>]\<rparr>,
        guestStatuses := [''x@ex.com'' \<mapsto> ADDED]\<rparr>"
    by (simp add: addGuest_def sharedVm_def sampleVm_def sampleLib_def sampleModel_def attendees_def
        makeGuestList_def findAttendeeInAddresses_def findRecipientWithAddress_def addRecipient_def
        findOwnAttendee_def selectGoing_def canModifyOwnAttendance_def Let_def)
  have e: "attendees (addGuest sampleLib ''x@ex.com'' sharedVm) = [newGuest ''x@ex.com'']"
    "ownAttendee (addGuest sampleLib ''x@ex.com'' sharedVm) = None"
    unfolding d
    by (simp_all add: sharedVm_def sampleVm_def attendees_def makeGuestList_def sampleModel_def
        newGuest_def Let_def)
  have f: "map (cleanMailAddress caseLib) (ownMailAddresses sampleVm) =
       [cleanMailAddress caseLib ''Me@tutanota.com'']"
    by (simp add: sampleVm_def caseLib_def toLowerCase_def)
  have g: "map rcp_address
       (bccRecipients (inviteModel (addGuest caseLib ''Me@tutanota.com'' sampleVm))) =
       [''Me@tutanota.com'']"
    "guestStatuses (addGuest caseLib ''Me@tutanota.com'' sampleVm) ''Me@tutanota.com'' = Some ADDED"
    by (simp_all add: addGuest_other_spelling)
  from a b c e again f g show ?thesis by simp
qed

text \<open>
  C5, amended. An address that is one of the editor's own addresses, spelled as the view
  model lists it, is never put on the invite roster. For an address that is neither among
  the attendees nor in the ledger: such an own address gets the status accepted in the
  ledger, and when it is found among the possible organizers it becomes organizer and
  self-attendee where the organizer may be modified, while otherwise the organizer stays as
  it is; a foreign address, one that is none of the editor's own addresses in normalised
  form either, is appended to the invite roster; and where the invite roster sends from one
  of the editor's own addresses, the foreign address has the status added-pending, and as
  the very first attendee it is joined by the editor on an own event, under the sender
  address of the roster and with the status accepted, while on any other event it stays
  alone.
\<close>

theorem C5_addGuest:
  "(a \<in> set (ownMailAddresses v) \<longrightarrow> inviteModel (addGuest lib a v) = inviteModel v)
   \<and> (findAttendeeInAddresses lib (\<lambda>g. address (guest_address g)) (attendees v) [a] = None \<and>
        guestStatuses v a = None \<longrightarrow>
        (a \<in> set (ownMailAddresses v) \<longrightarrow>
           guestStatuses (addGuest lib a v) a = Some ACCEPTED
           \<and> (case findRecipientWithAddress lib address (possibleOrganizers v) a of
                Some org \<Rightarrow>
                  if canModifyOrganizer lib v
                  then organizer (addGuest lib a v) = Some org \<and>
                       ownAttendee (addGuest lib a v) = Some org
                  else organizer (addGuest lib a v) = organizer v
              | None \<Rightarrow> organizer (addGuest lib a v) = organizer v))
        \<and> (cleanMailAddress lib a \<notin> cleanMailAddress lib ` set (ownMailAddresses v) \<longrightarrow>
             bccRecipients (inviteModel (addGuest lib a v)) =
               bccRecipients (inviteModel v) @
               [\<lparr>rcp_name = [], rcp_address = a, rcp_type = RT_UNKNOWN\<rparr>]
             \<and> (sender (inviteModel v) \<in> set (ownMailAddresses v) \<longrightarrow>
                  guestStatuses (addGuest lib a v) a = Some ADDED
                  \<and> (attendees v = [] \<longrightarrow>
                       attendees (addGuest lib a v) =
                         (if eventType v = OWN then [selfGuest v, newGuest a]
                          else [newGuest a])))))"
proof -
  have own: "guestStatuses (addGuest lib a v) a = Some ACCEPTED
           \<and> (case findRecipientWithAddress lib address (possibleOrganizers v) a of
                Some org \<Rightarrow>
                  if canModifyOrganizer lib v
                  then organizer (addGuest lib a v) = Some org \<and>
                       ownAttendee (addGuest lib a v) = Some org
                  else organizer (addGuest lib a v) = organizer v
              | None \<Rightarrow> organizer (addGuest lib a v) = organizer v)"
    if "findAttendeeInAddresses lib (\<lambda>g. address (guest_address g)) (attendees v) [a] = None"
      "guestStatuses v a = None" "a \<in> set (ownMailAddresses v)"
    using addGuest_own_props [OF that(1) that(3) that(2)]
    by (simp split: option.split)
  have roster: "bccRecipients (inviteModel (addGuest lib a v)) =
               bccRecipients (inviteModel v) @
               [\<lparr>rcp_name = [], rcp_address = a, rcp_type = RT_UNKNOWN\<rparr>]"
    if "findAttendeeInAddresses lib (\<lambda>g. address (guest_address g)) (attendees v) [a] = None"
      "guestStatuses v a = None"
      "cleanMailAddress lib a \<notin> cleanMailAddress lib ` set (ownMailAddresses v)"
  proof -
    from that(3) have "a \<notin> set (ownMailAddresses v)" by blast
    from addGuest_foreign_roster [OF that(1) this that(2)] show ?thesis .
  qed
  have foreign: "guestStatuses (addGuest lib a v) a = Some ADDED
             \<and> (attendees v = [] \<longrightarrow>
                  attendees (addGuest lib a v) =
                    (if eventType v = OWN then [selfGuest v, newGuest a] else [newGuest a]))"
    if "findAttendeeInAddresses lib (\<lambda>g. address (guest_address g)) (attendees v) [a] = None"
      "guestStatuses v a = None"
      "cleanMailAddress lib a \<notin> cleanMailAddress lib ` set (ownMailAddresses v)"
      "sender (inviteModel v) \<in> set (ownMailAddresses v)"
  proof -
    from that(3) have "a \<notin> set (ownMailAddresses v)" by blast
    from addGuest_foreign_props [OF that(1) this that(2) that(4)] that(3) show ?thesis
      by blast
  qed
  from addGuest_own_inviteModel [of a v lib] own roster foreign show ?thesis
    by blast
qed

theorem C5_addGuest_witness:
  "attendees sampleVm = []
   \<and> guestStatuses sampleVm ''x@ex.com'' = None
   \<and> cleanMailAddress sampleLib ''x@ex.com'' \<notin>
       cleanMailAddress sampleLib ` set (ownMailAddresses sampleVm)
   \<and> sender (inviteModel sampleVm) \<in> set (ownMailAddresses sampleVm)
   \<and> eventType sampleVm = OWN
   \<and> map rcp_address (bccRecipients (inviteModel (addGuest sampleLib ''x@ex.com'' sampleVm))) =
       [''x@ex.com'']
   \<and> attendees (addGuest sampleLib ''x@ex.com'' sampleVm) = [selfGuest sampleVm, newGuest ''x@ex.com'']
   \<and> guestStatuses (addGuest sampleLib ''x@ex.com'' sampleVm) ''x@ex.com'' = Some ADDED
   \<and> ''me@tutanota.com'' \<in> set (ownMailAddresses sampleVm)
   \<and> canModifyOrganizer sampleLib sampleVm
   \<and> inviteModel (addGuest sampleLib ''me@tutanota.com'' sampleVm) = inviteModel sampleVm
   \<and> guestStatuses (addGuest sampleLib ''me@tutanota.com'' sampleVm) ''me@tutanota.com'' = Some ACCEPTED
   \<and> organizer (addGuest sampleLib ''me@tutanota.com'' sampleVm) = Some meAddress
   \<and> ownAttendee (addGuest sampleLib ''me@tutanota.com'' sampleVm) = Some meAddress"
proof -
  have empty: "attendees sampleVm = []"
    by (simp add: sampleVm_def attendees_def makeGuestList_def sampleModel_def Let_def)
  have notAtt: "findAttendeeInAddresses sampleLib (\<lambda>g. address (guest_address g)) [] [b] = None"
    for b :: string
    by (simp add: findAttendeeInAddresses_def)
  have facts: "guestStatuses sampleVm b = None"
    "sender (inviteModel sampleVm) \<in> set (ownMailAddresses sampleVm)"
    "eventType sampleVm = OWN"
    "''me@tutanota.com'' \<in> set (ownMailAddresses sampleVm)"
    "cleanMailAddress sampleLib ''x@ex.com'' \<notin>
       cleanMailAddress sampleLib ` set (ownMailAddresses sampleVm)"
    "canModifyOrganizer sampleLib sampleVm"
    "findRecipientWithAddress sampleLib address (possibleOrganizers sampleVm) ''me@tutanota.com''
       = Some meAddress"
    "bccRecipients (inviteModel sampleVm) = []" for b
    by (simp_all add: sampleVm_def sampleModel_def sampleLib_def canModifyOrganizer_def
        hasGuests_def findRecipientWithAddress_def meAddress_def)
  show ?thesis
    using C5_addGuest [of "''x@ex.com''" sampleVm sampleLib]
      C5_addGuest [of "''me@tutanota.com''" sampleVm sampleLib]
    by (simp add: empty notAtt facts)
qed

end
